(* ===== verification/Prelude.thy ===== *)
theory Prelude
  imports Complex_Main "HOL-Library.Word" "HOL-Library.Monad_Syntax"
begin

text \<open>
  Material shared by every component: names for the machine types of the Windows sources,
  the \<open>GENMASK\<close> bit-field macro, C's truncating division, decimal digits, C strings,
  and the collections of rewrite rules the component proofs use.

  A computation that may fault (an access outside an array, a blocking acquire of a held
  mutex, a division by zero) is a value of type \<open>'a option\<close>: \<open>None\<close> is the fault, so a
  theorem that a result is \<open>Some\<close> says that the code does not fault.
\<close>

unbundle bit_operations_syntax

named_theorems size_simps \<open>sizes of the shared structures, as numerals\<close>
named_theorems mem_simps \<open>effects of the buffer operations\<close>

section \<open>Machine types\<close>

type_synonym BYTE = "8 word"
type_synonym USHORT = "16 word"
type_synonym ULONG = "32 word"
type_synonym ULONGLONG = "64 word"
type_synonym NTSTATUS = "32 word"

text \<open>\<open>LONG\<close> and \<open>LARGE_INTEGER.QuadPart\<close> are the same words, read by \<^term>\<open>sint\<close>.\<close>

type_synonym LONG = "32 word"
type_synonym LARGE_INTEGER = "64 word"

section \<open>Bit fields\<close>

definition GENMASK :: "nat \<Rightarrow> nat \<Rightarrow> ULONGLONG" where
  "GENMASK h l = drop_bit (64 - 1 - h) (NOT 0) AND push_bit l (NOT 0)"

lemma bit_GENMASK: "h < 64 \<Longrightarrow> bit (GENMASK h l) n \<longleftrightarrow> l \<le> n \<and> n \<le> h"
  by (auto simp: GENMASK_def bit_simps)

text \<open>Masking with \<open>GENMASK(h, l)\<close> and shifting by \<open>l\<close> extracts bits \<open>h..l\<close>.\<close>

lemma genmask_field:
  "h < 64 \<Longrightarrow> drop_bit l (w AND GENMASK h l) = take_bit (Suc h - l) (drop_bit l w)"
  by (rule bit_word_eqI) (auto simp: bit_simps bit_GENMASK)

lemma genmask_low: "h < 64 \<Longrightarrow> w AND GENMASK h 0 = take_bit (Suc h) w"
  using genmask_field[of h 0 w] by simp

lemma unat_take_bit_less: "n < LENGTH('a) \<Longrightarrow> unat (take_bit n (w :: 'a::len word)) < 2 ^ n"
  by (metis take_bit_nat_less_exp unsigned_take_bit_eq)

lemma unat_take_bit_drop_bit:
  "unat (take_bit n (drop_bit m (w :: 'a::len word))) = unat w div 2 ^ m mod 2 ^ n"
  by (simp only: unsigned_take_bit_eq unsigned_drop_bit_eq) (simp add: take_bit_eq_mod drop_bit_eq_div unsigned_drop_bit_eq)

lemma unat_ucast_small:
  fixes w :: "'a::len word"
  assumes "unat w < 2 ^ LENGTH('b)"
  shows "unat (ucast w :: 'b::len word) = unat w"
  using assms by (simp add: unsigned_ucast_eq take_bit_nat_eq_self)

lemma unat_widen [simp]:
  "unat (ucast (a :: USHORT) :: ULONG) = unat a"
  "unat (ucast (a :: USHORT) :: ULONGLONG) = unat a"
  "unat (ucast (b :: ULONG) :: ULONGLONG) = unat b"
  using unsigned_less[of a, where ?'a = nat] unsigned_less[of b, where ?'a = nat]
  by (simp_all add: unat_ucast_small)

lemma unat_word_of_nat_small:
  "n < 2 ^ LENGTH('a) \<Longrightarrow> unat (word_of_nat n :: 'a::len word) = n"
  by (simp add: unat_of_nat take_bit_nat_eq_self)

section \<open>Truncating division\<close>

text \<open>C rounds a signed quotient towards zero.\<close>

definition c_div :: "int \<Rightarrow> int \<Rightarrow> int" where
  "c_div a b = sgn a * sgn b * (\<bar>a\<bar> div \<bar>b\<bar>)"

lemma c_div_nonneg: "0 \<le> a \<Longrightarrow> 0 < b \<Longrightarrow> c_div a b = a div b"
  by (cases "a = 0") (auto simp: c_div_def)

lemma c_div_neg: "a < 0 \<Longrightarrow> 0 < b \<Longrightarrow> c_div a b \<le> 0"
  by (simp add: c_div_def pos_imp_zdiv_nonneg_iff)

section \<open>Decimal digits\<close>

definition digit_char :: "nat \<Rightarrow> char" where
  "digit_char d = char_of (48 + d)"

text \<open>The decimal numeral of a natural number, as \<open>std::to_string\<close> prints it.\<close>

fun show_nat :: "nat \<Rightarrow> string" where
  "show_nat n = (if n < 10 then [digit_char n] else show_nat (n div 10) @ [digit_char (n mod 10)])"

declare show_nat.simps [simp del]

lemma digit_char_inj: "a < 10 \<Longrightarrow> b < 10 \<Longrightarrow> digit_char a = digit_char b \<Longrightarrow> a = b"
  by (simp add: digit_char_def)

lemma show_nat_nonempty [simp]: "show_nat n \<noteq> []" "[] \<noteq> show_nat n"
  by (subst show_nat.simps, simp)+

lemma show_nat_small: "n < 10 \<Longrightarrow> show_nat n = [digit_char n]"
  by (subst show_nat.simps) simp

lemma show_nat_big: "10 \<le> n \<Longrightarrow> show_nat n = show_nat (n div 10) @ [digit_char (n mod 10)]"
  by (subst show_nat.simps) simp

lemma show_nat_inject: "show_nat m = show_nat n \<Longrightarrow> m = n"
proof (induction m arbitrary: n rule: show_nat.induct)
  case (1 m)
  show ?case
  proof (cases "m < 10 \<or> n < 10")
    case True
    then show ?thesis
      using "1.prems" digit_char_inj
      by (cases "m < 10"; cases "n < 10") (auto simp: show_nat_small show_nat_big append_eq_Cons_conv)
  next
    case False
    with "1.prems" have "show_nat (m div 10) = show_nat (n div 10)"
      and "digit_char (m mod 10) = digit_char (n mod 10)"
      by (simp_all add: show_nat_big)
    with False "1.IH" have "m div 10 = n div 10" "m mod 10 = n mod 10"
      by (auto intro: digit_char_inj)
    then show ?thesis by (metis div_mult_mod_eq)
  qed
qed

section \<open>C strings\<close>

definition NUL :: char where
  "NUL = CHR 0x00"

text \<open>The string a NUL-terminated array of characters stands for.\<close>

definition cstr :: "char list \<Rightarrow> string" where
  "cstr cs = takeWhile (\<lambda>c. c \<noteq> NUL) cs"

lemma cstr_append: "NUL \<notin> set s \<Longrightarrow> cstr (s @ NUL # rest) = s"
  unfolding cstr_def by (subst takeWhile_append2) auto

lemma digit_char_not_NUL: "d < 10 \<Longrightarrow> digit_char d \<noteq> NUL"
  using digit_char_inj[of d] by (auto simp: digit_char_def NUL_def char_of_eq_iff take_bit_nat_eq_self)

lemma show_nat_no_NUL: "NUL \<notin> set (show_nat n)"
proof (induction n rule: show_nat.induct)
  case (1 n)
  then show ?case
    using digit_char_not_NUL[of n] digit_char_not_NUL[of "n mod 10"]
    by (subst show_nat.simps) auto
qed

section \<open>Lists\<close>

lemma take_list_update_same: "n \<le> i \<Longrightarrow> take n (xs[i := x]) = take n xs"
  by simp

lemma take_Suc_update: "i < length xs \<Longrightarrow> take (Suc i) (xs[i := x]) = take i xs @ [x]"
  by (simp add: take_Suc_conv_app_nth)

lemmas store_at_end = take_list_update_same take_Suc_update

end
