(* ===== verification/Cpu_Shared.thy ===== *)
theory Cpu_Shared
  imports Prelude
begin

text \<open>
  \<open>kernel_common/cpu_shared_info.h\<close>, the header both kernel drivers and the user-space
  driver client include: the enumerations, the telemetry record \<open>CPU_DATA\<close> with its
  header, the control code, and the CPUID vendor check. The \<open>int\<close>s of \<open>__cpuid\<close>
  are words here, in the register order EAX, EBX, ECX, EDX of \<open>cpu_info\<close>.
\<close>

section \<open>Enumerations\<close>

datatype CPU_VENDOR = CPU_VENDOR_UNKNOWN | CPU_VENDOR_INTEL | CPU_VENDOR_AMD

datatype METRIC_TYPE = METRIC_TEMP | METRIC_VOLTAGE | METRIC_CLOCK_SPEED | METRIC_LOAD | METRIC_POWER

datatype METRIC_UNIT =
  UNIT_NONE | UNIT_DEGREES_C | UNIT_MILLIVOLTS | UNIT_MHZ | UNIT_PERCENT | UNIT_MILLIWATTS

text \<open>The \<open>(USHORT)\<close> casts of the enumerators, which are numbered in order from 0.\<close>

fun type_code :: "METRIC_TYPE \<Rightarrow> USHORT" where
  "type_code METRIC_TEMP = 0"
| "type_code METRIC_VOLTAGE = 1"
| "type_code METRIC_CLOCK_SPEED = 2"
| "type_code METRIC_LOAD = 3"
| "type_code METRIC_POWER = 4"

fun unit_code :: "METRIC_UNIT \<Rightarrow> USHORT" where
  "unit_code UNIT_NONE = 0"
| "unit_code UNIT_DEGREES_C = 1"
| "unit_code UNIT_MILLIVOLTS = 2"
| "unit_code UNIT_MHZ = 3"
| "unit_code UNIT_PERCENT = 4"
| "unit_code UNIT_MILLIWATTS = 5"

lemma type_code_inject [simp]: "type_code a = type_code b \<longleftrightarrow> a = b"
  by (cases a; cases b) simp_all

lemma unit_code_inject [simp]: "unit_code a = unit_code b \<longleftrightarrow> a = b"
  by (cases a; cases b) simp_all

section \<open>The telemetry record\<close>

text \<open>\<open>name\<close> is the array \<open>char name[32]\<close>, NULs included.\<close>

record CPU_DATA =
  data_value :: ULONG
  data_name :: "char list"
  data_type :: USHORT
  data_unit :: USHORT
  cpu_id :: USHORT

record CPU_DATA_HEADER =
  required_size :: ULONG
  processor_count :: ULONG
  entry_count :: ULONG

text \<open>
  The sizes the C compiler gives the two structures: three \<open>ULONG\<close>s; and a
  \<open>ULONG\<close>, 32 characters and three \<open>USHORT\<close>s, 42 bytes, padded to the alignment of
  a \<open>ULONG\<close>.
\<close>

definition name_size :: nat where
  "name_size = 32"

definition header_size :: nat where
  "header_size = 3 * 4"

definition entry_size :: nat where
  "entry_size = (4 + name_size + 3 * 2 + 3) div 4 * 4"

lemma structure_sizes [size_simps]: "name_size = 32" "header_size = 12" "entry_size = 44"
  by (simp_all add: name_size_def header_size_def entry_size_def)

text \<open>What \<open>RtlZeroMemory(&data, sizeof(CPU_DATA))\<close> leaves.\<close>

definition zero_data :: CPU_DATA where
  "zero_data = \<lparr>data_value = 0, data_name = replicate name_size NUL,
     data_type = 0, data_unit = 0, cpu_id = 0\<rparr>"

text \<open>
  \<open>CTL_CODE(FILE_DEVICE_UNKNOWN, 0x800, METHOD_BUFFERED, FILE_ANY_ACCESS)\<close>, with the
  platform's \<open>CTL_CODE\<close>: device type shifted by 16, access by 14, function by 2, method.
\<close>

definition IOCTL_GET_DATA :: ULONG where
  "IOCTL_GET_DATA = push_bit 16 0x22 OR push_bit 14 0 OR push_bit 2 0x800 OR 0"

section \<open>Vendor detection\<close>

record cpu_regs =
  eax :: ULONG
  ebx :: ULONG
  ecx :: ULONG
  edx :: ULONG

text \<open>The four bytes \<open>memcpy\<close> copies from an \<open>int\<close>, lowest first.\<close>

definition le_chars :: "ULONG \<Rightarrow> char list" where
  "le_chars w = map (\<lambda>i. char_of (unat (drop_bit (8 * i) w))) [0, 1, 2, 3]"

definition DetectCpuVendor :: "(ULONG \<Rightarrow> cpu_regs) \<Rightarrow> CPU_VENDOR" where
  "DetectCpuVendor cpuid =
     (let info = cpuid 0;
          vendor = le_chars (ebx info) @ le_chars (edx info) @ le_chars (ecx info)
      in if vendor = ''GenuineIntel'' then CPU_VENDOR_INTEL
         else if vendor = ''AuthenticAMD'' then CPU_VENDOR_AMD
         else CPU_VENDOR_UNKNOWN)"

text \<open>The registers an AMD and an Intel processor report for leaf 0.\<close>

definition amd_leaf0 :: cpu_regs where
  "amd_leaf0 = \<lparr>eax = 0x10, ebx = 0x68747541, ecx = 0x444D4163, edx = 0x69746E65\<rparr>"

definition intel_leaf0 :: cpu_regs where
  "intel_leaf0 = \<lparr>eax = 0x16, ebx = 0x756E6547, ecx = 0x6C65746E, edx = 0x49656E69\<rparr>"

lemma length_le_chars [simp]: "length (le_chars w) = 4"
  by (simp add: le_chars_def)

lemma le_chars_inject: "le_chars a = le_chars b \<Longrightarrow> a = b"
proof -
  assume eq: "le_chars a = le_chars b"
  have byte: "take_bit 8 (drop_bit (8 * i) a) = take_bit 8 (drop_bit (8 * i) b)" if "i < 4" for i
  proof -
    from that have "i \<in> set [0, 1, 2, 3]" by auto
    with eq[unfolded le_chars_def map_eq_conv]
    have "(char_of (unat (drop_bit (8 * i) a)) :: char) = char_of (unat (drop_bit (8 * i) b))" by blast
    then have "(of_char (char_of (unat (drop_bit (8 * i) a)) :: char) :: nat)
        = of_char (char_of (unat (drop_bit (8 * i) b)) :: char)"
      by simp
    then have "take_bit 8 (unat (drop_bit (8 * i) a)) = take_bit 8 (unat (drop_bit (8 * i) b))"
      by (simp add: take_bit_eq_mod)
    then show ?thesis by (metis unsigned_take_bit_eq unsigned_word_eqI)
  qed
  show "a = b"
  proof (rule bit_word_eqI)
    fix n assume "n < LENGTH(32)"
    then have "n div 8 < 4" by simp
    then have "bit (take_bit 8 (drop_bit (8 * (n div 8)) a)) (n mod 8)
        = bit (take_bit 8 (drop_bit (8 * (n div 8)) b)) (n mod 8)"
      using byte by simp
    then show "bit a n = bit b n"
      by (simp add: bit_simps \<open>n < LENGTH(32)\<close>)
  qed
qed

lemma le_chars_eq_iff: "le_chars a = le_chars b \<longleftrightarrow> a = b"
  by (auto dest: le_chars_inject)

lemma vendor_string_iff:
  "le_chars b @ le_chars d @ le_chars c = le_chars b' @ le_chars d' @ le_chars c'
     \<longleftrightarrow> b = b' \<and> d = d' \<and> c = c'"
  by (simp add: le_chars_eq_iff)

lemma vendor_strings:
  "''GenuineIntel'' = le_chars 0x756E6547 @ le_chars 0x49656E69 @ le_chars 0x6C65746E"
  "''AuthenticAMD'' = le_chars 0x68747541 @ le_chars 0x69746E65 @ le_chars 0x444D4163"
  by (simp_all add: le_chars_def char_of_def bit_0)

lemma DetectCpuVendor_regs:
  "DetectCpuVendor leaf =
     (if ebx (leaf 0) = 0x756E6547 \<and> edx (leaf 0) = 0x49656E69 \<and> ecx (leaf 0) = 0x6C65746E
      then CPU_VENDOR_INTEL
      else if ebx (leaf 0) = 0x68747541 \<and> edx (leaf 0) = 0x69746E65 \<and> ecx (leaf 0) = 0x444D4163
      then CPU_VENDOR_AMD
      else CPU_VENDOR_UNKNOWN)"
  unfolding DetectCpuVendor_def Let_def vendor_strings vendor_string_iff by simp

text \<open>\<open>DetectCpuVendor\<close> answers AMD, Intel or unknown exactly by the values of EBX, EDX and
  ECX of CPUID leaf 0: the byte comparison of the reassembled string decides equality of the
  three registers, and the two vendors exclude each other.\<close>

theorem DetectCpuVendor_iff:
  "DetectCpuVendor leaf =
     (if ebx (leaf 0) = 0x756E6547 \<and> edx (leaf 0) = 0x49656E69 \<and> ecx (leaf 0) = 0x6C65746E
      then CPU_VENDOR_INTEL
      else if ebx (leaf 0) = 0x68747541 \<and> edx (leaf 0) = 0x69746E65 \<and> ecx (leaf 0) = 0x444D4163
      then CPU_VENDOR_AMD
      else CPU_VENDOR_UNKNOWN)"
  by (rule DetectCpuVendor_regs)

end
