(* ===== verification/Kernel_Env.thy ===== *)
theory Kernel_Env
  imports Cpu_Shared
begin

text \<open>
  What the drivers call and the repository does not hold: processor instructions
  (\<open>__readmsr\<close>, \<open>__rdtsc\<close>, \<open>__cpuid\<close>), the kernel (\<open>Ke*\<close>, \<open>Ex*\<close>, \<open>Hal*\<close>)
  and the driver framework (\<open>Wdf*\<close>). They are the fields of a record \<open>'w kernel\<close>, functions on
  a state \<open>'w\<close> of the machine that nothing is assumed about, so every theorem holds for every
  machine. A driver's global variables extend the record \<open>kst\<close> that holds this machine state,
  and the log of the thread-affinity calls made through it.
\<close>

section \<open>Status codes\<close>

definition STATUS_SUCCESS :: NTSTATUS where "STATUS_SUCCESS = 0"
definition STATUS_BUFFER_OVERFLOW :: NTSTATUS where "STATUS_BUFFER_OVERFLOW = 0x80000005"
definition STATUS_BUFFER_TOO_SMALL :: NTSTATUS where "STATUS_BUFFER_TOO_SMALL = 0xC0000023"
definition STATUS_INVALID_DEVICE_REQUEST :: NTSTATUS where "STATUS_INVALID_DEVICE_REQUEST = 0xC0000010"
definition STATUS_INSUFFICIENT_RESOURCES :: NTSTATUS where "STATUS_INSUFFICIENT_RESOURCES = 0xC000009A"

lemmas status_defs = STATUS_SUCCESS_def STATUS_BUFFER_OVERFLOW_def STATUS_BUFFER_TOO_SMALL_def
  STATUS_INVALID_DEVICE_REQUEST_def STATUS_INSUFFICIENT_RESOURCES_def

definition NT_SUCCESS :: "NTSTATUS \<Rightarrow> bool" where
  "NT_SUCCESS st \<longleftrightarrow> 0 \<le> sint st"

section \<open>The machine\<close>

record PROCESSOR_NUMBER =
  pn_Group :: USHORT
  pn_Number :: BYTE

record GROUP_AFFINITY =
  ga_Mask :: ULONGLONG
  ga_Group :: USHORT

record 'w kernel =
  k_cpuid :: "'w \<Rightarrow> ULONG \<Rightarrow> cpu_regs"
  k_readmsr :: "ULONG \<Rightarrow> 'w \<Rightarrow> ULONGLONG \<times> 'w"
  k_rdtsc :: "'w \<Rightarrow> ULONGLONG \<times> 'w"
  k_qpc :: "'w \<Rightarrow> LARGE_INTEGER \<times> 'w"
  k_qpc_freq :: "'w \<Rightarrow> LARGE_INTEGER \<times> 'w"
  k_active_procs :: "'w \<Rightarrow> ULONG"
  k_proc_number :: "'w \<Rightarrow> ULONG \<Rightarrow> PROCESSOR_NUMBER option"
  k_set_affinity :: "GROUP_AFFINITY \<Rightarrow> 'w \<Rightarrow> GROUP_AFFINITY \<times> 'w"
  k_revert_affinity :: "GROUP_AFFINITY \<Rightarrow> 'w \<Rightarrow> 'w"
  k_set_bus :: "ULONG \<Rightarrow> ULONG \<Rightarrow> 'w \<Rightarrow> ULONG \<times> 'w"
  k_get_bus :: "ULONG \<Rightarrow> 'w \<Rightarrow> (ULONG \<times> ULONG) \<times> 'w"
  k_pool_alloc :: "ULONGLONG \<Rightarrow> 'w \<Rightarrow> bool \<times> 'w"
  k_retrieve_output :: "ULONGLONG \<Rightarrow> ULONGLONG \<Rightarrow> 'w \<Rightarrow> NTSTATUS \<times> 'w"
  k_driver_create :: "'w \<Rightarrow> NTSTATUS \<times> 'w"
  k_init_allocate :: "'w \<Rightarrow> bool \<times> 'w"
  k_assign_sddl :: "'w \<Rightarrow> NTSTATUS \<times> 'w"
  k_assign_name :: "'w \<Rightarrow> NTSTATUS \<times> 'w"
  k_device_create :: "'w \<Rightarrow> NTSTATUS \<times> 'w"
  k_create_symlink :: "'w \<Rightarrow> NTSTATUS \<times> 'w"
  k_queue_create :: "'w \<Rightarrow> NTSTATUS \<times> 'w"

text \<open>A call that sets the affinity is logged with the affinity it replaced, which it returns.\<close>

datatype affinity_call = SetAffinity GROUP_AFFINITY GROUP_AFFINITY | RevertAffinity GROUP_AFFINITY

record 'w kst =
  world :: 'w
  aff_log :: "affinity_call list"

text \<open>
  The calls, on any extension of \<open>kst\<close>. \<open>__cpuid\<close>, \<open>KeQueryActiveProcessorCountEx\<close>
  and \<open>KeGetProcessorNumberFromIndex\<close> read the machine; the others also change it.
\<close>

definition lift_world :: "('w \<Rightarrow> 'a \<times> 'w) \<Rightarrow> ('w, 'm) kst_scheme \<Rightarrow> ('a \<times> ('w, 'm) kst_scheme) option" where
  "lift_world f s = (case f (world s) of (a, w) \<Rightarrow> Some (a, s\<lparr>world := w\<rparr>))"

definition cpuid :: "'w kernel \<Rightarrow> ('w, 'm) kst_scheme \<Rightarrow> ULONG \<Rightarrow> cpu_regs" where
  "cpuid K s = k_cpuid K (world s)"

definition readmsr :: "'w kernel \<Rightarrow> ULONG \<Rightarrow> ('w, 'm) kst_scheme \<Rightarrow> (ULONGLONG \<times> ('w, 'm) kst_scheme) option" where
  "readmsr K a = lift_world (k_readmsr K a)"

definition rdtsc :: "'w kernel \<Rightarrow> ('w, 'm) kst_scheme \<Rightarrow> (ULONGLONG \<times> ('w, 'm) kst_scheme) option" where
  "rdtsc K = lift_world (k_rdtsc K)"

definition query_qpc :: "'w kernel \<Rightarrow> ('w, 'm) kst_scheme \<Rightarrow> (LARGE_INTEGER \<times> ('w, 'm) kst_scheme) option" where
  "query_qpc K = lift_world (k_qpc K)"

definition query_qpc_freq :: "'w kernel \<Rightarrow> ('w, 'm) kst_scheme \<Rightarrow> (LARGE_INTEGER \<times> ('w, 'm) kst_scheme) option" where
  "query_qpc_freq K = lift_world (k_qpc_freq K)"

definition set_affinity ::
  "'w kernel \<Rightarrow> GROUP_AFFINITY \<Rightarrow> ('w, 'm) kst_scheme \<Rightarrow> (GROUP_AFFINITY \<times> ('w, 'm) kst_scheme) option" where
  "set_affinity K a s =
     (case k_set_affinity K a (world s) of
        (prev, w) \<Rightarrow> Some (prev, s\<lparr>world := w, aff_log := aff_log s @ [SetAffinity a prev]\<rparr>))"

definition revert_affinity ::
  "'w kernel \<Rightarrow> GROUP_AFFINITY \<Rightarrow> ('w, 'm) kst_scheme \<Rightarrow> ('w, 'm) kst_scheme" where
  "revert_affinity K a s =
     s\<lparr>world := k_revert_affinity K a (world s), aff_log := aff_log s @ [RevertAffinity a]\<rparr>"

lemma lift_world_total: "\<exists>a w. lift_world f s = Some (a, s\<lparr>world := w\<rparr>)"
  by (cases "f (world s)") (auto simp: lift_world_def)

lemmas env_defs = readmsr_def rdtsc_def query_qpc_def query_qpc_freq_def

text \<open>An environment call never faults, and changes the machine and nothing else of the state.\<close>

lemma readmsr_total: "\<exists>v w. readmsr K a s = Some (v, s\<lparr>world := w\<rparr>)"
  and rdtsc_total: "\<exists>v w. rdtsc K s = Some (v, s\<lparr>world := w\<rparr>)"
  and query_qpc_total: "\<exists>v w. query_qpc K s = Some (v, s\<lparr>world := w\<rparr>)"
  and query_qpc_freq_total: "\<exists>v w. query_qpc_freq K s = Some (v, s\<lparr>world := w\<rparr>)"
  and set_affinity_total:
    "\<exists>p w. set_affinity K ga s = Some (p, s\<lparr>world := w, aff_log := aff_log s @ [SetAffinity ga p]\<rparr>)"
  by (simp_all add: env_defs lift_world_total)
    (cases "k_set_affinity K ga (world s)", auto simp: set_affinity_def)

section \<open>A concrete machine\<close>

text \<open>
  A machine to evaluate the model on: its state is a clock that every read advances; the counters
  and registers are functions of it and of the fields of the function's arguments. All framework
  calls succeed.
\<close>

definition sample_kernel :: "cpu_regs \<Rightarrow> ULONG \<Rightarrow> nat kernel" where
  "sample_kernel leaf0 n =
     \<lparr>k_cpuid = (\<lambda>w leaf. if leaf = 0 then leaf0 else \<lparr>eax = 0x00A20F10, ebx = 0, ecx = 1, edx = 0\<rparr>),
      k_readmsr = (\<lambda>a w. (ucast a + word_of_nat w, Suc w)),
      k_rdtsc = (\<lambda>w. (word_of_nat (2 * w), Suc w)),
      k_qpc = (\<lambda>w. (word_of_nat (1000 * w), Suc w)),
      k_qpc_freq = (\<lambda>w. (10000, w)),
      k_active_procs = (\<lambda>w. n),
      k_proc_number = (\<lambda>w i. if i < n then Some \<lparr>pn_Group = 0, pn_Number = ucast i\<rparr> else None),
      k_set_affinity = (\<lambda>a w. (\<lparr>ga_Mask = 0xFF, ga_Group = 0\<rparr>, w)),
      k_revert_affinity = (\<lambda>a w. w),
      k_set_bus = (\<lambda>reg v w. (4, w)),
      k_get_bus = (\<lambda>reg w. ((4, 0x00800000), w)),
      k_pool_alloc = (\<lambda>bytes w. (True, w)),
      k_retrieve_output = (\<lambda>least len w. (STATUS_SUCCESS, w)),
      k_driver_create = (\<lambda>w. (STATUS_SUCCESS, w)),
      k_init_allocate = (\<lambda>w. (True, w)),
      k_assign_sddl = (\<lambda>w. (STATUS_SUCCESS, w)),
      k_assign_name = (\<lambda>w. (STATUS_SUCCESS, w)),
      k_device_create = (\<lambda>w. (STATUS_SUCCESS, w)),
      k_create_symlink = (\<lambda>w. (STATUS_SUCCESS, w)),
      k_queue_create = (\<lambda>w. (STATUS_SUCCESS, w))\<rparr>"

lemma success_is_success [simp]: "NT_SUCCESS STATUS_SUCCESS"
  by (simp add: NT_SUCCESS_def STATUS_SUCCESS_def)

end
