(* ===== verification/Metric_Buffer.thy ===== *)
theory Metric_Buffer
  imports Kernel_Env
begin

text \<open>
  What the two CPU drivers have in common: the output buffer of the IOCTL, the checked write
  \<open>tryAddTelemetryData\<close>, the name builder, the sequence "read a metric, add it, stop at the
  first that does not fit", the loop over the processors and the body of
  \<open>EvtIoDeviceControl\<close>, which differ between \<open>amd_cpudriver.c\<close> and
  \<open>intel_cpudriver.c\<close> only in the vendor and in the metrics they read. The locale
  \<open>metric_source\<close> states what a driver's readers have to satisfy and proves the handler's
  safety and its results from it; each driver's theory interprets it.
\<close>

section \<open>The output buffer\<close>

text \<open>
  \<open>slots\<close> are the whole \<open>CPU_DATA\<close> entries that lie inside the buffer behind the header.
  The C type declares one entry (\<open>data[1]\<close>) and indexes past it, so the array's real length is
  the buffer's; a write beyond it is a fault.
\<close>

record out_buffer =
  header :: CPU_DATA_HEADER
  slots :: "CPU_DATA list"

definition slot_capacity :: "ULONGLONG \<Rightarrow> nat" where
  "slot_capacity bytes = (unat bytes - header_size) div entry_size"

definition buffer_of_size :: "ULONGLONG \<Rightarrow> out_buffer \<Rightarrow> bool" where
  "buffer_of_size bytes b \<longleftrightarrow> length (slots b) = slot_capacity bytes"

text \<open>\<open>sizeof(CPU_DATA_HEADER) + n * sizeof(CPU_DATA)\<close> in \<open>SIZE_T\<close>, cast to \<open>ULONG\<close>.\<close>

definition bytes_for :: "ULONGLONG \<Rightarrow> ULONG" where
  "bytes_for n = ucast (word_of_nat header_size + n * word_of_nat entry_size)"

definition tryAddTelemetryData ::
  "out_buffer \<Rightarrow> ULONG \<Rightarrow> CPU_DATA \<Rightarrow> USHORT \<Rightarrow> (bool \<times> out_buffer) option" where
  "tryAddTelemetryData buffer buffer_capacity data buffer_idx =
     (let needed = bytes_for (ucast buffer_idx + 1)
      in if buffer_capacity < needed
         then Some (False, buffer\<lparr>header := (header buffer)\<lparr>required_size := needed\<rparr>\<rparr>)
         else if unat buffer_idx < length (slots buffer)
         then Some (True, buffer\<lparr>slots := (slots buffer)[unat buffer_idx := data]\<rparr>)
         else None)"

lemma unat_bytes_for:
  "n < 2 ^ 26 \<Longrightarrow> unat (bytes_for (word_of_nat n)) = header_size + n * entry_size"
  by (simp add: bytes_for_def size_simps unsigned_ucast_eq unat_word_ariths take_bit_nat_eq_self
      unat_of_nat take_bit_eq_mod)

lemma ucast_bytes_for:
  assumes "n < 2 ^ 26"
  shows "(ucast (bytes_for (word_of_nat n)) :: ULONGLONG) = word_of_nat (header_size + n * entry_size)"
proof -
  have "unat (word_of_nat (header_size + n * entry_size) :: ULONGLONG) = header_size + n * entry_size"
    using assms by (intro unat_word_of_nat_small) (simp add: size_simps)
  with unat_bytes_for[OF assms] show ?thesis by (simp only: word_unat_eq_iff unat_widen)
qed

lemma bytes_for_idx:
  "unat (bytes_for (ucast (i :: USHORT) + 1)) = header_size + (unat i + 1) * entry_size"
proof -
  have "unat i < 65536" using unsigned_less[of i, where ?'a = nat] by simp
  moreover have "ucast i + (1 :: ULONGLONG) = word_of_nat (unat i + 1)"
    by (simp add: word_unat_eq_iff unat_word_ariths unat_ucast_small unat_of_nat take_bit_eq_mod)
  ultimately show ?thesis using unat_bytes_for[of "unat i + 1"] by (simp add: add.commute)
qed

text \<open>
  The check is enough: whatever the real size of the buffer, if the capacity passed does not exceed
  it, the write lands inside the array.
\<close>

lemma tryAdd_no_fault:
  assumes "buffer_of_size bytes b" and "unat cap \<le> unat bytes"
  shows "\<exists>ok b'. tryAddTelemetryData b cap d i = Some (ok, b') \<and> buffer_of_size bytes b'"
proof (cases "cap < bytes_for (ucast i + 1)")
  case True
  with assms show ?thesis
    by (auto simp: tryAddTelemetryData_def buffer_of_size_def Let_def)
next
  case False
  then have "header_size + (unat i + 1) * entry_size \<le> unat bytes"
    using assms(2) by (simp add: word_le_nat_alt not_less bytes_for_idx)
  then have "unat i < slot_capacity bytes"
    by (simp add: slot_capacity_def size_simps)
  with assms(1) False show ?thesis
    by (auto simp: tryAddTelemetryData_def buffer_of_size_def Let_def)
qed

text \<open>Where the entry fits, it is stored at its index and the entries before it stay.\<close>

lemma tryAdd_stores:
  assumes "unat i < length (slots b)" and "header_size + (unat i + 1) * entry_size \<le> unat cap"
  shows "tryAddTelemetryData b cap d i = Some (True, b\<lparr>slots := (slots b)[unat i := d]\<rparr>)"
  using assms by (simp add: tryAddTelemetryData_def word_less_nat_alt bytes_for_idx)

section \<open>Core names\<close>

text \<open>
  \<open>BuildCoreName(dst, size, idx, suffix)\<close>: every store \<open>dst[pos++] = c\<close> is checked
  against the array here, which the code does not do beyond its own \<open>pos < size - 1\<close>.
\<close>

definition put_char :: "char list \<Rightarrow> nat \<Rightarrow> char \<Rightarrow> char list option" where
  "put_char dst pos c = (if pos < length dst then Some (dst[pos := c]) else None)"

text \<open>The \<open>for\<close> loops that copy while \<open>src[i] && pos < size - 1\<close>.\<close>

fun copy_chars :: "nat \<Rightarrow> char list \<Rightarrow> nat \<Rightarrow> char list \<Rightarrow> (char list \<times> nat) option" where
  "copy_chars bnd dst pos [] = Some (dst, pos)"
| "copy_chars bnd dst pos (c # cs) =
     (if c \<noteq> NUL \<and> pos < bnd
      then do { dst \<leftarrow> put_char dst pos c; copy_chars bnd dst (Suc pos) cs }
      else Some (dst, pos))"

text \<open>
  The \<open>do ... while (n > 0 && d < sizeof(digits))\<close> loop, with the digits in the order they are
  emitted afterwards (the code stores them lowest first and walks back).
\<close>

function digit_loop :: "ULONG \<Rightarrow> nat \<Rightarrow> char list \<Rightarrow> char list" where
  "digit_loop n d digits =
     (let digits' = digit_char (unat (n mod 10)) # digits; n' = n div 10; d' = Suc d
      in if n' > 0 \<and> d' < 4 then digit_loop n' d' digits' else digits')"
  by pat_completeness auto
termination
  by (relation "measure (\<lambda>(n, d, digits). 4 - d)") auto

declare digit_loop.simps [simp del]

definition BuildCoreName :: "char list \<Rightarrow> nat \<Rightarrow> ULONG \<Rightarrow> string \<Rightarrow> char list option" where
  "BuildCoreName dst sz idx suffix = do {
     (dst, pos) \<leftarrow> copy_chars (sz - 1) dst 0 ''Core '';
     (dst, pos) \<leftarrow> copy_chars (sz - 1) dst pos (digit_loop idx 0 []);
     (dst, pos) \<leftarrow> (if pos < sz - 1
                  then do { dst \<leftarrow> put_char dst pos (CHR '' ''); Some (dst, Suc pos) }
                  else Some (dst, pos));
     (dst, pos) \<leftarrow> copy_chars (sz - 1) dst pos suffix;
     put_char dst pos NUL
   }"

text \<open>\<open>RtlCopyMemory(data.name, "...", sizeof("..."))\<close>: the literal with its NUL.\<close>

definition copy_literal :: "char list \<Rightarrow> string \<Rightarrow> char list option" where
  "copy_literal dst lit =
     (if Suc (length lit) \<le> length dst then Some (lit @ NUL # drop (Suc (length lit)) dst) else None)"

text \<open>A name in its array: behind it, zeros.\<close>

definition pad_name :: "string \<Rightarrow> char list" where
  "pad_name nm = nm @ replicate (name_size - length nm) NUL"

definition core_name :: "ULONG \<Rightarrow> string \<Rightarrow> string" where
  "core_name idx suffix = ''Core '' @ digit_loop idx 0 [] @ '' '' @ suffix"

lemma copy_chars_fits:
  assumes "NUL \<notin> set cs" and "pos + length cs \<le> bnd" and "bnd < length dst"
  shows "copy_chars bnd dst pos cs = Some (take pos dst @ cs @ drop (pos + length cs) dst, pos + length cs)"
  using assms
proof (induction cs arbitrary: dst pos)
  case (Cons c cs)
  then have "copy_chars bnd (dst[pos := c]) (Suc pos) cs =
      Some (take (Suc pos) (dst[pos := c]) @ cs @ drop (Suc pos + length cs) (dst[pos := c]), Suc pos + length cs)"
    by (intro Cons.IH) auto
  with Cons.prems show ?case
    by (auto simp: put_char_def take_Suc_update)
qed simp

lemma digit_loop_small: "n < 10 \<Longrightarrow> digit_loop n d ds = digit_char (unat n) # ds"
  by (subst digit_loop.simps) (simp add: Let_def unat_mod word_less_nat_alt word_arith_nat_div unat_word_of_nat_small)

lemma digit_loop_step:
  "d < 3 \<Longrightarrow> 10 \<le> n \<Longrightarrow> digit_loop n d ds = digit_loop (n div 10) (Suc d) (digit_char (unat (n mod 10)) # ds)"
  by (subst digit_loop.simps) (auto simp: Let_def word_le_nat_alt word_less_nat_alt unat_div)

text \<open>At most four digits are kept, none of them NUL; up to 9999 they are the decimal numeral.\<close>

lemma digit_loop_last: "digit_loop n 3 ds = digit_char (unat (n mod 10)) # ds"
  by (subst digit_loop.simps) (simp add: Let_def)

lemma length_digit_loop: "d < 4 \<Longrightarrow> length (digit_loop n d ds) \<le> length ds + (4 - d)"
proof (induction n d ds rule: digit_loop.induct)
  case (1 n d ds)
  then show ?case by (subst digit_loop.simps) (force simp: Let_def)
qed

lemma digit_loop_no_NUL: "NUL \<notin> set ds \<Longrightarrow> NUL \<notin> set (digit_loop n d ds)"
proof (induction n d ds rule: digit_loop.induct)
  case (1 n d ds)
  have "NUL \<noteq> digit_char (unat (n mod 10))"
    using digit_char_not_NUL[of "unat (n mod 10)"] by (auto simp: unat_mod)
  with 1 show ?case by (subst digit_loop.simps) (auto simp: Let_def)
qed

lemma digit_loop_show:
  "unat n < 10 ^ (4 - d) \<Longrightarrow> d < 4 \<Longrightarrow> digit_loop n d ds = show_nat (unat n) @ ds"
proof (induction n d ds rule: digit_loop.induct)
  case (1 n d ds)
  show ?case
  proof (cases "n < 10")
    case True
    then show ?thesis by (simp add: digit_loop_small show_nat_small word_less_nat_alt)
  next
    case False
    have "d \<noteq> 3" using False "1.prems"(1) by (auto simp: word_less_nat_alt)
    with "1.prems" have d: "d < 3" by simp
    then have "(10::nat) ^ (4 - d) = 10 * 10 ^ (4 - Suc d)" by (cases "4 - d") auto
    with "1.prems" have "unat (n div 10) < 10 ^ (4 - Suc d)" by (simp add: unat_div)
    with False d have "digit_loop (n div 10) (Suc d) (digit_char (unat (n mod 10)) # ds) =
        show_nat (unat (n div 10)) @ digit_char (unat (n mod 10)) # ds"
      by (intro "1.IH") (auto simp: word_less_nat_alt unat_div)
    with False d show ?thesis
      by (simp add: digit_loop_step word_less_nat_alt word_le_nat_alt show_nat_big unat_div unat_mod)
  qed
qed

text \<open>Writing behind a name keeps the array a padded name.\<close>

lemma pad_name_Nil: "replicate name_size NUL = pad_name []"
  by (simp add: pad_name_def)

lemma length_pad_name: "length nm \<le> name_size \<Longrightarrow> length (pad_name nm) = name_size"
  by (simp add: pad_name_def)

lemma replicate_split: "m < n \<Longrightarrow> replicate (n - m) x = x # replicate (n - Suc m) x"
  by (metis Suc_diff_Suc replicate_Suc)

lemma put_char_pad:
  "length nm < name_size \<Longrightarrow> put_char (pad_name nm) (length nm) c = Some (pad_name (nm @ [c]))"
  by (simp add: put_char_def pad_name_def list_update_append replicate_split)

lemma put_NUL_pad: "length nm < name_size \<Longrightarrow> put_char (pad_name nm) (length nm) NUL = Some (pad_name nm)"
  by (simp add: put_char_def pad_name_def list_update_append replicate_split)

lemma copy_chars_pad:
  assumes "NUL \<notin> set cs" and "length (nm @ cs) < name_size"
  shows "copy_chars (name_size - 1) (pad_name nm) (length nm) cs = Some (pad_name (nm @ cs), length (nm @ cs))"
  using assms by (simp add: copy_chars_fits length_pad_name) (simp add: pad_name_def)

lemma copy_literal_pad:
  "length lit < name_size \<Longrightarrow> copy_literal (replicate name_size NUL) lit = Some (pad_name lit)"
  by (simp add: copy_literal_def pad_name_def replicate_split)

lemma cstr_pad_name: "NUL \<notin> set nm \<Longrightarrow> length nm < name_size \<Longrightarrow> cstr (pad_name nm) = nm"
  by (simp add: pad_name_def replicate_split cstr_append)

lemma BuildCoreName_zeroed:
  assumes "NUL \<notin> set suffix" and "length suffix \<le> 20"
  shows "BuildCoreName (replicate name_size NUL) name_size idx suffix = Some (pad_name (core_name idx suffix))"
proof -
  define ds where "ds = digit_loop idx 0 []"
  have ds: "length ds \<le> 4" "NUL \<notin> set ds"
    unfolding ds_def using length_digit_loop[of 0 idx "[]"] digit_loop_no_NUL[of "[]" idx 0] by auto
  have 1: "copy_chars (name_size - 1) (pad_name []) 0 ''Core '' = Some (pad_name ''Core '', length ''Core '')"
    using copy_chars_pad[of "''Core ''" "[]"] by (simp add: size_simps NUL_def)
  have 2: "copy_chars (name_size - 1) (pad_name ''Core '') (length ''Core '') ds =
      Some (pad_name (''Core '' @ ds), length (''Core '' @ ds))"
    using ds by (intro copy_chars_pad) (auto simp: size_simps)
  have 3: "put_char (pad_name (''Core '' @ ds)) (length (''Core '' @ ds)) (CHR '' '') =
      Some (pad_name ((''Core '' @ ds) @ '' ''))"
    using ds by (intro put_char_pad) (auto simp: size_simps)
  have 4: "copy_chars (name_size - 1) (pad_name ((''Core '' @ ds) @ '' '')) (length ((''Core '' @ ds) @ '' '')) suffix =
      Some (pad_name (((''Core '' @ ds) @ '' '') @ suffix), length (((''Core '' @ ds) @ '' '') @ suffix))"
    using ds assms by (intro copy_chars_pad) (auto simp: size_simps)
  have 5: "put_char (pad_name (((''Core '' @ ds) @ '' '') @ suffix)) (length (((''Core '' @ ds) @ '' '') @ suffix)) NUL
      = Some (pad_name (((''Core '' @ ds) @ '' '') @ suffix))"
    using ds assms by (intro put_NUL_pad) (auto simp: size_simps)
  have lt: "length (''Core '' @ ds) < name_size - 1" and
    sc: "Suc (length (''Core '' @ ds)) = length ((''Core '' @ ds) @ '' '')"
    using ds by (simp_all add: size_simps)
  show ?thesis
    unfolding BuildCoreName_def core_name_def ds_def[symmetric] pad_name_Nil
    by (simp only: 1 2 3 4 5 lt sc if_True option.simps bind.bind_lunit prod.case append_assoc[symmetric])
qed

text \<open>
  How every metric function starts: \<open>RtlZeroMemory(&data, sizeof(CPU_DATA))\<close>, then the identifying
  fields and the name; a metric of the whole package has \<open>cpu_id = 0xFFFF\<close> and a fixed name.
\<close>

definition core_entry :: "ULONG \<Rightarrow> METRIC_TYPE \<Rightarrow> METRIC_UNIT \<Rightarrow> string \<Rightarrow> CPU_DATA option" where
  "core_entry idx ty un suffix = do {
     nm \<leftarrow> BuildCoreName (data_name zero_data) name_size idx suffix;
     Some (zero_data\<lparr>cpu_id := ucast idx, data_type := type_code ty, data_unit := unit_code un, data_name := nm\<rparr>)
   }"

definition package_entry :: "METRIC_TYPE \<Rightarrow> METRIC_UNIT \<Rightarrow> string \<Rightarrow> CPU_DATA option" where
  "package_entry ty un lit = do {
     nm \<leftarrow> copy_literal (data_name zero_data) lit;
     Some (zero_data\<lparr>cpu_id := 0xFFFF, data_type := type_code ty, data_unit := unit_code un, data_name := nm\<rparr>)
   }"

type_synonym tag = "char list \<times> USHORT \<times> USHORT \<times> USHORT"

definition core_tag :: "METRIC_TYPE \<Rightarrow> METRIC_UNIT \<Rightarrow> string \<Rightarrow> ULONG \<Rightarrow> tag" where
  "core_tag ty un suffix idx = (pad_name (core_name idx suffix), type_code ty, unit_code un, ucast idx)"

definition package_tag :: "METRIC_TYPE \<Rightarrow> METRIC_UNIT \<Rightarrow> string \<Rightarrow> tag" where
  "package_tag ty un lit = (pad_name lit, type_code ty, unit_code un, 0xFFFF)"

definition with_tag :: "tag \<Rightarrow> CPU_DATA" where
  "with_tag t = (case t of (nm, ty, un, i) \<Rightarrow>
     \<lparr>data_value = 0, data_name = nm, data_type = ty, data_unit = un, cpu_id = i\<rparr>)"

lemma core_entry_eq:
  "NUL \<notin> set suffix \<Longrightarrow> length suffix \<le> 20 \<Longrightarrow>
     core_entry idx ty un suffix = Some (with_tag (core_tag ty un suffix idx))"
  by (simp add: core_entry_def zero_data_def BuildCoreName_zeroed with_tag_def core_tag_def)

lemma core_entries:
  "core_entry idx ty un ''Clock'' = Some (with_tag (core_tag ty un ''Clock'' idx))"
  "core_entry idx ty un ''Load'' = Some (with_tag (core_tag ty un ''Load'' idx))"
  "core_entry idx ty un ''Power'' = Some (with_tag (core_tag ty un ''Power'' idx))"
  "core_entry idx ty un ''Temp'' = Some (with_tag (core_tag ty un ''Temp'' idx))"
  "core_entry idx ty un ''VID'' = Some (with_tag (core_tag ty un ''VID'' idx))"
  by (simp_all add: core_entry_eq NUL_def)

lemma package_entry_eq:
  "length lit < name_size \<Longrightarrow> package_entry ty un lit = Some (with_tag (package_tag ty un lit))"
  by (simp add: package_entry_def zero_data_def copy_literal_pad with_tag_def package_tag_def)

section \<open>Reading a sequence of metrics\<close>

text \<open>
  A reader computes one \<open>CPU_DATA\<close>. \<open>collect\<close> is the pattern the \<open>ReadPerCore...\<close> and
  \<open>Read...Aggregate...\<close> functions repeat: read a metric, try to add it, return \<open>FALSE\<close> where it
  does not fit, else \<open>(*buffer_idx)++\<close>. The result is the returned \<open>BOOLEAN\<close>, the buffer and the index.
\<close>

type_synonym 's metric_reader = "'s \<Rightarrow> (CPU_DATA \<times> 's) option"
type_synonym 's metric_filler =
  "out_buffer \<Rightarrow> ULONG \<Rightarrow> USHORT \<Rightarrow> 's \<Rightarrow> ((bool \<times> out_buffer \<times> USHORT) \<times> 's) option"

fun collect :: "'s metric_reader list \<Rightarrow> 's metric_filler" where
  "collect [] buffer cap idx s = Some ((True, buffer, idx), s)"
| "collect (rd # rds) buffer cap idx s = do {
     (data, s) \<leftarrow> rd s;
     (ok, buffer) \<leftarrow> tryAddTelemetryData buffer cap data idx;
     if ok then collect rds buffer cap (idx + 1) s else Some ((False, buffer, idx), s)
   }"

text \<open>\<open>f; if (!ok) return FALSE; g\<close>\<close>

definition and_then :: "'s metric_filler \<Rightarrow> 's metric_filler \<Rightarrow> 's metric_filler" where
  "and_then f g buffer cap idx s = do {
     ((ok, buffer, idx), s) \<leftarrow> f buffer cap idx s;
     if ok then g buffer cap idx s else Some ((False, buffer, idx), s)
   }"

text \<open>What identifies a metric for the client: everything of the entry but its value.\<close>

definition tag_of :: "CPU_DATA \<Rightarrow> tag" where
  "tag_of d = (data_name d, data_type d, data_unit d, cpu_id d)"

lemma tag_of_with_tag [simp]: "tag_of (with_tag t) = t" "tag_of (d\<lparr>data_value := v\<rparr>) = tag_of d"
  "data_value (with_tag t) = 0"
  by (simp_all add: tag_of_def with_tag_def split: prod.splits)

definition entry_tags :: "out_buffer \<Rightarrow> USHORT \<Rightarrow> tag list" where
  "entry_tags b idx = map tag_of (take (unat idx) (slots b))"

text \<open>
  \<open>reads Q lg t rd\<close>: from a state with \<open>Q\<close>, the reader does not fault, keeps \<open>Q\<close> and the
  projection \<open>lg\<close> of the state, and its entry has the tag \<open>t\<close>. \<open>fills Q lg ts f\<close>: a
  filler stays inside the buffer, keeps \<open>Q\<close> and \<open>lg\<close>; when it reports success it has added one
  entry for each of \<open>ts\<close>, in order, behind the entries there were; and it succeeds where the
  capacity suffices.
\<close>

definition reads :: "('s \<Rightarrow> bool) \<Rightarrow> ('s \<Rightarrow> 'l) \<Rightarrow> tag \<Rightarrow> 's metric_reader \<Rightarrow> bool" where
  "reads Q lg t rd \<longleftrightarrow> (\<forall>s. Q s \<longrightarrow> (\<exists>d s'. rd s = Some (d, s') \<and> Q s' \<and> lg s' = lg s \<and> tag_of d = t))"

definition filled ::
  "ULONGLONG \<Rightarrow> ULONG \<Rightarrow> out_buffer \<Rightarrow> USHORT \<Rightarrow> tag list \<Rightarrow> bool \<Rightarrow> out_buffer \<Rightarrow> USHORT \<Rightarrow> bool" where
  "filled bytes cap b idx ts ok b' idx' \<longleftrightarrow>
     buffer_of_size bytes b' \<and>
     (unat idx \<le> slot_capacity bytes \<longrightarrow> unat idx' \<le> slot_capacity bytes) \<and>
     (unat idx + length ts < 2 ^ 16 \<and> unat idx \<le> slot_capacity bytes \<longrightarrow>
        (ok \<longrightarrow> unat idx' = unat idx + length ts \<and>
           header b' = header b \<and> entry_tags b' idx' = entry_tags b idx @ ts) \<and>
        (header_size + (unat idx + length ts) * entry_size \<le> unat cap \<longrightarrow> ok))"

definition fills :: "('s \<Rightarrow> bool) \<Rightarrow> ('s \<Rightarrow> 'l) \<Rightarrow> tag list \<Rightarrow> 's metric_filler \<Rightarrow> bool" where
  "fills Q lg ts f \<longleftrightarrow> (\<forall>bytes b cap idx s.
     Q s \<and> buffer_of_size bytes b \<and> unat cap \<le> unat bytes \<longrightarrow>
     (\<exists>ok b' idx' s'. f b cap idx s = Some ((ok, b', idx'), s') \<and> Q s' \<and> lg s' = lg s \<and>
        filled bytes cap b idx ts ok b' idx'))"

lemma unat_Suc: "unat (i :: USHORT) + 1 < 2 ^ 16 \<Longrightarrow> unat (i + 1) = Suc (unat i)"
  by (simp add: unat_word_ariths)

lemma tryAdd_cases:
  assumes "buffer_of_size bytes b" and "unat cap \<le> unat bytes"
  obtains (full) b' where "tryAddTelemetryData b cap d i = Some (False, b')" "buffer_of_size bytes b'"
      "unat cap < header_size + (unat i + 1) * entry_size"
  | (stored) b' where "tryAddTelemetryData b cap d i = Some (True, b')" "buffer_of_size bytes b'"
      "header b' = header b" "unat i < slot_capacity bytes"
      "take (Suc (unat i)) (slots b') = take (unat i) (slots b) @ [d]"
proof (cases "unat cap < header_size + (unat i + 1) * entry_size")
  case True
  then have "cap < bytes_for (ucast i + 1)" by (simp add: word_less_nat_alt bytes_for_idx)
  then have "tryAddTelemetryData b cap d i =
      Some (False, b\<lparr>header := (header b)\<lparr>required_size := bytes_for (ucast i + 1)\<rparr>\<rparr>)"
    by (simp add: tryAddTelemetryData_def)
  then show ?thesis
    using True assms(1) by (elim full) (simp_all add: buffer_of_size_def)
next
  case False
  with assms have "unat i < slot_capacity bytes" by (simp add: slot_capacity_def size_simps)
  with assms False show ?thesis
    by (intro stored[of "b\<lparr>slots := (slots b)[unat i := d]\<rparr>"])
       (simp_all add: tryAdd_stores buffer_of_size_def store_at_end)
qed

lemma fillsE:
  assumes "fills Q lg ts f" "Q s" "buffer_of_size bytes b" "unat cap \<le> unat bytes"
  obtains ok b' idx' s' where "f b cap idx s = Some ((ok, b', idx'), s')" "Q s'" "lg s' = lg s"
    "buffer_of_size bytes b'" "filled bytes cap b idx ts ok b' idx'"
  using assms unfolding fills_def filled_def by blast

lemma fillsI:
  assumes "\<And>bytes b cap idx s. Q s \<Longrightarrow> buffer_of_size bytes b \<Longrightarrow> unat (cap :: ULONG) \<le> unat bytes \<Longrightarrow>
     (\<exists>ok b' idx' s'. f b cap idx s = Some ((ok, b', idx'), s') \<and> Q s' \<and> lg s' = lg s \<and>
        filled bytes cap b idx ts ok b' idx')"
  shows "fills Q lg ts f"
  using assms unfolding fills_def by blast

lemma readsE:
  assumes "reads Q lg t rd" "Q s"
  obtains d s' where "rd s = Some (d, s')" "Q s'" "lg s' = lg s" "tag_of d = t"
  using assms unfolding reads_def by blast

lemma fills_Nil: "fills Q lg [] (collect [])"
  by (auto simp: fills_def filled_def)

text \<open>How one stored entry and two fillers in sequence compose.\<close>

lemma filled_Cons:
  assumes "buffer_of_size bytes b1" "header b1 = header b" "unat idx < slot_capacity bytes"
    and "take (Suc (unat idx)) (slots b1) = take (unat idx) (slots b) @ [d]"
    and "filled bytes cap b1 (idx + 1) ts ok b2 idx2"
  shows "filled bytes cap b idx (tag_of d # ts) ok b2 idx2"
proof -
  have "unat (idx + 1) \<le> Suc (unat idx)" by (simp add: unat_word_ariths)
  with assms unat_Suc[of idx] show ?thesis by (auto simp: filled_def entry_tags_def)
qed

lemma filled_append:
  assumes "filled bytes cap b idx ts True b1 idx1" and "filled bytes cap b1 idx1 us ok b2 idx2"
  shows "filled bytes cap b idx (ts @ us) ok b2 idx2"
  using assms by (auto simp: filled_def add.assoc)

lemma filled_stop:
  "filled bytes cap b idx ts False b1 idx1 \<Longrightarrow> filled bytes cap b idx (ts @ us) False b1 idx1"
  by (auto simp: filled_def size_simps)

lemma fills_Cons:
  assumes rd: "reads Q lg t rd" and rest: "fills Q lg ts (collect rds)"
  shows "fills Q lg (t # ts) (collect (rd # rds))"
proof (rule fillsI)
  fix bytes b cap idx s
  assume Q: "Q s" and b: "buffer_of_size bytes b" "unat (cap :: ULONG) \<le> unat bytes"
  from rd Q obtain d s1 where r: "rd s = Some (d, s1)" "Q s1" "lg s1 = lg s" "tag_of d = t"
    by (rule readsE)
  from b show "\<exists>ok b' idx' s'. collect (rd # rds) b cap idx s = Some ((ok, b', idx'), s') \<and> Q s' \<and>
      lg s' = lg s \<and> filled bytes cap b idx (t # ts) ok b' idx'"
  proof (cases rule: tryAdd_cases[where d = d and i = idx])
    case (full b')
    then show ?thesis using r by (auto simp: size_simps filled_def)
  next
    case (stored b1)
    from rest r(2) stored(2) b(2) obtain ok b2 idx2 s2 where
      "collect rds b1 cap (idx + 1) s1 = Some ((ok, b2, idx2), s2)" "Q s2" "lg s2 = lg s1"
      "filled bytes cap b1 (idx + 1) ts ok b2 idx2"
      by (rule fillsE)
    moreover from this stored have "filled bytes cap b idx (tag_of d # ts) ok b2 idx2"
      by (intro filled_Cons)
    ultimately show ?thesis using r stored(1) by auto
  qed
qed

lemma fills_collect:
  "list_all2 (reads Q lg) ts rds \<Longrightarrow> fills Q lg ts (collect rds)"
proof (induction ts rds rule: list_all2_induct)
  case Nil
  show ?case by (rule fills_Nil)
next
  case (Cons t ts rd rds)
  from Cons.hyps(1) Cons.IH show ?case by (rule fills_Cons)
qed

lemma fills_and_then:
  assumes f: "fills Q lg ts f" and g: "fills Q lg us g"
  shows "fills Q lg (ts @ us) (and_then f g)"
proof (rule fillsI)
  fix bytes b cap idx s
  assume Q: "Q s" and b: "buffer_of_size bytes b" "unat (cap :: ULONG) \<le> unat bytes"
  from f Q b obtain ok b1 idx1 s1 where
    1: "f b cap idx s = Some ((ok, b1, idx1), s1)" "Q s1" "lg s1 = lg s" "buffer_of_size bytes b1"
      "filled bytes cap b idx ts ok b1 idx1"
    by (rule fillsE)
  from g 1(2,4) b(2) obtain ok2 b2 idx2 s2 where
    2: "g b1 cap idx1 s1 = Some ((ok2, b2, idx2), s2)" "Q s2" "lg s2 = lg s1"
      "filled bytes cap b1 idx1 us ok2 b2 idx2"
    by (rule fillsE)
  show "\<exists>ok b' idx' s'. and_then f g b cap idx s = Some ((ok, b', idx'), s') \<and> Q s' \<and> lg s' = lg s \<and>
      filled bytes cap b idx (ts @ us) ok b' idx'"
  proof (cases ok)
    case True
    with 1 2 show ?thesis by (auto simp: and_then_def intro: filled_append)
  next
    case False
    with 1 show ?thesis by (auto simp: and_then_def intro: filled_stop)
  qed
qed

end
