(* ===== verification/Ioctl_Handler.thy ===== *)
theory Ioctl_Handler
  imports Metric_Buffer "HOL-Library.Sublist"
begin

text \<open>
  The body of \<open>EvtIoDeviceControl\<close>, which the AMD and the Intel driver share up to their vendor,
  their metric counts and their two collecting functions: these are the fields of a record
  \<open>metric_dev\<close>. The locale \<open>metric_source\<close> states what a driver's collecting functions promise
  and derives from it that the handler stays inside its buffer, which answers it gives, and what
  the buffer holds then; each driver's theory interprets it on its own functions.
\<close>

section \<open>The handler\<close>

text \<open>
  \<open>WdfRequestComplete\<close> leaves the request's information (the bytes to copy back) at 0,
  \<open>WdfRequestCompleteWithInformation\<close> sets it.
\<close>

datatype completion = Complete NTSTATUS | CompleteWithInformation NTSTATUS ULONGLONG

fun completion_status :: "completion \<Rightarrow> NTSTATUS" where
  "completion_status (Complete st) = st"
| "completion_status (CompleteWithInformation st n) = st"

fun completion_bytes :: "completion \<Rightarrow> ULONGLONG" where
  "completion_bytes (Complete st) = 0"
| "completion_bytes (CompleteWithInformation st n) = n"

record ('w, 'm) metric_dev =
  dev_vendor :: CPU_VENDOR
  METRICS_PER_CORE :: ULONG
  METRICS_AGGREGATE :: ULONG
  read_core :: "ULONG \<Rightarrow> ('w, 'm) kst_scheme metric_filler"
  read_aggregate :: "('w, 'm) kst_scheme metric_filler"

text \<open>
  The affinity of a processor: \<open>1ULL << Number\<close>, where the x64 shift takes its count modulo 64.
\<close>

definition affinity_of :: "PROCESSOR_NUMBER \<Rightarrow> GROUP_AFFINITY" where
  "affinity_of pn = \<lparr>ga_Mask = push_bit (unat (pn_Number pn) mod 64) 1, ga_Group = pn_Group pn\<rparr>"

text \<open>
  The loop over the processors, from the list of the indices that are left:
  \<open>for (ULONG i = 0; i < total_procs && buf_ok; i++)\<close>. \<open>saved\<close> is \<open>old_affinity\<close> once
  \<open>affinity_saved\<close> is set: only the first \<open>KeSetSystemGroupAffinityThread\<close> stores it.
\<close>

fun core_loop ::
  "'w kernel \<Rightarrow> ('w, 'm) metric_dev \<Rightarrow> ULONG list \<Rightarrow> out_buffer \<Rightarrow> ULONG \<Rightarrow> USHORT \<Rightarrow> GROUP_AFFINITY option
     \<Rightarrow> ('w, 'm) kst_scheme
     \<Rightarrow> ((bool \<times> out_buffer \<times> USHORT \<times> GROUP_AFFINITY option) \<times> ('w, 'm) kst_scheme) option" where
  "core_loop K D [] buffer cap idx saved s = Some ((True, buffer, idx, saved), s)"
| "core_loop K D (i # is) buffer cap idx saved s =
     (case k_proc_number K (world s) i of
        None \<Rightarrow> core_loop K D is buffer cap idx saved s
      | Some pn \<Rightarrow> do {
          (prev, s) \<leftarrow> set_affinity K (affinity_of pn) s;
          let saved = (case saved of None \<Rightarrow> Some prev | Some old \<Rightarrow> Some old);
          ((ok, buffer, idx), s) \<leftarrow> read_core D i buffer cap idx s;
          if ok then core_loop K D is buffer cap idx saved s
          else Some ((False, buffer, idx, saved), s)
        })"

definition proc_indices :: "ULONG \<Rightarrow> ULONG list" where
  "proc_indices n = map word_of_nat [0..<unat n]"

definition set_header :: "(CPU_DATA_HEADER \<Rightarrow> CPU_DATA_HEADER) \<Rightarrow> out_buffer \<Rightarrow> out_buffer" where
  "set_header f b = b\<lparr>header := f (header b)\<rparr>"

text \<open>The last lines of the handler: the entry count and the bytes written, or how much is missing.\<close>

definition finish ::
  "('w, 'm) metric_dev \<Rightarrow> bool \<Rightarrow> out_buffer \<Rightarrow> USHORT \<Rightarrow> completion \<times> out_buffer" where
  "finish D buf_ok outbuffer buf_idx =
     (if \<not> buf_ok
      then (CompleteWithInformation STATUS_BUFFER_OVERFLOW (word_of_nat header_size),
            set_header (required_size_update (\<lambda>_. bytes_for
              (ucast buf_idx + ucast (METRICS_PER_CORE D) + ucast (METRICS_AGGREGATE D)))) outbuffer)
      else (CompleteWithInformation STATUS_SUCCESS (ucast (bytes_for (ucast buf_idx))),
            set_header (entry_count_update (\<lambda>_. ucast buf_idx)) outbuffer))"

text \<open>The part behind the size and vendor checks: collect everything, complete the request.\<close>

definition collect_and_complete ::
  "'w kernel \<Rightarrow> ('w, 'm) metric_dev \<Rightarrow> ULONGLONG \<Rightarrow> ULONG \<Rightarrow> out_buffer \<Rightarrow> ('w, 'm) kst_scheme
     \<Rightarrow> ((completion \<times> out_buffer) \<times> ('w, 'm) kst_scheme) option" where
  "collect_and_complete K D OutputBufferLength total_procs outbuffer s = do {
     ((buf_ok, outbuffer, buf_idx, saved), s) \<leftarrow>
       core_loop K D (proc_indices total_procs) outbuffer (ucast OutputBufferLength) 0 None s;
     let s = (case saved of None \<Rightarrow> s | Some old_affinity \<Rightarrow> revert_affinity K old_affinity s);
     ((buf_ok, outbuffer, buf_idx), s) \<leftarrow>
       (if buf_ok then read_aggregate D outbuffer (ucast OutputBufferLength) buf_idx s
        else Some ((buf_ok, outbuffer, buf_idx), s));
     Some (finish D buf_ok outbuffer buf_idx, s)
   }"

definition total_entries :: "('w, 'm) metric_dev \<Rightarrow> ULONG \<Rightarrow> ULONG" where
  "total_entries D total_procs = METRICS_PER_CORE D * total_procs + METRICS_AGGREGATE D"

definition ioctl_handler ::
  "'w kernel \<Rightarrow> ('w, 'm) metric_dev \<Rightarrow> ULONGLONG \<Rightarrow> ULONG \<Rightarrow> out_buffer \<Rightarrow> ('w, 'm) kst_scheme
     \<Rightarrow> ((completion \<times> out_buffer) \<times> ('w, 'm) kst_scheme) option" where
  "ioctl_handler K D OutputBufferLength IoControlCode outbuffer s =
     (if IoControlCode \<noteq> IOCTL_GET_DATA
      then Some ((Complete STATUS_INVALID_DEVICE_REQUEST, outbuffer), s)
      else let total_procs = k_active_procs K (world s);
               required = bytes_for (ucast (total_entries D total_procs)) in
      if OutputBufferLength < word_of_nat header_size
      then Some ((CompleteWithInformation STATUS_BUFFER_TOO_SMALL 0, outbuffer), s)
      else case k_retrieve_output K (word_of_nat header_size) OutputBufferLength (world s) of (status, w) \<Rightarrow>
      let s = s\<lparr>world := w\<rparr> in
      if \<not> NT_SUCCESS status then Some ((Complete status, outbuffer), s)
      else let outbuffer = set_header (\<lambda>_. \<lparr>required_size = required, processor_count = total_procs,
                                            entry_count = 0\<rparr>) outbuffer in
      if OutputBufferLength < ucast required
      then Some ((CompleteWithInformation STATUS_BUFFER_OVERFLOW (word_of_nat header_size), outbuffer), s)
      else if DetectCpuVendor (cpuid K s) \<noteq> dev_vendor D
      then Some ((Complete STATUS_INVALID_DEVICE_REQUEST, outbuffer), s)
      else collect_and_complete K D OutputBufferLength total_procs outbuffer s)"

text \<open>The processors are numbered \<open>0\<close> to \<open>n - 1\<close>.\<close>

lemma length_proc_indices: "length (proc_indices n) = unat n"
  by (simp add: proc_indices_def)

section \<open>What a driver's metrics have to satisfy\<close>

text \<open>The calls one request makes: affinities set, then the one the first of them replaced restored.\<close>

definition restoring :: "affinity_call list \<Rightarrow> bool" where
  "restoring cs \<longleftrightarrow> cs = [] \<or>
     (\<exists>new old later. cs = SetAffinity new old # map (\<lambda>(a, p). SetAffinity a p) later @ [RevertAffinity old])"

text \<open>The calls \<open>cs\<close> of the loop set affinities; the first of them fills \<open>saved\<close>.\<close>

fun sets_from :: "GROUP_AFFINITY option \<Rightarrow> GROUP_AFFINITY option \<Rightarrow> affinity_call list \<Rightarrow> bool" where
  "sets_from saved saved' [] \<longleftrightarrow> saved' = saved"
| "sets_from saved saved' (SetAffinity a p # cs) \<longleftrightarrow>
     sets_from (Some (case saved of None \<Rightarrow> p | Some old \<Rightarrow> old)) saved' cs"
| "sets_from saved saved' (RevertAffinity a # cs) \<longleftrightarrow> False"

lemma sets_from_Some:
  "sets_from (Some old) saved' cs \<Longrightarrow> saved' = Some old \<and> (\<exists>as. cs = map (\<lambda>(a, p). SetAffinity a p) as)"
proof (induction "Some old" saved' cs rule: sets_from.induct)
  case (2 saved' a p cs)
  then obtain as where "saved' = Some old" "cs = map (\<lambda>(a, p). SetAffinity a p) as" by auto
  then have "SetAffinity a p # cs = map (\<lambda>(a, p). SetAffinity a p) ((a, p) # as)" by simp
  with \<open>saved' = Some old\<close> show ?case by metis
qed auto

lemma restoring_loop:
  assumes "sets_from None saved' cs"
  shows "restoring (case saved' of None \<Rightarrow> cs | Some old \<Rightarrow> cs @ [RevertAffinity old])"
proof (cases cs)
  case Nil
  with assms show ?thesis by (simp add: restoring_def)
next
  case (Cons c rest)
  with assms obtain a p where c: "c = SetAffinity a p" "sets_from (Some p) saved' rest"
    by (cases c) auto
  from sets_from_Some[OF c(2)] obtain as where "saved' = Some p" "rest = map (\<lambda>(a, p). SetAffinity a p) as"
    by blast
  with Cons c show ?thesis by (auto simp: restoring_def)
qed

text \<open>
  What the loop has done: the calls it logged; the indices \<open>js\<close> it read, all where the kernel knows
  every index; and their metrics, added in this order.
\<close>

definition looped ::
  "(ULONG \<Rightarrow> tag list) \<Rightarrow> (ULONG \<Rightarrow> bool) \<Rightarrow> ULONG list \<Rightarrow> ULONGLONG \<Rightarrow> ULONG \<Rightarrow> out_buffer \<Rightarrow> USHORT
     \<Rightarrow> GROUP_AFFINITY option \<Rightarrow> affinity_call list \<Rightarrow> bool \<Rightarrow> out_buffer \<Rightarrow> USHORT \<Rightarrow> GROUP_AFFINITY option
     \<Rightarrow> affinity_call list \<Rightarrow> bool" where
  "looped tags known is bytes cap b idx saved l ok b' idx' saved' l' \<longleftrightarrow>
     (\<exists>js cs. l' = l @ cs \<and> sets_from saved saved' cs \<and> subseq js is \<and>
        filled bytes cap b idx (concat (map tags js)) ok b' idx' \<and>
        (ok \<and> (\<forall>i \<in> set is. known i) \<longrightarrow> js = is))"

lemma looped_Nil: "buffer_of_size bytes b \<Longrightarrow> looped tags known [] bytes cap b idx saved l True b idx saved l"
  by (simp add: looped_def filled_def)

lemma looped_skip:
  assumes "looped tags known is bytes cap b idx saved l ok b' idx' saved' l'" and "\<not> known i"
  shows "looped tags known (i # is) bytes cap b idx saved l ok b' idx' saved' l'"
proof -
  from assms(1) obtain js cs where "l' = l @ cs" "sets_from saved saved' cs" "subseq js is"
    "filled bytes cap b idx (concat (map tags js)) ok b' idx'"
    by (auto simp: looped_def)
  with assms(2) show ?thesis
    unfolding looped_def by (intro exI[of _ js] exI[of _ cs]) (auto intro: subseq_Cons')
qed

lemma looped_stop:
  assumes "filled bytes cap b idx (tags i) False b' idx'"
  shows "looped tags known (i # is) bytes cap b idx saved l False b' idx'
    (Some (case saved of None \<Rightarrow> p | Some old \<Rightarrow> old)) (l @ [SetAffinity a p])"
  using assms unfolding looped_def
  by (intro exI[of _ "[i]"] exI[of _ "[SetAffinity a p]"]) auto

lemma looped_Cons:
  assumes "filled bytes cap b idx (tags i) True b1 idx1"
    and "looped tags known is bytes cap b1 idx1 (Some (case saved of None \<Rightarrow> p | Some old \<Rightarrow> old))
      (l @ [SetAffinity a p]) ok b' idx' saved' l'"
  shows "looped tags known (i # is) bytes cap b idx saved l ok b' idx' saved' l'"
proof -
  from assms(2) obtain js cs where
    "l' = (l @ [SetAffinity a p]) @ cs" "subseq js is"
    "sets_from (Some (case saved of None \<Rightarrow> p | Some old \<Rightarrow> old)) saved' cs"
    "filled bytes cap b1 idx1 (concat (map tags js)) ok b' idx'"
    "ok \<and> (\<forall>i \<in> set is. known i) \<longrightarrow> js = is"
    unfolding looped_def by blast
  moreover from this assms(1) have "filled bytes cap b idx (tags i @ concat (map tags js)) ok b' idx'"
    by (auto intro: filled_append)
  ultimately show ?thesis
    unfolding looped_def by (intro exI[of _ "i # js"] exI[of _ "SetAffinity a p # cs"]) auto
qed

locale metric_source =
  fixes K :: "'w kernel"
    and D :: "('w, 'm) metric_dev"
    and Q :: "('w, 'm) kst_scheme \<Rightarrow> bool"
    and core_tags :: "ULONG \<Rightarrow> tag list"
    and agg_tags :: "tag list"
  assumes core_fills: "fills Q aff_log (core_tags i) (read_core D i)"
    and agg_fills: "fills Q aff_log agg_tags (read_aggregate D)"
    and Q_env: "Q (s\<lparr>world := w, aff_log := l\<rparr>) \<longleftrightarrow> Q s"
    and core_count: "length (core_tags i) = unat (METRICS_PER_CORE D)"
    and agg_count: "length agg_tags \<le> unat (METRICS_AGGREGATE D)"
begin

lemma Q_world: "Q (s\<lparr>world := w\<rparr>) \<longleftrightarrow> Q s"
  using Q_env[where s = s and w = w and l = "aff_log s"] by simp

lemma Q_revert: "Q (revert_affinity K a s) \<longleftrightarrow> Q s"
  by (simp add: revert_affinity_def Q_env)

definition known :: "ULONG \<Rightarrow> bool" where
  "known i \<longleftrightarrow> (\<forall>w. k_proc_number K w i \<noteq> None)"

lemma core_loop_fills:
  assumes "Q s" and "buffer_of_size bytes b" and "unat (cap :: ULONG) \<le> unat bytes"
  shows "\<exists>ok b' idx' saved' s'. core_loop K D is b cap idx saved s = Some ((ok, b', idx', saved'), s') \<and>
     Q s' \<and> looped core_tags known is bytes cap b idx saved (aff_log s) ok b' idx' saved' (aff_log s')"
  using assms
proof (induction "is" arbitrary: b idx saved s)
  case Nil
  then show ?case using looped_Nil by auto
next
  case (Cons i "is")
  show ?case
  proof (cases "k_proc_number K (world s) i")
    case None
    then have "\<not> known i" by (auto simp: known_def)
    with Cons.IH[OF Cons.prems, of idx saved] None show ?thesis
      by (auto intro: looped_skip)
  next
    case (Some pn)
    let ?a = "affinity_of pn"
    obtain p w where sa: "set_affinity K ?a s =
        Some (p, s\<lparr>world := w, aff_log := aff_log s @ [SetAffinity ?a p]\<rparr>)"
      using set_affinity_total[of K ?a s] by blast
    let ?s1 = "s\<lparr>world := w, aff_log := aff_log s @ [SetAffinity ?a p]\<rparr>"
    let ?saved = "Some (case saved of None \<Rightarrow> p | Some old \<Rightarrow> old)"
    have "Q ?s1" using Cons.prems(1) by (simp add: Q_env)
    then obtain ok1 b1 idx1 s2 where
      r: "read_core D i b cap idx ?s1 = Some ((ok1, b1, idx1), s2)" "Q s2" "aff_log s2 = aff_log ?s1"
        "buffer_of_size bytes b1" "filled bytes cap b idx (core_tags i) ok1 b1 idx1"
      using core_fills[of i] Cons.prems(2,3) by (elim fillsE)
    have saved: "(case saved of None \<Rightarrow> Some p | Some x \<Rightarrow> Some x) = ?saved"
      by (simp split: option.splits)
    show ?thesis
    proof (cases ok1)
      case False
      with r sa Some saved show ?thesis by (auto intro: looped_stop)
    next
      case True
      with Cons.IH[OF r(2,4) Cons.prems(3), of idx1 ?saved] r sa Some saved show ?thesis
        by (auto intro: looped_Cons)
    qed
  qed
qed

text \<open>
  From here on \<open>n\<close> is the number of processors and \<open>N = METRICS_PER_CORE * n + METRICS_AGGREGATE\<close>
  the number of entries the handler announces.
\<close>

definition announced :: "ULONG \<Rightarrow> nat" where
  "announced n = unat (METRICS_PER_CORE D) * unat n + unat (METRICS_AGGREGATE D)"

lemma total_entries_exact:
  assumes "announced n < 2 ^ 16"
  shows "unat (bytes_for (ucast (total_entries D n))) = header_size + announced n * entry_size"
proof -
  have "unat (total_entries D n) = announced n"
    using assms by (simp add: total_entries_def announced_def unat_word_ariths)
  then have "(ucast (total_entries D n) :: ULONGLONG) = word_of_nat (announced n)"
    using assms by (simp add: word_unat_eq_iff unat_ucast_small unat_of_nat)
  with assms show ?thesis by (simp add: unat_bytes_for)
qed

lemma length_concat_tags: "length (concat (map core_tags js)) = unat (METRICS_PER_CORE D) * length js"
  by (induction js) (simp_all add: core_count algebra_simps)

text \<open>
  The collecting part never faults and restores the affinity; its buffer holds the metrics of the
  processors \<open>js\<close> it reached and, on success, the aggregate ones behind them.
\<close>

lemma collect_and_complete_cases:
  assumes "Q s" and "buffer_of_size L b"
  obtains ok b2 idx s' cs js where
    "collect_and_complete K D L n b s = Some (finish D ok b2 idx, s')" "Q s'"
    "aff_log s' = aff_log s @ cs" "restoring cs" "subseq js (proc_indices n)"
    "filled L (ucast L) b 0 (concat (map core_tags js) @ agg_tags) ok b2 idx"
    "ok \<and> (\<forall>i \<in> set (proc_indices n). known i) \<longrightarrow> js = proc_indices n"
proof -
  have cap: "unat (ucast L :: ULONG) \<le> unat L"
    by (simp add: unsigned_ucast_eq take_bit_eq_mod)
  from core_loop_fills[OF assms cap, of "proc_indices n" 0 None]
  obtain ok b1 idx1 saved s1 where
    l: "core_loop K D (proc_indices n) b (ucast L) 0 None s = Some ((ok, b1, idx1, saved), s1)" "Q s1"
    and lp: "looped core_tags known (proc_indices n) L (ucast L) b 0 None (aff_log s) ok b1 idx1 saved (aff_log s1)"
    by blast
  from lp obtain js cs where cs: "aff_log s1 = aff_log s @ cs" "sets_from None saved cs"
    and js: "subseq js (proc_indices n)" "ok \<and> (\<forall>i \<in> set (proc_indices n). known i) \<longrightarrow> js = proc_indices n"
    and f1: "filled L (ucast L) b 0 (concat (map core_tags js)) ok b1 idx1"
    unfolding looped_def by blast
  define s2 where "s2 = (case saved of None \<Rightarrow> s1 | Some old \<Rightarrow> revert_affinity K old s1)"
  let ?cs = "case saved of None \<Rightarrow> cs | Some old \<Rightarrow> cs @ [RevertAffinity old]"
  have s2: "Q s2" "aff_log s2 = aff_log s @ ?cs"
    using l(2) cs(1)
    by (simp_all add: s2_def Q_revert split: option.splits) (simp add: revert_affinity_def)
  have b1: "buffer_of_size L b1" using f1 by (simp add: filled_def)
  note restoring = restoring_loop[OF cs(2)]
  show ?thesis
  proof (cases ok)
    case True
    from agg_fills s2(1) b1 cap obtain ok2 b2 idx2 s3 where
      a: "read_aggregate D b1 (ucast L) idx1 s2 = Some ((ok2, b2, idx2), s3)" "Q s3" "aff_log s3 = aff_log s2"
        "filled L (ucast L) b1 idx1 agg_tags ok2 b2 idx2"
      by (rule fillsE)
    from l a True have "collect_and_complete K D L n b s = Some (finish D ok2 b2 idx2, s3)"
      by (simp add: collect_and_complete_def s2_def[symmetric])
    moreover have "filled L (ucast L) b 0 (concat (map core_tags js) @ agg_tags) ok2 b2 idx2"
      using f1 a(4) True by (auto intro: filled_append)
    ultimately show ?thesis using that a(2,3) s2(2) restoring js True by auto
  next
    case False
    with l have "collect_and_complete K D L n b s = Some (finish D False b1 idx1, s2)"
      by (simp add: collect_and_complete_def s2_def[symmetric])
    moreover have "filled L (ucast L) b 0 (concat (map core_tags js) @ agg_tags) False b1 idx1"
      using f1 False by (auto intro: filled_stop)
    ultimately show ?thesis using that s2 restoring js by auto
  qed
qed

lemma finish_bytes:
  assumes "unat idx \<le> slot_capacity L" and "header_size \<le> unat L"
  shows "unat (completion_bytes (fst (finish D ok b idx))) \<le> unat L"
proof -
  have "unat idx < 65536" using unsigned_less[of idx, where ?'a = nat] by simp
  then have "unat (bytes_for (ucast idx)) = header_size + unat idx * entry_size"
    using unat_bytes_for[of "unat idx"] by simp
  with assms show ?thesis
    by (auto simp: finish_def size_simps slot_capacity_def unat_ucast_small)
qed

lemma finish_buffer: "buffer_of_size L b \<Longrightarrow> buffer_of_size L (snd (finish D ok b idx))"
  by (simp add: finish_def set_header_def buffer_of_size_def)

text \<open>Every request is answered, without a fault, within the buffer, and with the affinity restored.\<close>

definition fresh_header :: "ULONG \<Rightarrow> CPU_DATA_HEADER" where
  "fresh_header n = \<lparr>required_size = bytes_for (ucast (total_entries D n)), processor_count = n, entry_count = 0\<rparr>"

lemma set_header_id: "set_header id b = b"
  by (simp add: set_header_def)

lemma rejected_bytes:
  "unat (completion_bytes (Complete st)) \<le> k"
  "unat (completion_bytes (CompleteWithInformation st 0)) \<le> k"
  "header_size \<le> k \<Longrightarrow> unat (completion_bytes (CompleteWithInformation st (word_of_nat header_size))) \<le> k"
  by (simp_all add: size_simps)

lemma unat_header_size [simp]: "unat (word_of_nat header_size :: ULONGLONG) = header_size"
  by (simp add: size_simps)

lemma below_header: "(L :: ULONGLONG) < word_of_nat header_size \<longleftrightarrow> unat L < header_size"
  by (simp add: word_less_nat_alt size_simps)

lemma failed_not_success: "\<not> NT_SUCCESS st \<Longrightarrow> st \<noteq> STATUS_SUCCESS"
  by (auto simp: NT_SUCCESS_def STATUS_SUCCESS_def)

text \<open>A request is rejected by one of the five checks, or reaches the collecting part.\<close>

lemma handler_cases:
  obtains (rejected) c h w where "ioctl_handler K D L code b s = Some ((c, set_header h b), s\<lparr>world := w\<rparr>)"
      "unat (completion_bytes c) \<le> unat L" "completion_status c \<noteq> STATUS_SUCCESS"
  | (passed) w where "ioctl_handler K D L code b s =
        collect_and_complete K D L (k_active_procs K (world s))
          (set_header (\<lambda>_. fresh_header (k_active_procs K (world s))) b) (s\<lparr>world := w\<rparr>)"
      "header_size \<le> unat L"
proof -
  define n where "n = k_active_procs K (world s)"
  obtain status w where ret: "k_retrieve_output K (word_of_nat header_size) L (world s) = (status, w)"
    by fastforce
  note handler = ioctl_handler_def Let_def n_def[symmetric] ret prod.case fresh_header_def[symmetric]
  note no = rejected[of _ id "world s", unfolded set_header_id]
  consider (code) "code \<noteq> IOCTL_GET_DATA"
    | (small) "code = IOCTL_GET_DATA" "L < word_of_nat header_size"
    | (retrieve) "code = IOCTL_GET_DATA" "\<not> L < word_of_nat header_size" "\<not> NT_SUCCESS status"
    | (size) "code = IOCTL_GET_DATA" "\<not> L < word_of_nat header_size" "NT_SUCCESS status"
        "L < ucast (required_size (fresh_header n))"
    | (vendor) "code = IOCTL_GET_DATA" "\<not> L < word_of_nat header_size" "NT_SUCCESS status"
        "\<not> L < ucast (required_size (fresh_header n))" "DetectCpuVendor (cpuid K (s\<lparr>world := w\<rparr>)) \<noteq> dev_vendor D"
    | (pass) "code = IOCTL_GET_DATA" "\<not> L < word_of_nat header_size" "NT_SUCCESS status"
        "\<not> L < ucast (required_size (fresh_header n))" "DetectCpuVendor (cpuid K (s\<lparr>world := w\<rparr>)) = dev_vendor D"
    by blast
  then show ?thesis
  proof cases
    case code
    then show ?thesis
      by (intro no[of "Complete STATUS_INVALID_DEVICE_REQUEST"]) (simp_all add: ioctl_handler_def status_defs)
  next
    case small
    then show ?thesis
      by (intro no[of "CompleteWithInformation STATUS_BUFFER_TOO_SMALL 0"])
         (simp_all add: ioctl_handler_def Let_def status_defs)
  next
    case retrieve
    then show ?thesis
      by (intro rejected[of "Complete status" id w])
         (simp_all add: handler set_header_id failed_not_success)
  next
    case size
    then show ?thesis
      by (intro rejected[of "CompleteWithInformation STATUS_BUFFER_OVERFLOW (word_of_nat header_size)"
            "\<lambda>_. fresh_header n" w] rejected_bytes)
         (simp_all add: handler below_header, simp_all add: fresh_header_def status_defs)
  next
    case vendor
    then show ?thesis
      by (intro rejected[of "Complete STATUS_INVALID_DEVICE_REQUEST" "\<lambda>_. fresh_header n" w])
         (simp_all add: handler, simp_all add: fresh_header_def status_defs)
  next
    case pass
    then show ?thesis
      by (intro passed[of w]) (simp_all add: handler below_header, simp_all add: fresh_header_def)
  qed
qed

lemma handler_safe:
  assumes "Q s" and "buffer_of_size L b"
  shows "\<exists>c b' s' cs. ioctl_handler K D L code b s = Some ((c, b'), s') \<and> Q s' \<and> buffer_of_size L b' \<and>
     unat (completion_bytes c) \<le> unat L \<and> aff_log s' = aff_log s @ cs \<and> restoring cs"
proof (cases rule: handler_cases[of L code b s])
  case (rejected c h w)
  with assms show ?thesis
    by (auto simp: Q_world restoring_def set_header_def buffer_of_size_def)
next
  case (passed w)
  let ?b = "set_header (\<lambda>_. fresh_header (k_active_procs K (world s))) b"
  have "Q (s\<lparr>world := w\<rparr>)" "buffer_of_size L ?b"
    using assms by (simp_all add: Q_world set_header_def buffer_of_size_def)
  then obtain ok b2 idx s' cs js where
    c: "collect_and_complete K D L (k_active_procs K (world s)) ?b (s\<lparr>world := w\<rparr>) = Some (finish D ok b2 idx, s')"
      "Q s'" "aff_log s' = aff_log (s\<lparr>world := w\<rparr>) @ cs" "restoring cs"
    and js: "subseq js (proc_indices (k_active_procs K (world s)))"
      "filled L (ucast L) ?b 0 (concat (map core_tags js) @ agg_tags) ok b2 idx"
      "ok \<and> (\<forall>i \<in> set (proc_indices (k_active_procs K (world s))). known i) \<longrightarrow>
         js = proc_indices (k_active_procs K (world s))"
    by (rule collect_and_complete_cases)
  from js(2) have "unat idx \<le> slot_capacity L" "buffer_of_size L b2" by (simp_all add: filled_def)
  then have "unat (completion_bytes (fst (finish D ok b2 idx))) \<le> unat L"
    "buffer_of_size L (snd (finish D ok b2 idx))"
    using passed(2) by (simp_all only: finish_bytes finish_buffer)
  moreover have "ioctl_handler K D L code b s = Some ((fst (finish D ok b2 idx), snd (finish D ok b2 idx)), s')"
    using passed(1) c(1) by simp
  moreover have "aff_log s' = aff_log s @ cs" using c(3) by simp
  ultimately show ?thesis using c(2,4) by blast
qed

definition delivered :: "ULONG \<Rightarrow> tag list" where
  "delivered n = concat (map core_tags (proc_indices n)) @ agg_tags"

lemma length_delivered: "length (delivered n) \<le> announced n"
  using agg_count by (simp add: delivered_def length_concat_tags length_proc_indices announced_def)

text \<open>
  A request for the data with a buffer of at least the announced size gets every metric of every
  processor, then the aggregate ones.
\<close>

lemma handler_success:
  defines "n \<equiv> \<lambda>s. k_active_procs K (world s)"
  assumes Q: "Q s" "buffer_of_size L b"
    and size: "announced (n s) < 2 ^ 16" "header_size + announced (n s) * entry_size \<le> unat L" "unat L < 2 ^ 32"
    and known: "\<And>i. i \<in> set (proc_indices (n s)) \<Longrightarrow> known i"
    and ret: "k_retrieve_output K (word_of_nat header_size) L (world s) = (status, w)" "NT_SUCCESS status"
    and vendor: "DetectCpuVendor (k_cpuid K w) = dev_vendor D"
  shows "\<exists>b' s'. ioctl_handler K D L IOCTL_GET_DATA b s =
        Some ((CompleteWithInformation STATUS_SUCCESS
                 (word_of_nat (header_size + length (delivered (n s)) * entry_size)), b'), s') \<and>
     header b' = (fresh_header (n s))\<lparr>entry_count := word_of_nat (length (delivered (n s)))\<rparr> \<and>
     map tag_of (take (length (delivered (n s))) (slots b')) = delivered (n s)"
proof -
  let ?b = "set_header (\<lambda>_. fresh_header (n s)) b"
  have Q': "Q (s\<lparr>world := w\<rparr>)" "buffer_of_size L ?b"
    using Q by (simp_all add: Q_world set_header_def buffer_of_size_def)
  have "ioctl_handler K D L IOCTL_GET_DATA b s = collect_and_complete K D L (n s) ?b (s\<lparr>world := w\<rparr>)"
    using ret vendor size total_entries_exact[OF size(1)]
    by (auto simp: ioctl_handler_def Let_def fresh_header_def n_def cpuid_def word_less_nat_alt)
  moreover from Q' obtain ok b2 idx s' cs js where
    c1: "collect_and_complete K D L (n s) ?b (s\<lparr>world := w\<rparr>) = Some (finish D ok b2 idx, s')"
      "Q s'" "aff_log s' = aff_log (s\<lparr>world := w\<rparr>) @ cs" "restoring cs"
    and c: "subseq js (proc_indices (n s))"
      "filled L (ucast L) ?b 0 (concat (map core_tags js) @ agg_tags) ok b2 idx"
      "ok \<and> (\<forall>i \<in> set (proc_indices (n s)). known i) \<longrightarrow> js = proc_indices (n s)"
    by (rule collect_and_complete_cases)
  have cap: "unat (ucast L :: ULONG) = unat L" using size(3) by (simp add: unat_ucast_small)
  have len: "length (concat (map core_tags js) @ agg_tags) \<le> announced (n s)"
    using agg_count list_emb_length[OF c(1)]
    by (simp add: length_concat_tags length_proc_indices announced_def add_mono)
  have room: "unat (0 :: USHORT) + length (concat (map core_tags js) @ agg_tags) < 2 ^ 16"
    "header_size + (unat (0 :: USHORT) + length (concat (map core_tags js) @ agg_tags)) * entry_size \<le> unat (ucast L :: ULONG)"
    using len size cap by (auto simp: size_simps)
  from c(2) room have ok by (simp add: filled_def)
  with c(3) known have js: "concat (map core_tags js) @ agg_tags = delivered (n s)"
    by (simp add: delivered_def)
  from c(2) room \<open>ok\<close> have idx: "unat idx = length (delivered (n s))" "header b2 = fresh_header (n s)"
    "entry_tags b2 idx = delivered (n s)"
    by (auto simp: filled_def js entry_tags_def set_header_def)
  have "(ucast idx :: ULONG) = word_of_nat (length (delivered (n s)))"
    and "(ucast idx :: ULONGLONG) = word_of_nat (length (delivered (n s)))"
    using idx(1) room by (simp_all add: word_unat_eq_iff js unat_of_nat)
  moreover have "(ucast (bytes_for (word_of_nat (length (delivered (n s))))) :: ULONGLONG) =
      word_of_nat (header_size + length (delivered (n s)) * entry_size)"
    using room by (intro ucast_bytes_for) (simp add: js)
  ultimately show ?thesis
    using \<open>ok\<close> idx c1(1) by (simp add: finish_def set_header_def entry_tags_def)
qed

text \<open>
  A request whose buffer has room for the header only is told the size, and changes nothing else.
\<close>

lemma handler_size_query:
  defines "n \<equiv> \<lambda>s. k_active_procs K (world s)"
  assumes "announced (n s) < 2 ^ 16" "header_size \<le> unat L" "unat L < header_size + announced (n s) * entry_size"
    and "k_retrieve_output K (word_of_nat header_size) L (world s) = (status, w)" "NT_SUCCESS status"
  shows "ioctl_handler K D L IOCTL_GET_DATA b s =
        Some ((CompleteWithInformation STATUS_BUFFER_OVERFLOW (word_of_nat header_size),
               b\<lparr>header := fresh_header (n s)\<rparr>), s\<lparr>world := w\<rparr>) \<and>
     unat (required_size (fresh_header (n s))) = header_size + announced (n s) * entry_size"
  using assms total_entries_exact[OF assms(2)]
  by (auto simp: ioctl_handler_def Let_def fresh_header_def word_less_nat_alt set_header_def)

end

end
