(* ===== verification/Driver_Lifecycle.thy ===== *)
theory Driver_Lifecycle
  imports Ioctl_Handler
begin

text \<open>
  The creation of the control device, \<open>NonPnpDeviceAdd\<close>, which has the same text in both CPU
  drivers. The framework's objects are tracked in a record \<open>wdf\<close>: the \<open>WDFDEVICE_INIT\<close> that
  \<open>WdfControlDeviceInitAllocate\<close> returned, the device, its symbolic link and its queue, and the
  global \<open>dev\<close>.
\<close>

section \<open>Framework objects\<close>

text \<open>
  A \<open>WDFDEVICE_INIT\<close> is live until it is freed or a successful \<open>WdfDeviceCreate\<close> takes it over
  (and sets the caller's pointer to \<open>NULL\<close>). Using or freeing it afterwards is a fault.
\<close>

datatype init_state = InitNull | InitLive | InitFreed

record wdf =
  p_init :: init_state
  device_live :: bool
  symlink_live :: bool
  queue_live :: bool
  finished_initializing :: bool
  dev :: bool

definition no_objects :: wdf where
  "no_objects = \<lparr>p_init = InitNull, device_live = False, symlink_live = False, queue_live = False,
     finished_initializing = False, dev = False\<rparr>"

definition use_init :: "wdf \<Rightarrow> unit option" where
  "use_init x = (if p_init x = InitLive then Some () else None)"

definition WdfDeviceInitFree :: "wdf \<Rightarrow> wdf option" where
  "WdfDeviceInitFree x = (if p_init x = InitLive then Some (x\<lparr>p_init := InitFreed\<rparr>) else None)"

text \<open>\<open>END: if (device_init != NULL) WdfDeviceInitFree(device_init);\<close>\<close>

definition add_END :: "NTSTATUS \<Rightarrow> wdf \<Rightarrow> 'w \<Rightarrow> (NTSTATUS \<times> wdf \<times> 'w) option" where
  "add_END status x w =
     (if p_init x = InitNull then Some (status, x, w)
      else do { x \<leftarrow> WdfDeviceInitFree x; Some (status, x, w) })"

definition NonPnpDeviceAdd :: "'w kernel \<Rightarrow> wdf \<Rightarrow> 'w \<Rightarrow> (NTSTATUS \<times> wdf \<times> 'w) option" where
  "NonPnpDeviceAdd K x w = do {
     _ \<leftarrow> use_init x;
     let (status, w) = k_assign_sddl K w;
     if \<not> NT_SUCCESS status then add_END status x w
     else do {
       let (status, w) = k_assign_name K w;
       if \<not> NT_SUCCESS status then add_END status x w
       else do {
         let (status, w) = k_device_create K w;
         if \<not> NT_SUCCESS status then add_END status x w
         else do {
           let x = x\<lparr>p_init := InitNull, device_live := True\<rparr>;
           let (status, w) = k_create_symlink K w;
           if \<not> NT_SUCCESS status then add_END status x w
           else do {
             let x = x\<lparr>symlink_live := True, dev := True\<rparr>;
             let (status, w) = k_queue_create K w;
             if \<not> NT_SUCCESS status then add_END status x w
             else add_END status (x\<lparr>queue_live := True, finished_initializing := True\<rparr>) w
           }
         }
       }
     }
   }"

text \<open>
  On every path the \<open>WDFDEVICE_INIT\<close> is used only while it is live and is gone afterwards, freed
  at most once; the device is announced as initialised exactly on success; and \<open>dev\<close> names a
  device only where there is one with its link.
\<close>

lemma NonPnpDeviceAdd_post:
  assumes "p_init x = InitLive" and "\<not> device_live x" "\<not> dev x" "\<not> symlink_live x" "\<not> queue_live x"
    "\<not> finished_initializing x"
  shows "\<exists>st x' w'. NonPnpDeviceAdd K x w = Some (st, x', w') \<and> p_init x' \<noteq> InitLive \<and>
     (NT_SUCCESS st \<longleftrightarrow> finished_initializing x') \<and>
     (finished_initializing x' \<longrightarrow> queue_live x' \<and> dev x') \<and>
     (p_init x' = InitNull \<longleftrightarrow> device_live x') \<and>
     (dev x' \<longleftrightarrow> symlink_live x') \<and> (symlink_live x' \<longrightarrow> device_live x')"
proof -
  obtain s1 w1 where 1: "k_assign_sddl K w = (s1, w1)" by fastforce
  obtain s2 w2 where 2: "k_assign_name K w1 = (s2, w2)" by fastforce
  obtain s3 w3 where 3: "k_device_create K w2 = (s3, w3)" by fastforce
  obtain s4 w4 where 4: "k_create_symlink K w3 = (s4, w4)" by fastforce
  obtain s5 w5 where 5: "k_queue_create K w4 = (s5, w5)" by fastforce
  note eqs = NonPnpDeviceAdd_def use_init_def add_END_def WdfDeviceInitFree_def Let_def 1 2 3 4 5
  show ?thesis
    using assms
    by (cases "NT_SUCCESS s1"; cases "NT_SUCCESS s2"; cases "NT_SUCCESS s3"; cases "NT_SUCCESS s4";
        cases "NT_SUCCESS s5") (simp_all add: eqs)
qed

section \<open>The last steps of \<open>DriverEntry\<close>\<close>

text \<open>
  \<open>WdfDriverCreate\<close>, \<open>WdfControlDeviceInitAllocate\<close> and \<open>NonPnpDeviceAdd\<close>, with an early return
  after each of the first two.
\<close>

definition create_device :: "'w kernel \<Rightarrow> wdf \<Rightarrow> 'w \<Rightarrow> (NTSTATUS \<times> wdf \<times> 'w) option" where
  "create_device K x w =
     (case k_driver_create K w of (status, w) \<Rightarrow>
      if \<not> NT_SUCCESS status then Some (status, x, w)
      else case k_init_allocate K w of (ok, w) \<Rightarrow>
      if \<not> ok then Some (STATUS_INSUFFICIENT_RESOURCES, x, w)
      else NonPnpDeviceAdd K (x\<lparr>p_init := InitLive\<rparr>) w)"

lemma create_device_post:
  "\<exists>st x w'. create_device K no_objects w = Some (st, x, w') \<and>
     p_init x \<noteq> InitLive \<and> (NT_SUCCESS st \<longleftrightarrow> finished_initializing x) \<and> (finished_initializing x \<longrightarrow> queue_live x \<and> dev x)"
proof -
  obtain st1 w1 where 1: "k_driver_create K w = (st1, w1)" by fastforce
  obtain ok w2 where 2: "k_init_allocate K w1 = (ok, w2)" by fastforce
  let ?x = "no_objects\<lparr>p_init := InitLive\<rparr>"
  from NonPnpDeviceAdd_post[of ?x K w2] obtain st3 x3 w3 where
    3: "NonPnpDeviceAdd K ?x w2 = Some (st3, x3, w3)" "p_init x3 \<noteq> InitLive"
      "NT_SUCCESS st3 \<longleftrightarrow> finished_initializing x3" "finished_initializing x3 \<longrightarrow> queue_live x3 \<and> dev x3"
    by (auto simp: no_objects_def)
  have fail: "\<not> NT_SUCCESS STATUS_INSUFFICIENT_RESOURCES"
    by (simp add: NT_SUCCESS_def STATUS_INSUFFICIENT_RESOURCES_def)
  have none: "p_init no_objects \<noteq> InitLive" "\<not> finished_initializing no_objects"
    by (simp_all add: no_objects_def)
  consider (create) "\<not> NT_SUCCESS st1" | (alloc) "NT_SUCCESS st1" "\<not> ok" | (add) "NT_SUCCESS st1" ok by blast
  then show ?thesis
  proof cases
    case create
    with none show ?thesis using 1 by (simp add: create_device_def)
  next
    case alloc
    with none fail show ?thesis using 1 2 by (simp add: create_device_def)
  next
    case add
    then have "create_device K no_objects w = Some (st3, x3, w3)"
      using 1 2 3 by (simp add: create_device_def)
    with 3 show ?thesis by blast
  qed
qed

end
