(* ===== verification/Amd_Driver.thy ===== *)
theory Amd_Driver
  imports Driver_Lifecycle
begin

text \<open>
  The AMD CPU driver, \<open>amd_cpudriver.c\<close> with the constants of \<open>amd_cpudriver.h\<close>: feature
  detection, the driver's entry and unload, SMN access under its mutex, and the metrics of a
  processor and of the package. The driver's global variables are the fields of \<open>amd_st\<close>.
\<close>

section \<open>Constants\<close>

definition AMD_THM_TCON_CUR_TEMP_ADDR :: ULONG where "AMD_THM_TCON_CUR_TEMP_ADDR = 0x00059800"
definition AMD_SVI2_PLANE0_ADDR :: ULONG where "AMD_SVI2_PLANE0_ADDR = 0x0005A00C"
definition AMD_SVI2_PLANE1_ADDR :: ULONG where "AMD_SVI2_PLANE1_ADDR = 0x0005A010"
definition SMN_INDEX_REGISTER :: ULONG where "SMN_INDEX_REGISTER = 0x60"
definition SMN_DATA_REGISTER :: ULONG where "SMN_DATA_REGISTER = 0x64"
definition AMD_MSR_PSTATE_STATUS :: ULONG where "AMD_MSR_PSTATE_STATUS = 0xC0010063"
definition AMD_MSR_PSTATE_DEF_BASE :: ULONG where "AMD_MSR_PSTATE_DEF_BASE = 0xC0010064"
definition AMD_MSR_RAPL_POWER_UNIT :: ULONG where "AMD_MSR_RAPL_POWER_UNIT = 0xC0010299"
definition AMD_MSR_CORE_ENERGY_STATUS :: ULONG where "AMD_MSR_CORE_ENERGY_STATUS = 0xC001029A"
definition AMD_MSR_PKG_ENERGY_STATUS :: ULONG where "AMD_MSR_PKG_ENERGY_STATUS = 0xC001029B"
definition IA32_MPERF :: ULONG where "IA32_MPERF = 0xE7"
definition CPUID_THERM_POWER_LEAF :: ULONG where "CPUID_THERM_POWER_LEAF = 0x06"
definition CPUID_06H_ECX_MPERF_BIT :: ULONG where "CPUID_06H_ECX_MPERF_BIT = push_bit 0 1"
definition SVI2_BASE_MV_X4 :: ULONG where "SVI2_BASE_MV_X4 = 6200"
definition SVI2_STEP_MV_X4 :: ULONG where "SVI2_STEP_MV_X4 = 25"
definition SVI2_ROUNDING :: ULONG where "SVI2_ROUNDING = 2"
definition AMD_PSTATE_FREQ_BASE :: ULONG where "AMD_PSTATE_FREQ_BASE = 200"
definition AMD_FAMILY_ZEN :: ULONG where "AMD_FAMILY_ZEN = 0x17"
definition AMD_FAMILY_ZEN3 :: ULONG where "AMD_FAMILY_ZEN3 = 0x19"
definition AMD_TEMP_OFFSET_MDEG :: LONG where "AMD_TEMP_OFFSET_MDEG = 49000"
definition AMD_TEMP_UNIT_MDEG :: ULONG where "AMD_TEMP_UNIT_MDEG = 125"

lemmas amd_consts = AMD_THM_TCON_CUR_TEMP_ADDR_def AMD_SVI2_PLANE0_ADDR_def AMD_SVI2_PLANE1_ADDR_def
  SVI2_BASE_MV_X4_def SVI2_STEP_MV_X4_def SVI2_ROUNDING_def AMD_PSTATE_FREQ_BASE_def
  AMD_FAMILY_ZEN_def AMD_FAMILY_ZEN3_def AMD_TEMP_OFFSET_MDEG_def AMD_TEMP_UNIT_MDEG_def

section \<open>State\<close>

record AMD_CORE_DELTA_STATE =
  prev_mperf :: ULONGLONG
  prev_tsc :: ULONGLONG
  prev_core_energy :: ULONG
  prev_core_qpc :: LARGE_INTEGER
  core_valid :: bool

record AMD_PKG_DELTA_STATE =
  prev_pkg_energy :: ULONG
  prev_pkg_qpc :: LARGE_INTEGER
  pkg_valid :: bool
  energy_unit_divisor :: ULONG

record AMD_MODEL_AND_FAMILY =
  family :: ULONG
  model :: ULONG

text \<open>\<open>g_core_state\<close> is a pointer: \<open>None\<close> is \<open>NULL\<close>. \<open>smn_mutex\<close> is whether it is held.\<close>

record 'w amd_st = "'w kst" +
  smn_mutex :: bool
  g_has_mperf :: bool
  g_amd_info :: AMD_MODEL_AND_FAMILY
  g_svi2_core_addr :: ULONG
  g_svi2_soc_addr :: ULONG
  g_core_state :: "AMD_CORE_DELTA_STATE list option"
  g_pkg_state :: AMD_PKG_DELTA_STATE
  g_max_procs :: ULONG
  g_qpc_freq :: LARGE_INTEGER
  amd_wdf :: wdf

definition zero_core_state :: AMD_CORE_DELTA_STATE where
  "zero_core_state = \<lparr>prev_mperf = 0, prev_tsc = 0, prev_core_energy = 0, prev_core_qpc = 0, core_valid = False\<rparr>"

text \<open>The globals when the driver is loaded.\<close>

definition amd_initial :: "'w \<Rightarrow> 'w amd_st" where
  "amd_initial w = \<lparr>world = w, aff_log = [], smn_mutex = False, g_has_mperf = False,
     g_amd_info = \<lparr>family = 0, model = 0\<rparr>, g_svi2_core_addr = 0, g_svi2_soc_addr = 0, g_core_state = None,
     g_pkg_state = \<lparr>prev_pkg_energy = 0, prev_pkg_qpc = 0, pkg_valid = False, energy_unit_divisor = 0\<rparr>,
     g_max_procs = 0, g_qpc_freq = 0, amd_wdf = no_objects\<rparr>"

section \<open>Feature detection\<close>

text \<open>The \<open>int\<close> registers are sign-extended to the 64 bits of the mask.\<close>

definition DetectAMDModelAndFamily :: "(ULONG \<Rightarrow> cpu_regs) \<Rightarrow> AMD_MODEL_AND_FAMILY" where
  "DetectAMDModelAndFamily leaf =
     (let r = (scast (eax (leaf 0x01)) :: ULONGLONG);
          base_family = ucast (drop_bit 8 (r AND GENMASK 11 8)) :: ULONG;
          ext_family = ucast (drop_bit 20 (r AND GENMASK 27 20)) :: ULONG;
          base_model = ucast (drop_bit 4 (r AND GENMASK 7 4)) :: ULONG;
          ext_model = ucast (drop_bit 16 (r AND GENMASK 19 16)) :: ULONG
      in \<lparr>family = base_family + ext_family, model = push_bit 4 ext_model OR base_model\<rparr>)"

definition amd_DetectFeatures :: "'w kernel \<Rightarrow> 'w amd_st \<Rightarrow> 'w amd_st" where
  "amd_DetectFeatures K s =
     (let info = DetectAMDModelAndFamily (cpuid K s);
          mperf = ecx (cpuid K s CPUID_THERM_POWER_LEAF) AND CPUID_06H_ECX_MPERF_BIT \<noteq> 0
      in if family info \<ge> AMD_FAMILY_ZEN3
         then s\<lparr>g_amd_info := info, g_has_mperf := mperf,
                g_svi2_core_addr := AMD_SVI2_PLANE1_ADDR, g_svi2_soc_addr := AMD_SVI2_PLANE0_ADDR\<rparr>
         else s\<lparr>g_amd_info := info, g_has_mperf := mperf,
                g_svi2_core_addr := AMD_SVI2_PLANE0_ADDR, g_svi2_soc_addr := AMD_SVI2_PLANE1_ADDR\<rparr>)"

section \<open>Driver lifecycle\<close>

text \<open>\<open>sizeof(AMD_CORE_DELTA_STATE)\<close>: two 8-byte counters, a padded \<open>ULONG\<close>, 8 bytes, a padded flag.\<close>

definition amd_core_state_size :: ULONGLONG where
  "amd_core_state_size = 40"

text \<open>The last steps of \<open>DriverEntry\<close>: driver object, device initialisation, control device.\<close>

definition amd_create_device :: "'w kernel \<Rightarrow> 'w amd_st \<Rightarrow> (NTSTATUS \<times> 'w amd_st) option" where
  "amd_create_device K s = do {
     (status, x, w) \<leftarrow> create_device K (amd_wdf s) (world s);
     Some (status, s\<lparr>world := w, amd_wdf := x\<rparr>)
   }"

text \<open>\<open>if (g_amd_info.family >= AMD_FAMILY_ZEN)\<close>: the energy unit divisor.\<close>

definition amd_read_energy_unit :: "'w kernel \<Rightarrow> 'w amd_st \<Rightarrow> 'w amd_st option" where
  "amd_read_energy_unit K s =
     (if family (g_amd_info s) \<ge> AMD_FAMILY_ZEN
      then do {
        (rapl_unit, s) \<leftarrow> readmsr K AMD_MSR_RAPL_POWER_UNIT s;
        let energy_unit_shift = (ucast (drop_bit 8 (rapl_unit AND GENMASK 12 8)) :: ULONG);
        Some (s\<lparr>g_pkg_state := (g_pkg_state s)\<lparr>energy_unit_divisor := push_bit (unat energy_unit_shift) 1\<rparr>\<rparr>)
      }
      else Some s)"

text \<open>The allocation of \<open>g_core_state\<close>, zeroed where it succeeds.\<close>

definition amd_allocate_core_state :: "'w kernel \<Rightarrow> 'w amd_st \<Rightarrow> 'w amd_st option" where
  "amd_allocate_core_state K s = do {
     let s = s\<lparr>g_max_procs := k_active_procs K (world s)\<rparr>;
     (ok, s) \<leftarrow> lift_world (k_pool_alloc K (ucast (g_max_procs s) * amd_core_state_size)) s;
     Some (s\<lparr>g_core_state := (if ok then Some (replicate (unat (g_max_procs s)) zero_core_state) else None)\<rparr>)
   }"

definition amd_DriverEntry :: "'w kernel \<Rightarrow> 'w amd_st \<Rightarrow> (NTSTATUS \<times> 'w amd_st) option" where
  "amd_DriverEntry K s = do {
     let s = amd_DetectFeatures K (s\<lparr>smn_mutex := False\<rparr>);
     (freq, s) \<leftarrow> query_qpc_freq K s;
     s \<leftarrow> amd_read_energy_unit K (s\<lparr>g_qpc_freq := freq\<rparr>);
     s \<leftarrow> amd_allocate_core_state K s;
     amd_create_device K s
   }"

definition amd_EvtDriverUnload :: "'w amd_st \<Rightarrow> 'w amd_st" where
  "amd_EvtDriverUnload s =
     (let s = (if g_core_state s \<noteq> None then s\<lparr>g_core_state := None\<rparr> else s)
      in if dev (amd_wdf s)
         then s\<lparr>amd_wdf := (amd_wdf s)\<lparr>dev := False, device_live := False, symlink_live := False,
                                       queue_live := False\<rparr>\<rparr>
         else s)"

section \<open>SMN access\<close>

definition ExAcquireFastMutex :: "'w amd_st \<Rightarrow> 'w amd_st option" where
  "ExAcquireFastMutex s = (if smn_mutex s then None else Some (s\<lparr>smn_mutex := True\<rparr>))"

definition ExReleaseFastMutex :: "'w amd_st \<Rightarrow> 'w amd_st option" where
  "ExReleaseFastMutex s = (if smn_mutex s then Some (s\<lparr>smn_mutex := False\<rparr>) else None)"

text \<open>
  The returned \<open>BOOLEAN\<close> and \<open>*result\<close> are one option. The PCI calls answer how many of the
  \<open>sizeof(ULONG)\<close> bytes they moved.
\<close>

definition ReadSmn :: "'w kernel \<Rightarrow> ULONG \<Rightarrow> 'w amd_st \<Rightarrow> (ULONG option \<times> 'w amd_st) option" where
  "ReadSmn K address s = do {
     s \<leftarrow> ExAcquireFastMutex s;
     (written, s) \<leftarrow> lift_world (k_set_bus K SMN_INDEX_REGISTER address) s;
     if written \<noteq> 4
     then do { s \<leftarrow> ExReleaseFastMutex s; Some (None, s) }
     else do {
       ((read, result), s) \<leftarrow> lift_world (k_get_bus K SMN_DATA_REGISTER) s;
       if read \<noteq> 4
       then do { s \<leftarrow> ExReleaseFastMutex s; Some (None, s) }
       else do { s \<leftarrow> ExReleaseFastMutex s; Some (Some result, s) }
     }
   }"

section \<open>Metrics of a processor\<close>

definition amd_retCoreClockSpeed :: "'w kernel \<Rightarrow> ULONG \<Rightarrow> 'w amd_st metric_reader" where
  "amd_retCoreClockSpeed K cpu_idx s = do {
     data \<leftarrow> core_entry cpu_idx METRIC_CLOCK_SPEED UNIT_MHZ ''Clock'';
     (pstate_status, s) \<leftarrow> readmsr K AMD_MSR_PSTATE_STATUS s;
     let cur_pstate = (ucast (pstate_status AND GENMASK 2 0) :: ULONG);
     (pstate_def, s) \<leftarrow> readmsr K (AMD_MSR_PSTATE_DEF_BASE + cur_pstate) s;
     let fid = (ucast (pstate_def AND GENMASK 7 0) :: ULONG);
     let dfs_id = (ucast (drop_bit 8 (pstate_def AND GENMASK 13 8)) :: ULONG);
     Some (if dfs_id > 0 then data\<lparr>data_value := (AMD_PSTATE_FREQ_BASE * fid) div dfs_id\<rparr> else data, s)
   }"

text \<open>The load of two samples, as both drivers compute it (\<open>mperf_delta * 100ULL / tsc_delta\<close>).\<close>

definition load_of :: "ULONGLONG \<Rightarrow> ULONGLONG \<Rightarrow> ULONG" where
  "load_of mperf_delta tsc_delta =
     (let load = ucast ((mperf_delta * 100) div tsc_delta) in if load > 100 then 100 else load)"

definition amd_retCoreLoad :: "'w kernel \<Rightarrow> ULONG \<Rightarrow> 'w amd_st metric_reader" where
  "amd_retCoreLoad K cpu_idx s = do {
     data \<leftarrow> core_entry cpu_idx METRIC_LOAD UNIT_PERCENT ''Load'';
     case g_core_state s of
       None \<Rightarrow> Some (data, s)
     | Some _ \<Rightarrow>
       if \<not> g_has_mperf s \<or> cpu_idx \<ge> g_max_procs s then Some (data, s)
       else do {
         (curr_mperf, s) \<leftarrow> readmsr K IA32_MPERF s;
         (curr_tsc, s) \<leftarrow> rdtsc K s;
         cs \<leftarrow> g_core_state s;
         st \<leftarrow> (if unat cpu_idx < length cs then Some (cs ! unat cpu_idx) else None);
         let mperf_delta = curr_mperf - prev_mperf st;
         let tsc_delta = curr_tsc - prev_tsc st;
         let data = (if core_valid st \<and> tsc_delta > 0
                     then data\<lparr>data_value := load_of mperf_delta tsc_delta\<rparr> else data);
         let st = st\<lparr>prev_mperf := curr_mperf, prev_tsc := curr_tsc, core_valid := True\<rparr>;
         Some (data, s\<lparr>g_core_state := Some (cs[unat cpu_idx := st])\<rparr>)
       }
   }"

text \<open>The difference of two readings of a 32-bit energy counter, with the branch for its wrap.\<close>

definition energy_delta_of :: "ULONG \<Rightarrow> ULONG \<Rightarrow> ULONG" where
  "energy_delta_of curr_energy prev_energy =
     (if curr_energy \<ge> prev_energy then curr_energy - prev_energy
      else (0xFFFFFFFF - prev_energy) + curr_energy + 1)"

definition elapsed_ms :: "LARGE_INTEGER \<Rightarrow> LARGE_INTEGER \<Rightarrow> LARGE_INTEGER \<Rightarrow> ULONGLONG" where
  "elapsed_ms freq curr_qpc prev_qpc = ((curr_qpc - prev_qpc) * 1000) div freq"

definition power_of :: "ULONG \<Rightarrow> ULONG \<Rightarrow> ULONGLONG \<Rightarrow> ULONG" where
  "power_of energy_delta divisor time_ms =
     (let energy_mj = (ucast energy_delta * 1000) div ucast divisor
      in ucast ((energy_mj * 1000) div time_ms))"

text \<open>
  The guard of the two power functions and the value they store: \<open>None\<close> is no sample yet,
  no energy unit, no performance counter or no time elapsed.
\<close>

definition amd_power_value ::
  "bool \<Rightarrow> ULONG \<Rightarrow> LARGE_INTEGER \<Rightarrow> ULONG \<Rightarrow> ULONG \<Rightarrow> LARGE_INTEGER \<Rightarrow> LARGE_INTEGER \<Rightarrow> ULONG option" where
  "amd_power_value has_prev divisor freq curr_energy prev_energy curr_qpc prev_qpc =
     (if has_prev \<and> divisor > 0 \<and> 0 < sint freq
      then let time_ms = elapsed_ms freq curr_qpc prev_qpc
           in if time_ms > 0
              then Some (power_of (energy_delta_of curr_energy prev_energy) divisor time_ms)
              else None
      else None)"

definition set_value :: "ULONG option \<Rightarrow> CPU_DATA \<Rightarrow> CPU_DATA" where
  "set_value v data = (case v of None \<Rightarrow> data | Some x \<Rightarrow> data\<lparr>data_value := x\<rparr>)"

definition amd_retCorePower :: "'w kernel \<Rightarrow> ULONG \<Rightarrow> 'w amd_st metric_reader" where
  "amd_retCorePower K cpu_idx s = do {
     data \<leftarrow> core_entry cpu_idx METRIC_POWER UNIT_MILLIWATTS ''Power'';
     case g_core_state s of
       None \<Rightarrow> Some (data, s)
     | Some _ \<Rightarrow>
       if family (g_amd_info s) < AMD_FAMILY_ZEN \<or> cpu_idx \<ge> g_max_procs s then Some (data, s)
       else do {
         (energy, s) \<leftarrow> readmsr K AMD_MSR_CORE_ENERGY_STATUS s;
         let curr_energy = (ucast (energy AND GENMASK 31 0) :: ULONG);
         (curr_qpc, s) \<leftarrow> query_qpc K s;
         cs \<leftarrow> g_core_state s;
         st \<leftarrow> (if unat cpu_idx < length cs then Some (cs ! unat cpu_idx) else None);
         let data = set_value (amd_power_value (core_valid st) (energy_unit_divisor (g_pkg_state s))
                      (g_qpc_freq s) curr_energy (prev_core_energy st) curr_qpc (prev_core_qpc st)) data;
         let st = st\<lparr>prev_core_energy := curr_energy, prev_core_qpc := curr_qpc\<rparr>;
         Some (data, s\<lparr>g_core_state := Some (cs[unat cpu_idx := st])\<rparr>)
       }
   }"

section \<open>Metrics of the package\<close>

definition amd_tdie_value :: "ULONG \<Rightarrow> ULONG" where
  "amd_tdie_value raw =
     (let r = (ucast raw :: ULONGLONG);
          offset_flag = (r AND GENMASK 19 19 \<noteq> 0 \<or> r AND GENMASK 17 16 = GENMASK 17 16);
          raw_temp = (ucast (drop_bit 21 (r AND GENMASK 31 21)) :: ULONG);
          temp_mdeg = (raw_temp * AMD_TEMP_UNIT_MDEG :: LONG);
          temp_mdeg = (if offset_flag then temp_mdeg - AMD_TEMP_OFFSET_MDEG else temp_mdeg)
      in if 0 \<le> sint temp_mdeg \<and> sint temp_mdeg \<le> 150000
         then word_of_int (c_div (sint temp_mdeg) 1000) else 0)"

definition amd_retTDieTemp :: "'w kernel \<Rightarrow> 'w amd_st metric_reader" where
  "amd_retTDieTemp K s = do {
     data \<leftarrow> package_entry METRIC_TEMP UNIT_DEGREES_C ''Tdie Temp'';
     (raw, s) \<leftarrow> ReadSmn K AMD_THM_TCON_CUR_TEMP_ADDR s;
     Some (case raw of None \<Rightarrow> data | Some raw \<Rightarrow> data\<lparr>data_value := amd_tdie_value raw\<rparr>, s)
   }"

text \<open>\<open>(LONG)(6200 - vid * 25 + 2) / 4\<close>: unsigned arithmetic, then a signed division.\<close>

definition svi2_mv :: "ULONG \<Rightarrow> ULONG" where
  "svi2_mv raw =
     (let vid = (ucast (drop_bit 16 ((ucast raw :: ULONGLONG) AND GENMASK 23 16)) :: ULONG);
          mv = c_div (sint (SVI2_BASE_MV_X4 - vid * SVI2_STEP_MV_X4 + SVI2_ROUNDING)) 4
      in if mv > 0 then word_of_int mv else 0)"

definition amd_retCoreVoltage :: "'w kernel \<Rightarrow> 'w amd_st metric_reader" where
  "amd_retCoreVoltage K s = do {
     data \<leftarrow> package_entry METRIC_VOLTAGE UNIT_MILLIVOLTS ''Core Voltage'';
     (raw, s) \<leftarrow> ReadSmn K (g_svi2_core_addr s) s;
     Some (case raw of None \<Rightarrow> data | Some raw \<Rightarrow> data\<lparr>data_value := svi2_mv raw\<rparr>, s)
   }"

definition amd_retSoCVoltage :: "'w kernel \<Rightarrow> 'w amd_st metric_reader" where
  "amd_retSoCVoltage K s = do {
     data \<leftarrow> package_entry METRIC_VOLTAGE UNIT_MILLIVOLTS ''SoC Voltage'';
     (raw, s) \<leftarrow> ReadSmn K (g_svi2_soc_addr s) s;
     Some (case raw of None \<Rightarrow> data | Some raw \<Rightarrow> data\<lparr>data_value := svi2_mv raw\<rparr>, s)
   }"

definition amd_retPackagePower :: "'w kernel \<Rightarrow> 'w amd_st metric_reader" where
  "amd_retPackagePower K s = do {
     data \<leftarrow> package_entry METRIC_POWER UNIT_MILLIWATTS ''Package Power'';
     if family (g_amd_info s) < AMD_FAMILY_ZEN then Some (data, s)
     else do {
       (energy, s) \<leftarrow> readmsr K AMD_MSR_PKG_ENERGY_STATUS s;
       let curr_energy = (ucast (energy AND GENMASK 31 0) :: ULONG);
       (curr_qpc, s) \<leftarrow> query_qpc K s;
       let st = g_pkg_state s;
       let data = set_value (amd_power_value (pkg_valid st) (energy_unit_divisor st) (g_qpc_freq s)
                    curr_energy (prev_pkg_energy st) curr_qpc (prev_pkg_qpc st)) data;
       Some (data, s\<lparr>g_pkg_state := st\<lparr>prev_pkg_energy := curr_energy, prev_pkg_qpc := curr_qpc,
                                       pkg_valid := True\<rparr>\<rparr>)
     }
   }"

section \<open>Collecting, and the request handler\<close>

definition ReadPerCoreAmdMetrics :: "'w kernel \<Rightarrow> ULONG \<Rightarrow> 'w amd_st metric_filler" where
  "ReadPerCoreAmdMetrics K cpu_idx =
     collect [amd_retCoreClockSpeed K cpu_idx, amd_retCoreLoad K cpu_idx, amd_retCorePower K cpu_idx]"

definition ReadAmdAggregateMetrics :: "'w kernel \<Rightarrow> 'w amd_st metric_filler" where
  "ReadAmdAggregateMetrics K =
     collect [amd_retTDieTemp K, amd_retCoreVoltage K, amd_retSoCVoltage K, amd_retPackagePower K]"

definition amd_dev where
  "amd_dev K = \<lparr>dev_vendor = CPU_VENDOR_AMD, METRICS_PER_CORE = 3, METRICS_AGGREGATE = 4,
     read_core = ReadPerCoreAmdMetrics K, read_aggregate = ReadAmdAggregateMetrics K\<rparr>"

lemma amd_dev_fields [simp]:
  "dev_vendor (amd_dev K) = CPU_VENDOR_AMD" "METRICS_PER_CORE (amd_dev K) = 3" "METRICS_AGGREGATE (amd_dev K) = 4"
  "read_core (amd_dev K) = ReadPerCoreAmdMetrics K" "read_aggregate (amd_dev K) = ReadAmdAggregateMetrics K"
  by (simp_all add: amd_dev_def)

definition amd_EvtIoDeviceControl ::
  "'w kernel \<Rightarrow> ULONGLONG \<Rightarrow> ULONG \<Rightarrow> out_buffer \<Rightarrow> 'w amd_st \<Rightarrow> ((completion \<times> out_buffer) \<times> 'w amd_st) option" where
  "amd_EvtIoDeviceControl K = ioctl_handler K (amd_dev K)"

section \<open>Correctness of the values\<close>

lemma field_ucast:
  assumes "h < 64" and "Suc h - l \<le> LENGTH('b)"
  shows "unat (ucast (drop_bit l (w AND GENMASK h l)) :: 'b::len word) = unat w div 2 ^ l mod 2 ^ (Suc h - l)"
proof -
  have "unat (take_bit (Suc h - l) (drop_bit l w)) < 2 ^ (Suc h - l)"
    by (simp only: unat_take_bit_drop_bit) simp
  also have "(2::nat) ^ (Suc h - l) \<le> 2 ^ LENGTH('b)"
    using assms(2) by (rule power_increasing) simp
  finally show ?thesis
    using assms by (simp only: genmask_field unat_ucast_small unat_take_bit_drop_bit)
qed

lemma energy_delta_sub: "energy_delta_of now before = now - before"
proof -
  have "(0xFFFFFFFF :: ULONG) = - 1" by simp
  then show ?thesis by (simp add: energy_delta_of_def)
qed

lemma load_of_le: "load_of m t \<le> 100"
  by (auto simp: load_of_def Let_def not_less)

lemma load_of_exact:
  assumes "unat m * 100 < 2 ^ 64" and "m \<le> t" and "0 < t"
  shows "unat (load_of m t) = unat m * 100 div unat t"
proof -
  have p: "unat (m * 100) = unat m * 100"
    using assms(1) by (simp add: unat_word_ariths)
  have "unat m * 100 \<le> 100 * unat t" and "0 < unat t"
    using assms(2,3) by (simp_all add: word_le_nat_alt word_less_nat_alt)
  then have q: "unat m * 100 div unat t \<le> 100"
    using div_le_mono[of "unat m * 100" "100 * unat t" "unat t"] by simp
  then have "unat (ucast ((m * 100) div t) :: ULONG) = unat m * 100 div unat t"
    by (simp add: unat_ucast_small unat_div p)
  with q show ?thesis
    by (auto simp: load_of_def Let_def word_less_nat_alt)
qed

lemma unat_times_1000: "unat (x :: ULONGLONG) * 1000 < 2 ^ 64 \<Longrightarrow> unat (x * 1000) = unat x * 1000"
  by (simp add: unat_word_ariths)

lemma power_of_exact:
  assumes "0 < divisor" and "0 < time_ms"
  shows "unat (power_of d divisor time_ms) =
    (unat d * 1000 div unat divisor * 1000 div unat time_ms) mod 2 ^ 32"
proof -
  have d: "unat d < 2 ^ 32" using unsigned_less[of d, where ?'a = nat] by simp
  then have "unat (ucast d * 1000 :: ULONGLONG) = unat d * 1000"
    by (subst unat_times_1000) simp_all
  then have mj: "unat ((ucast d * 1000) div ucast divisor :: ULONGLONG) = unat d * 1000 div unat divisor"
    by (simp add: unat_div)
  have "unat d * 1000 div unat divisor * 1000 \<le> unat d * 1000 * 1000"
    by (intro mult_le_mono1 div_le_dividend)
  also have "\<dots> < 2 ^ 64" using d by simp
  finally have "unat d * 1000 div unat divisor * 1000 < 2 ^ 64" .
  with mj have "unat ((ucast d * 1000) div ucast divisor * 1000 :: ULONGLONG) = unat d * 1000 div unat divisor * 1000"
    by (subst unat_times_1000) simp_all
  then show ?thesis
    by (simp add: power_of_def unsigned_ucast_eq take_bit_eq_mod unat_div)
qed

lemma elapsed_ms_exact:
  assumes "unat (now - before) * 1000 < 2 ^ 64"
  shows "unat (elapsed_ms freq now before) = unat (now - before) * 1000 div unat freq"
  by (simp only: elapsed_ms_def unat_div unat_times_1000[OF assms])

definition tdie_offset :: "ULONG \<Rightarrow> bool" where
  "tdie_offset raw \<longleftrightarrow> bit raw 19 \<or> (bit raw 16 \<and> bit raw 17)"

lemma tdie_offset_flag:
  "((ucast raw :: ULONGLONG) AND GENMASK 19 19 \<noteq> 0 \<or> (ucast raw :: ULONGLONG) AND GENMASK 17 16 = GENMASK 17 16)
     \<longleftrightarrow> tdie_offset raw"
proof -
  have 1: "(ucast raw :: ULONGLONG) AND GENMASK 19 19 = 0 \<longleftrightarrow> \<not> bit raw 19"
  proof
    assume "(ucast raw :: ULONGLONG) AND GENMASK 19 19 = 0"
    then have "\<not> bit ((ucast raw :: ULONGLONG) AND GENMASK 19 19) 19" by simp
    then show "\<not> bit raw 19" by (simp add: bit_simps bit_GENMASK)
  next
    assume "\<not> bit raw 19"
    then show "(ucast raw :: ULONGLONG) AND GENMASK 19 19 = 0"
      by (intro bit_word_eqI) (auto simp: bit_simps bit_GENMASK dest: antisym)
  qed
  have 2: "(ucast raw :: ULONGLONG) AND GENMASK 17 16 = GENMASK 17 16 \<longleftrightarrow> bit raw 16 \<and> bit raw 17"
  proof
    assume a: "(ucast raw :: ULONGLONG) AND GENMASK 17 16 = GENMASK 17 16"
    have "bit ((ucast raw :: ULONGLONG) AND GENMASK 17 16) 16" "bit ((ucast raw :: ULONGLONG) AND GENMASK 17 16) 17"
      unfolding a by (simp_all add: bit_GENMASK)
    then show "bit raw 16 \<and> bit raw 17" by (simp add: bit_simps)
  next
    have "n = 16 \<or> n = 17" if "16 \<le> n" "n \<le> 17" for n :: nat using that by auto
    moreover assume "bit raw 16 \<and> bit raw 17"
    ultimately show "(ucast raw :: ULONGLONG) AND GENMASK 17 16 = GENMASK 17 16"
      by (intro bit_word_eqI) (auto simp: bit_simps bit_GENMASK)
  qed
  show ?thesis using 1 2 by (simp add: tdie_offset_def)
qed

definition tdie_mdeg :: "ULONG \<Rightarrow> int" where
  "tdie_mdeg raw = int (unat raw div 2 ^ 21) * 125 - (if tdie_offset raw then 49000 else 0)"

lemma sint_small:
  "n < 2 ^ 31 \<Longrightarrow> sint (word_of_nat n :: ULONG) = int n"
  by (simp add: sint_uint uint_nat unat_word_of_nat_small signed_take_bit_int_eq_self)

lemma sint_signed:
  assumes "- (2 ^ 31) \<le> z" and "z < 2 ^ 31"
  shows "sint (word_of_int z :: ULONG) = z"
  using assms by (simp add: sint_sbintrunc' signed_take_bit_int_eq_self)

lemma amd_tdie_value_exact:
  "unat (amd_tdie_value raw) =
     (if 0 \<le> tdie_mdeg raw \<and> tdie_mdeg raw \<le> 150000 then nat (tdie_mdeg raw div 1000) else 0)"
proof -
  define t where "t = unat raw div 2 ^ 21"
  have "unat raw < 2 ^ 32" using unsigned_less[of raw, where ?'a = nat] by simp
  then have t: "t < 2 ^ 11" by (simp add: t_def less_mult_imp_div_less)
  have raw_t: "(ucast (drop_bit 21 ((ucast raw :: ULONGLONG) AND GENMASK 31 21)) :: ULONG) = word_of_nat t"
  proof -
    have "unat (ucast (drop_bit 21 ((ucast raw :: ULONGLONG) AND GENMASK 31 21)) :: ULONG) = t mod 2 ^ 11"
      unfolding t_def by (subst field_ucast) simp_all
    with t show ?thesis by (simp add: word_unat_eq_iff unat_word_of_nat_small)
  qed
  have m: "sint (word_of_nat t * 125 :: LONG) = int (t * 125)"
    using sint_small[of "t * 125"] t by simp
  have o: "sint (word_of_nat t * 125 - 49000 :: LONG) = int (t * 125) - 49000"
    using sint_signed[of "int (t * 125) - 49000"] t by simp
  have mdeg: "sint (if tdie_offset raw then word_of_nat t * AMD_TEMP_UNIT_MDEG - AMD_TEMP_OFFSET_MDEG
      else word_of_nat t * AMD_TEMP_UNIT_MDEG) = tdie_mdeg raw"
    using m o by (simp add: amd_consts tdie_mdeg_def t_def)
  show ?thesis
    unfolding amd_tdie_value_def Let_def tdie_offset_flag raw_t mdeg
    by (auto simp: c_div_nonneg unsigned_of_int take_bit_int_eq_self)
qed

text \<open>The voltage identifier in bits 23 to 16, and the voltage it encodes, in millivolts.\<close>

definition svi2_vid :: "ULONG \<Rightarrow> nat" where
  "svi2_vid raw = unat raw div 2 ^ 16 mod 2 ^ 8"

lemma svi2_mv_exact: "unat (svi2_mv raw) = nat (6202 - 25 * int (svi2_vid raw)) div 4"
proof -
  define v where "v = svi2_vid raw"
  have v: "v < 256" by (simp add: v_def svi2_vid_def)
  have vid: "(ucast (drop_bit 16 ((ucast raw :: ULONGLONG) AND GENMASK 23 16)) :: ULONG) = word_of_nat v"
  proof -
    have "unat (ucast (drop_bit 16 ((ucast raw :: ULONGLONG) AND GENMASK 23 16)) :: ULONG) = v"
      unfolding v_def svi2_vid_def by (subst field_ucast) simp_all
    with v show ?thesis by (simp add: word_unat_eq_iff unat_word_of_nat_small)
  qed
  have mv: "sint (SVI2_BASE_MV_X4 - word_of_nat v * SVI2_STEP_MV_X4 + SVI2_ROUNDING) = 6202 - 25 * int v"
    using sint_signed[of "6202 - 25 * int v"] v by (simp add: amd_consts algebra_simps)
  show ?thesis
  proof (cases "6202 - 25 * int v < 0")
    case True
    then have "c_div (6202 - 25 * int v) 4 \<le> 0" by (rule c_div_neg) simp
    then show ?thesis
      unfolding svi2_mv_def Let_def vid mv v_def[symmetric] using True by simp
  next
    case False
    then have pos: "0 \<le> 6202 - 25 * int v" by simp
    then have "c_div (6202 - 25 * int v) 4 = (6202 - 25 * int v) div 4" by (simp add: c_div_nonneg)
    then show ?thesis
      unfolding svi2_mv_def Let_def vid mv v_def[symmetric]
      using pos by (auto simp: unsigned_of_int take_bit_int_eq_self nat_div_distrib)
  qed
qed

section \<open>The readers and the state invariant\<close>

text \<open>
  The array of the per-core state has \<open>g_max_procs\<close> entries, the SMN mutex is free between calls,
  and without the MPERF counter no core has a valid sample.
\<close>

definition amd_wf :: "'w amd_st \<Rightarrow> bool" where
  "amd_wf s \<longleftrightarrow> \<not> smn_mutex s \<and>
     (case g_core_state s of None \<Rightarrow> True
      | Some cs \<Rightarrow> length cs = unat (g_max_procs s) \<and> (\<not> g_has_mperf s \<longrightarrow> (\<forall>c \<in> set cs. \<not> core_valid c)))"

lemma amd_wf_env [simp]:
  "amd_wf (s\<lparr>world := w\<rparr>) = amd_wf s" "amd_wf (s\<lparr>aff_log := l\<rparr>) = amd_wf s"
  "amd_wf (s\<lparr>g_pkg_state := p\<rparr>) = amd_wf s"
  by (simp_all add: amd_wf_def split: option.splits)

lemma amd_wf_core [simp]:
  "amd_wf s \<Longrightarrow> g_core_state s = Some cs \<Longrightarrow> i < length cs \<Longrightarrow> g_has_mperf s \<or> core_valid st = core_valid (cs ! i) \<Longrightarrow>
     amd_wf (s\<lparr>g_core_state := Some (cs[i := st])\<rparr>)"
  by (auto simp: amd_wf_def dest!: set_update_subset_insert[THEN subsetD])

lemma ReadSmn_safe:
  assumes "\<not> smn_mutex s"
  obtains r w where "ReadSmn K a s = Some (r, s\<lparr>world := w\<rparr>)"
proof -
  obtain n w1 where 1: "k_set_bus K SMN_INDEX_REGISTER a (world s) = (n, w1)" by fastforce
  obtain m v w2 where 2: "k_get_bus K SMN_DATA_REGISTER w1 = ((m, v), w2)" by (metis prod.exhaust)
  have unlock: "s\<lparr>smn_mutex := False\<rparr> = s" using assms by simp
  show ?thesis
  proof (cases "n \<noteq> 4")
    case True
    with assms 1 show ?thesis
      by (intro that[of None w1])
         (simp add: ReadSmn_def ExAcquireFastMutex_def ExReleaseFastMutex_def lift_world_def)
  next
    case False
    with assms 1 2 show ?thesis
      by (intro that[of "if m \<noteq> 4 then None else Some v" w2])
         (simp add: ReadSmn_def ExAcquireFastMutex_def ExReleaseFastMutex_def lift_world_def)
  qed
qed

lemma tag_set_value [simp]: "tag_of (set_value v d) = tag_of d"
  by (simp add: set_value_def split: option.splits)

lemma amd_clock_reads:
  "reads amd_wf aff_log (core_tag METRIC_CLOCK_SPEED UNIT_MHZ ''Clock'' i) (amd_retCoreClockSpeed K i)"
  unfolding reads_def
proof (intro allI impI)
  fix s :: "'a amd_st" assume wf: "amd_wf s"
  obtain v1 w1 where 1: "readmsr K AMD_MSR_PSTATE_STATUS s = Some (v1, s\<lparr>world := w1\<rparr>)"
    using readmsr_total[of K AMD_MSR_PSTATE_STATUS s] by blast
  let ?a = "AMD_MSR_PSTATE_DEF_BASE + ucast (v1 AND GENMASK 2 0)"
  obtain v2 w2 where 2: "readmsr K ?a (s\<lparr>world := w1\<rparr>) = Some (v2, s\<lparr>world := w1\<rparr>\<lparr>world := w2\<rparr>)"
    using readmsr_total[of K ?a "s\<lparr>world := w1\<rparr>"] by blast
  show "\<exists>d s'. amd_retCoreClockSpeed K i s = Some (d, s') \<and> amd_wf s' \<and> aff_log s' = aff_log s \<and>
      tag_of d = core_tag METRIC_CLOCK_SPEED UNIT_MHZ ''Clock'' i"
    using wf 1 2 by (simp add: amd_retCoreClockSpeed_def core_entries Let_def)
qed

lemma amd_load_reads:
  "reads amd_wf aff_log (core_tag METRIC_LOAD UNIT_PERCENT ''Load'' i) (amd_retCoreLoad K i)"
  unfolding reads_def
proof (intro allI impI)
  fix s :: "'a amd_st" assume wf: "amd_wf s"
  obtain v1 w1 where 1: "readmsr K IA32_MPERF s = Some (v1, s\<lparr>world := w1\<rparr>)"
    using readmsr_total[of K IA32_MPERF s] by blast
  obtain v2 w2 where 2: "rdtsc K (s\<lparr>world := w1\<rparr>) = Some (v2, s\<lparr>world := w1\<rparr>\<lparr>world := w2\<rparr>)"
    using rdtsc_total[of K "s\<lparr>world := w1\<rparr>"] by blast
  show "\<exists>d s'. amd_retCoreLoad K i s = Some (d, s') \<and> amd_wf s' \<and> aff_log s' = aff_log s \<and>
      tag_of d = core_tag METRIC_LOAD UNIT_PERCENT ''Load'' i"
    using wf 1 2
    by (cases "g_core_state s")
       (auto simp: amd_retCoreLoad_def core_entries Let_def amd_wf_def word_less_nat_alt not_le)
qed

lemma amd_power_reads:
  "reads amd_wf aff_log (core_tag METRIC_POWER UNIT_MILLIWATTS ''Power'' i) (amd_retCorePower K i)"
  unfolding reads_def
proof (intro allI impI)
  fix s :: "'a amd_st" assume wf: "amd_wf s"
  obtain v1 w1 where 1: "readmsr K AMD_MSR_CORE_ENERGY_STATUS s = Some (v1, s\<lparr>world := w1\<rparr>)"
    using readmsr_total[of K AMD_MSR_CORE_ENERGY_STATUS s] by blast
  obtain v2 w2 where 2: "query_qpc K (s\<lparr>world := w1\<rparr>) = Some (v2, s\<lparr>world := w1\<rparr>\<lparr>world := w2\<rparr>)"
    using query_qpc_total[of K "s\<lparr>world := w1\<rparr>"] by blast
  show "\<exists>d s'. amd_retCorePower K i s = Some (d, s') \<and> amd_wf s' \<and> aff_log s' = aff_log s \<and>
      tag_of d = core_tag METRIC_POWER UNIT_MILLIWATTS ''Power'' i"
    using wf 1 2
    by (cases "g_core_state s")
       (auto simp: amd_retCorePower_def core_entries Let_def amd_wf_def word_less_nat_alt not_le
          dest!: set_update_subset_insert[THEN subsetD])
qed

lemma smn_reader:
  assumes "length lit < name_size"
    and "\<And>s. f s = do { data \<leftarrow> package_entry ty un lit; (raw, s) \<leftarrow> ReadSmn K (addr s) s;
            Some (case raw of None \<Rightarrow> data | Some raw \<Rightarrow> data\<lparr>data_value := val raw\<rparr>, s) }"
  shows "reads amd_wf aff_log (package_tag ty un lit) f"
  unfolding reads_def
proof (intro allI impI)
  fix s :: "'a amd_st" assume wf: "amd_wf s"
  then have "\<not> smn_mutex s" by (simp add: amd_wf_def)
  then obtain r w where "ReadSmn K (addr s) s = Some (r, s\<lparr>world := w\<rparr>)" by (rule ReadSmn_safe)
  then show "\<exists>d s'. f s = Some (d, s') \<and> amd_wf s' \<and> aff_log s' = aff_log s \<and> tag_of d = package_tag ty un lit"
    using assms wf by (auto simp: package_entry_eq split: option.splits)
qed

lemma amd_package_power_reads:
  "reads amd_wf aff_log (package_tag METRIC_POWER UNIT_MILLIWATTS ''Package Power'') (amd_retPackagePower K)"
  unfolding reads_def
proof (intro allI impI)
  fix s :: "'a amd_st" assume wf: "amd_wf s"
  obtain v1 w1 where 1: "readmsr K AMD_MSR_PKG_ENERGY_STATUS s = Some (v1, s\<lparr>world := w1\<rparr>)"
    using readmsr_total[of K AMD_MSR_PKG_ENERGY_STATUS s] by blast
  obtain v2 w2 where 2: "query_qpc K (s\<lparr>world := w1\<rparr>) = Some (v2, s\<lparr>world := w1\<rparr>\<lparr>world := w2\<rparr>)"
    using query_qpc_total[of K "s\<lparr>world := w1\<rparr>"] by blast
  show "\<exists>d s'. amd_retPackagePower K s = Some (d, s') \<and> amd_wf s' \<and> aff_log s' = aff_log s \<and>
      tag_of d = package_tag METRIC_POWER UNIT_MILLIWATTS ''Package Power''"
    using wf 1 2
    by (simp add: amd_retPackagePower_def package_entry_eq size_simps Let_def)
qed

definition amd_core_tags :: "ULONG \<Rightarrow> tag list" where
  "amd_core_tags i =
     [core_tag METRIC_CLOCK_SPEED UNIT_MHZ ''Clock'' i, core_tag METRIC_LOAD UNIT_PERCENT ''Load'' i,
      core_tag METRIC_POWER UNIT_MILLIWATTS ''Power'' i]"

definition amd_package_tags :: "tag list" where
  "amd_package_tags =
     [package_tag METRIC_TEMP UNIT_DEGREES_C ''Tdie Temp'',
      package_tag METRIC_VOLTAGE UNIT_MILLIVOLTS ''Core Voltage'',
      package_tag METRIC_VOLTAGE UNIT_MILLIVOLTS ''SoC Voltage'',
      package_tag METRIC_POWER UNIT_MILLIWATTS ''Package Power'']"

lemma amd_core_fills: "fills amd_wf aff_log (amd_core_tags i) (ReadPerCoreAmdMetrics K i)"
  unfolding ReadPerCoreAmdMetrics_def amd_core_tags_def
  by (intro fills_collect list_all2_Cons[THEN iffD2] conjI amd_clock_reads amd_load_reads amd_power_reads) simp

lemma amd_aggregate_fills: "fills amd_wf aff_log amd_package_tags (ReadAmdAggregateMetrics K)"
  unfolding ReadAmdAggregateMetrics_def amd_package_tags_def
  by (intro fills_collect list_all2_Cons[THEN iffD2] conjI amd_package_power_reads
        smn_reader[where addr = "\<lambda>_. AMD_THM_TCON_CUR_TEMP_ADDR" and val = amd_tdie_value]
        smn_reader[where addr = g_svi2_core_addr and val = svi2_mv]
        smn_reader[where addr = g_svi2_soc_addr and val = svi2_mv])
     (simp_all add: size_simps amd_retTDieTemp_def amd_retCoreVoltage_def amd_retSoCVoltage_def)

interpretation amd: metric_source K "amd_dev K" amd_wf amd_core_tags amd_package_tags for K :: "'w kernel"
  by unfold_locales
     (simp_all add: amd_core_fills amd_aggregate_fills,
      simp_all add: amd_core_tags_def amd_package_tags_def)

section \<open>Loading the driver\<close>

text \<open>
  \<open>DriverEntry\<close> ends for every machine, with the invariant; it answers success exactly where the
  device is initialised.
\<close>

lemma amd_create_device_post:
  assumes "amd_wdf s = no_objects"
  shows "\<exists>st x w. amd_create_device K s = Some (st, s\<lparr>world := w, amd_wdf := x\<rparr>) \<and>
     p_init x \<noteq> InitLive \<and> (NT_SUCCESS st \<longleftrightarrow> finished_initializing x) \<and> (finished_initializing x \<longrightarrow> queue_live x \<and> dev x)"
proof -
  from create_device_post[of K "world s"] obtain st x w where
    "create_device K no_objects (world s) = Some (st, x, w)" "p_init x \<noteq> InitLive"
    "NT_SUCCESS st \<longleftrightarrow> finished_initializing x" "finished_initializing x \<longrightarrow> queue_live x \<and> dev x"
    by blast
  with assms show ?thesis
    by (intro exI[of _ st] exI[of _ x] exI[of _ w]) (simp add: amd_create_device_def)
qed

lemma amd_wf_wdf [simp]: "amd_wf (s\<lparr>amd_wdf := x\<rparr>) = amd_wf s"
  by (simp add: amd_wf_def split: option.splits)

lemma DetectFeatures_frame [simp]:
  "world (amd_DetectFeatures K s) = world s" "aff_log (amd_DetectFeatures K s) = aff_log s"
  "amd_wdf (amd_DetectFeatures K s) = amd_wdf s" "smn_mutex (amd_DetectFeatures K s) = smn_mutex s"
  "g_core_state (amd_DetectFeatures K s) = g_core_state s" "g_pkg_state (amd_DetectFeatures K s) = g_pkg_state s"
  by (simp_all add: amd_DetectFeatures_def Let_def)

definition svi2_planes :: "'w amd_st \<Rightarrow> ULONG \<times> ULONG" where
  "svi2_planes s = (g_svi2_core_addr s, g_svi2_soc_addr s)"

lemma amd_read_energy_unit_post:
  obtains w p where "amd_read_energy_unit K s = Some (s\<lparr>world := w, g_pkg_state := p\<rparr>)"
    "family (g_amd_info s) < AMD_FAMILY_ZEN \<or> (\<exists>e < 32. energy_unit_divisor p = push_bit e 1)"
proof (cases "family (g_amd_info s) \<ge> AMD_FAMILY_ZEN")
  case True
  obtain r w where 1: "readmsr K AMD_MSR_RAPL_POWER_UNIT s = Some (r, s\<lparr>world := w\<rparr>)"
    using readmsr_total[of K AMD_MSR_RAPL_POWER_UNIT s] by blast
  let ?sh = "unat (ucast (drop_bit 8 (r AND GENMASK 12 8)) :: ULONG)"
  have "?sh < 32" by (subst field_ucast) simp_all
  with True 1 show ?thesis
    by (intro that[where w = w and p = "(g_pkg_state s)\<lparr>energy_unit_divisor := push_bit ?sh 1\<rparr>"])
       (auto simp: amd_read_energy_unit_def simp del: push_bit_of_1)
next
  case False
  then show ?thesis
    by (intro that[where w = "world s" and p = "g_pkg_state s"]) (auto simp: amd_read_energy_unit_def not_le)
qed

lemma amd_allocate_core_state_post:
  obtains w n ok where "amd_allocate_core_state K s = Some (s\<lparr>world := w, g_max_procs := n,
    g_core_state := (if ok then Some (replicate (unat n) zero_core_state) else None)\<rparr>)"
proof -
  let ?s = "s\<lparr>g_max_procs := k_active_procs K (world s)\<rparr>"
  obtain ok w where "lift_world (k_pool_alloc K (ucast (g_max_procs ?s) * amd_core_state_size)) ?s =
      Some (ok, ?s\<lparr>world := w\<rparr>)"
    using lift_world_total[of "k_pool_alloc K (ucast (g_max_procs ?s) * amd_core_state_size)" ?s] by blast
  then show ?thesis
    by (intro that[where w = w and n = "k_active_procs K (world s)" and ok = ok]) (simp add: amd_allocate_core_state_def)
qed

lemma amd_DriverEntry_post:
  "\<exists>st s. amd_DriverEntry K (amd_initial w) = Some (st, s) \<and> amd_wf s \<and>
     p_init (amd_wdf s) \<noteq> InitLive \<and> (NT_SUCCESS st \<longleftrightarrow> finished_initializing (amd_wdf s)) \<and>
     (finished_initializing (amd_wdf s) \<longrightarrow> queue_live (amd_wdf s) \<and> dev (amd_wdf s)) \<and>
     svi2_planes s =
       (if family (DetectAMDModelAndFamily (k_cpuid K w)) \<ge> AMD_FAMILY_ZEN3
        then (AMD_SVI2_PLANE1_ADDR, AMD_SVI2_PLANE0_ADDR) else (AMD_SVI2_PLANE0_ADDR, AMD_SVI2_PLANE1_ADDR)) \<and>
     (family (DetectAMDModelAndFamily (k_cpuid K w)) < AMD_FAMILY_ZEN \<or>
        (\<exists>e < 32. energy_unit_divisor (g_pkg_state s) = push_bit e 1))"
proof -
  let ?s0 = "amd_DetectFeatures K ((amd_initial w)\<lparr>smn_mutex := False\<rparr>)"
  obtain f w1 where 0: "query_qpc_freq K ?s0 = Some (f, ?s0\<lparr>world := w1\<rparr>)"
    using query_qpc_freq_total[of K ?s0] by blast
  let ?s1 = "?s0\<lparr>world := w1, g_qpc_freq := f\<rparr>"
  have info: "g_amd_info ?s1 = DetectAMDModelAndFamily (k_cpuid K w)"
    by (simp add: amd_DetectFeatures_def Let_def cpuid_def[abs_def] amd_initial_def)
  obtain w2 p where 1: "amd_read_energy_unit K ?s1 = Some (?s1\<lparr>world := w2, g_pkg_state := p\<rparr>)"
    "family (g_amd_info ?s1) < AMD_FAMILY_ZEN \<or> (\<exists>e < 32. energy_unit_divisor p = push_bit e 1)"
    by (rule amd_read_energy_unit_post)
  let ?s2 = "?s1\<lparr>world := w2, g_pkg_state := p\<rparr>"
  obtain w3 n ok where 2: "amd_allocate_core_state K ?s2 = Some (?s2\<lparr>world := w3, g_max_procs := n,
    g_core_state := (if ok then Some (replicate (unat n) zero_core_state) else None)\<rparr>)"
    by (rule amd_allocate_core_state_post)
  let ?s3 = "?s2\<lparr>world := w3, g_max_procs := n,
    g_core_state := (if ok then Some (replicate (unat n) zero_core_state) else None)\<rparr>"
  have wf: "amd_wf ?s3" by (simp add: amd_wf_def zero_core_state_def)
  have wdf: "amd_wdf ?s3 = no_objects" by (simp add: amd_initial_def)
  have planes: "svi2_planes ?s3 =
      (if family (DetectAMDModelAndFamily (k_cpuid K w)) \<ge> AMD_FAMILY_ZEN3
        then (AMD_SVI2_PLANE1_ADDR, AMD_SVI2_PLANE0_ADDR) else (AMD_SVI2_PLANE0_ADDR, AMD_SVI2_PLANE1_ADDR))"
    by (simp add: svi2_planes_def amd_DetectFeatures_def Let_def cpuid_def[abs_def] amd_initial_def)
  from amd_create_device_post[OF wdf, of K] obtain st x w' where
    3: "amd_create_device K ?s3 = Some (st, ?s3\<lparr>world := w', amd_wdf := x\<rparr>)" "p_init x \<noteq> InitLive"
      "NT_SUCCESS st \<longleftrightarrow> finished_initializing x" "finished_initializing x \<longrightarrow> queue_live x \<and> dev x"
    by blast
  have run: "amd_DriverEntry K (amd_initial w) = Some (st, ?s3\<lparr>world := w', amd_wdf := x\<rparr>)"
    unfolding amd_DriverEntry_def Let_def 0 by (simp only: bind.bind_lunit prod.case 1 2 3)
  show ?thesis
  proof (intro exI conjI)
    show "amd_DriverEntry K (amd_initial w) = Some (st, ?s3\<lparr>world := w', amd_wdf := x\<rparr>)" by (rule run)
    show "amd_wf (?s3\<lparr>world := w', amd_wdf := x\<rparr>)" using wf by (simp only: amd_wf_env amd_wf_wdf)
  qed (use planes info 1(2) 3 in \<open>simp_all add: svi2_planes_def\<close>)
qed

end
