(* ===== verification/Intel_Driver.thy ===== *)
theory Intel_Driver
  imports Amd_Driver
begin

text \<open>
  The Intel CPU driver, \<open>intel_cpudriver.c\<close> with the constants of \<open>intel_cpudriver.h\<close>. Its
  buffer functions, its handler and its device creation have the same text as the AMD driver's and
  use the same definitions; feature detection, the metrics and the state are its own. Fields and
  functions whose names both drivers use have the prefix \<open>i_\<close> or \<open>intel_\<close>.
\<close>

section \<open>The functions both sources hold\<close>

text \<open>
  \<open>intel_cpudriver.c\<close> has its own copies of these functions, equal character for character to those of
  \<open>amd_cpudriver.c\<close>.
\<close>

abbreviation intel_NonPnpDeviceAdd :: "'w kernel \<Rightarrow> wdf \<Rightarrow> 'w \<Rightarrow> (NTSTATUS \<times> wdf \<times> 'w) option" where
  "intel_NonPnpDeviceAdd \<equiv> NonPnpDeviceAdd"

abbreviation intel_tryAddTelemetryData ::
  "out_buffer \<Rightarrow> ULONG \<Rightarrow> CPU_DATA \<Rightarrow> USHORT \<Rightarrow> (bool \<times> out_buffer) option" where
  "intel_tryAddTelemetryData \<equiv> tryAddTelemetryData"

abbreviation intel_BuildCoreName :: "char list \<Rightarrow> nat \<Rightarrow> ULONG \<Rightarrow> string \<Rightarrow> char list option" where
  "intel_BuildCoreName \<equiv> BuildCoreName"

section \<open>Constants\<close>

definition IA32_THERM_STATUS :: ULONG where "IA32_THERM_STATUS = 0x19C"
definition IA32_THERM_TARGET :: ULONG where "IA32_THERM_TARGET = 0x1A2"
definition IA32_PACKAGE_THERM_STATUS :: ULONG where "IA32_PACKAGE_THERM_STATUS = 0x1B1"
definition MSR_PERF_STATUS :: ULONG where "MSR_PERF_STATUS = 0x198"
definition IA32_PLATFORM_INFO :: ULONG where "IA32_PLATFORM_INFO = 0xCE"
definition MSR_RAPL_POWER_UNIT :: ULONG where "MSR_RAPL_POWER_UNIT = 0x606"
definition MSR_PKG_ENERGY_STATUS :: ULONG where "MSR_PKG_ENERGY_STATUS = 0x611"
definition MSR_PP0_ENERGY_STATUS :: ULONG where "MSR_PP0_ENERGY_STATUS = 0x639"
definition THERM_STATUS_VALID_BIT :: ULONGLONG where "THERM_STATUS_VALID_BIT = push_bit 31 1"
definition CPUID_06H_EAX_DTS_BIT :: ULONG where "CPUID_06H_EAX_DTS_BIT = push_bit 0 1"
definition CPUID_06H_EAX_PKG_THERM_BIT :: ULONG where "CPUID_06H_EAX_PKG_THERM_BIT = push_bit 6 1"
definition INTEL_BUS_CLOCK_MHZ :: ULONG where "INTEL_BUS_CLOCK_MHZ = 100"
definition RAPL_MIN_MODEL :: ULONG where "RAPL_MIN_MODEL = 0x2A"

section \<open>State\<close>

record CORE_DELTA_STATE =
  i_prev_mperf :: ULONGLONG
  i_prev_tsc :: ULONGLONG
  i_valid :: bool

record PKG_DELTA_STATE =
  i_prev_pkg_energy :: ULONG
  i_prev_pkg_qpc :: LARGE_INTEGER
  i_pkg_valid :: bool
  i_prev_pp0_energy :: ULONG
  i_prev_pp0_qpc :: LARGE_INTEGER
  i_pp0_valid :: bool
  i_energy_unit_divisor :: ULONG

record 'w intel_st = "'w kst" +
  i_has_mperf :: bool
  i_has_pkg_therm :: bool
  i_has_rapl :: bool
  i_base_freq_mhz :: ULONG
  i_core_state :: "CORE_DELTA_STATE list option"
  i_pkg_state :: PKG_DELTA_STATE
  i_max_procs :: ULONG
  i_qpc_freq :: LARGE_INTEGER
  intel_wdf :: wdf

definition intel_zero_core :: CORE_DELTA_STATE where
  "intel_zero_core = \<lparr>i_prev_mperf = 0, i_prev_tsc = 0, i_valid = False\<rparr>"

definition intel_zero_pkg :: PKG_DELTA_STATE where
  "intel_zero_pkg = \<lparr>i_prev_pkg_energy = 0, i_prev_pkg_qpc = 0, i_pkg_valid = False,
     i_prev_pp0_energy = 0, i_prev_pp0_qpc = 0, i_pp0_valid = False, i_energy_unit_divisor = 0\<rparr>"

definition intel_initial :: "'w \<Rightarrow> 'w intel_st" where
  "intel_initial w = \<lparr>world = w, aff_log = [], i_has_mperf = False, i_has_pkg_therm = False, i_has_rapl = False,
     i_base_freq_mhz = 0, i_core_state = None, i_pkg_state = intel_zero_pkg, i_max_procs = 0, i_qpc_freq = 0,
     intel_wdf = no_objects\<rparr>"

section \<open>Feature detection and lifecycle\<close>

text \<open>\<open>family == 6 && model >= RAPL_MIN_MODEL\<close> on leaf 1.\<close>

definition intel_detect_rapl :: "cpu_regs \<Rightarrow> bool" where
  "intel_detect_rapl info =
     (let r = (scast (eax info) :: ULONGLONG);
          family = (ucast (drop_bit 8 (r AND GENMASK 11 8)) :: ULONG);
          ext_model = (ucast (drop_bit 16 (r AND GENMASK 19 16)) :: ULONG);
          base_model = (ucast (drop_bit 4 (r AND GENMASK 7 4)) :: ULONG);
          model = push_bit 4 ext_model OR base_model
      in family = 6 \<and> model \<ge> RAPL_MIN_MODEL)"

definition intel_DetectFeatures :: "'w kernel \<Rightarrow> 'w intel_st \<Rightarrow> 'w intel_st option" where
  "intel_DetectFeatures K s = do {
     let info = cpuid K s CPUID_THERM_POWER_LEAF;
     let s = s\<lparr>i_has_mperf := (ecx info AND CPUID_06H_ECX_MPERF_BIT \<noteq> 0),
               i_has_pkg_therm := (eax info AND CPUID_06H_EAX_PKG_THERM_BIT \<noteq> 0)\<rparr>;
     let s = s\<lparr>i_has_rapl := intel_detect_rapl (cpuid K s 0x01)\<rparr>;
     (platform_info, s) \<leftarrow> readmsr K IA32_PLATFORM_INFO s;
     Some (s\<lparr>i_base_freq_mhz := ucast (drop_bit 8 (platform_info AND GENMASK 15 8) * ucast INTEL_BUS_CLOCK_MHZ)\<rparr>)
   }"

text \<open>\<open>sizeof(CORE_DELTA_STATE)\<close>: two 8-byte counters and a padded flag.\<close>

definition intel_core_state_size :: ULONGLONG where
  "intel_core_state_size = 24"

definition intel_read_energy_unit :: "'w kernel \<Rightarrow> 'w intel_st \<Rightarrow> 'w intel_st option" where
  "intel_read_energy_unit K s =
     (if i_has_rapl s
      then do {
        (rapl_unit, s) \<leftarrow> readmsr K MSR_RAPL_POWER_UNIT s;
        let energy_unit_shift = (ucast (drop_bit 8 (rapl_unit AND GENMASK 12 8)) :: ULONG);
        Some (s\<lparr>i_pkg_state := (i_pkg_state s)\<lparr>i_energy_unit_divisor := push_bit (unat energy_unit_shift) 1\<rparr>\<rparr>)
      }
      else Some s)"

definition intel_allocate_core_state :: "'w kernel \<Rightarrow> 'w intel_st \<Rightarrow> 'w intel_st option" where
  "intel_allocate_core_state K s = do {
     let s = s\<lparr>i_max_procs := k_active_procs K (world s)\<rparr>;
     if i_has_mperf s
     then do {
       (ok, s) \<leftarrow> lift_world (k_pool_alloc K (ucast (i_max_procs s) * intel_core_state_size)) s;
       Some (s\<lparr>i_core_state := (if ok then Some (replicate (unat (i_max_procs s)) intel_zero_core) else None)\<rparr>)
     }
     else Some s
   }"

definition intel_create_device :: "'w kernel \<Rightarrow> 'w intel_st \<Rightarrow> (NTSTATUS \<times> 'w intel_st) option" where
  "intel_create_device K s = do {
     (status, x, w) \<leftarrow> create_device K (intel_wdf s) (world s);
     Some (status, s\<lparr>world := w, intel_wdf := x\<rparr>)
   }"

definition intel_DriverEntry :: "'w kernel \<Rightarrow> 'w intel_st \<Rightarrow> (NTSTATUS \<times> 'w intel_st) option" where
  "intel_DriverEntry K s = do {
     s \<leftarrow> intel_DetectFeatures K s;
     (freq, s) \<leftarrow> query_qpc_freq K s;
     s \<leftarrow> intel_read_energy_unit K (s\<lparr>i_qpc_freq := freq\<rparr>);
     s \<leftarrow> intel_allocate_core_state K s;
     intel_create_device K s
   }"

definition intel_EvtDriverUnload :: "'w intel_st \<Rightarrow> 'w intel_st" where
  "intel_EvtDriverUnload s =
     (let s = (if i_core_state s \<noteq> None then s\<lparr>i_core_state := None\<rparr> else s)
      in if dev (intel_wdf s)
         then s\<lparr>intel_wdf := (intel_wdf s)\<lparr>dev := False, device_live := False, symlink_live := False,
                                           queue_live := False\<rparr>\<rparr>
         else s)"

section \<open>Metrics of a processor\<close>

text \<open>The temperature below \<open>TjMax\<close>: 0 where the offset exceeds it.\<close>

definition temperature_of :: "ULONGLONG \<Rightarrow> ULONGLONG \<Rightarrow> ULONG" where
  "temperature_of therm_target therm_status =
     (let temp_max = (ucast (drop_bit 16 (therm_target AND GENMASK 23 16)) :: ULONG);
          temp_offset = (ucast (drop_bit 16 (therm_status AND GENMASK 22 16)) :: ULONG)
      in if temp_offset \<le> temp_max then temp_max - temp_offset else 0)"

definition intel_retCoreTemp :: "'w kernel \<Rightarrow> ULONG \<Rightarrow> 'w intel_st metric_reader" where
  "intel_retCoreTemp K cpu_idx s = do {
     data \<leftarrow> core_entry cpu_idx METRIC_TEMP UNIT_DEGREES_C ''Temp'';
     if eax (cpuid K s CPUID_THERM_POWER_LEAF) AND CPUID_06H_EAX_DTS_BIT = 0 then Some (data, s)
     else do {
       (therm_status, s) \<leftarrow> readmsr K IA32_THERM_STATUS s;
       if therm_status AND THERM_STATUS_VALID_BIT = 0 then Some (data, s)
       else do {
         (therm_target, s) \<leftarrow> readmsr K IA32_THERM_TARGET s;
         Some (data\<lparr>data_value := temperature_of therm_target therm_status\<rparr>, s)
       }
     }
   }"

definition intel_vid_mv :: "ULONGLONG \<Rightarrow> ULONG" where
  "intel_vid_mv perf_status =
     (let vid_bits = (ucast (drop_bit 32 (perf_status AND GENMASK 47 32)) :: ULONG)
      in drop_bit 13 (vid_bits * 1000 + push_bit 12 1))"

definition intel_retCoreVID :: "'w kernel \<Rightarrow> ULONG \<Rightarrow> 'w intel_st metric_reader" where
  "intel_retCoreVID K cpu_idx s = do {
     data \<leftarrow> core_entry cpu_idx METRIC_VOLTAGE UNIT_MILLIVOLTS ''VID'';
     (perf_status, s) \<leftarrow> readmsr K MSR_PERF_STATUS s;
     Some (data\<lparr>data_value := intel_vid_mv perf_status\<rparr>, s)
   }"

definition intel_retCoreClockSpeed :: "'w kernel \<Rightarrow> ULONG \<Rightarrow> 'w intel_st metric_reader" where
  "intel_retCoreClockSpeed K cpu_idx s = do {
     data \<leftarrow> core_entry cpu_idx METRIC_CLOCK_SPEED UNIT_MHZ ''Clock'';
     (perf_status, s) \<leftarrow> readmsr K MSR_PERF_STATUS s;
     let pstate_ratio = (ucast (drop_bit 8 (perf_status AND GENMASK 15 8)) :: ULONG);
     Some (data\<lparr>data_value := pstate_ratio * INTEL_BUS_CLOCK_MHZ\<rparr>, s)
   }"

definition intel_retCoreLoad :: "'w kernel \<Rightarrow> ULONG \<Rightarrow> 'w intel_st metric_reader" where
  "intel_retCoreLoad K cpu_idx s = do {
     data \<leftarrow> core_entry cpu_idx METRIC_LOAD UNIT_PERCENT ''Load'';
     case i_core_state s of
       None \<Rightarrow> Some (data, s)
     | Some _ \<Rightarrow>
       if \<not> i_has_mperf s \<or> cpu_idx \<ge> i_max_procs s then Some (data, s)
       else do {
         (curr_mperf, s) \<leftarrow> readmsr K IA32_MPERF s;
         (curr_tsc, s) \<leftarrow> rdtsc K s;
         cs \<leftarrow> i_core_state s;
         st \<leftarrow> (if unat cpu_idx < length cs then Some (cs ! unat cpu_idx) else None);
         let mperf_delta = curr_mperf - i_prev_mperf st;
         let tsc_delta = curr_tsc - i_prev_tsc st;
         let data = (if i_valid st \<and> tsc_delta > 0
                     then data\<lparr>data_value := load_of mperf_delta tsc_delta\<rparr> else data);
         let st = st\<lparr>i_prev_mperf := curr_mperf, i_prev_tsc := curr_tsc, i_valid := True\<rparr>;
         Some (data, s\<lparr>i_core_state := Some (cs[unat cpu_idx := st])\<rparr>)
       }
   }"

section \<open>Metrics of the package\<close>

definition intel_retTDieTemp :: "'w kernel \<Rightarrow> 'w intel_st metric_reader" where
  "intel_retTDieTemp K s = do {
     data \<leftarrow> package_entry METRIC_TEMP UNIT_DEGREES_C ''Package Temp'';
     (pkg_therm, s) \<leftarrow> readmsr K IA32_PACKAGE_THERM_STATUS s;
     if pkg_therm AND THERM_STATUS_VALID_BIT = 0 then Some (data, s)
     else do {
       (therm_target, s) \<leftarrow> readmsr K IA32_THERM_TARGET s;
       Some (data\<lparr>data_value := temperature_of therm_target pkg_therm\<rparr>, s)
     }
   }"

text \<open>
  \<open>ComputePowerMilliwatts\<close>, with the early returns of 0. It reads the divisor and the frequency of
  the globals, which are its first two arguments.
\<close>

definition ComputePowerMilliwatts ::
  "ULONG \<Rightarrow> LARGE_INTEGER \<Rightarrow> ULONG \<Rightarrow> ULONG \<Rightarrow> LARGE_INTEGER \<Rightarrow> LARGE_INTEGER \<Rightarrow> bool \<Rightarrow> ULONG" where
  "ComputePowerMilliwatts divisor freq curr_energy prev_energy curr_qpc prev_qpc has_prev =
     (if \<not> has_prev \<or> divisor = 0 \<or> freq = 0 then 0
      else let energy_delta = energy_delta_of curr_energy prev_energy;
               time_ms = elapsed_ms freq curr_qpc prev_qpc
           in if time_ms = 0 then 0 else power_of energy_delta divisor time_ms)"

definition intel_retPackagePower :: "'w kernel \<Rightarrow> 'w intel_st metric_reader" where
  "intel_retPackagePower K s = do {
     data \<leftarrow> package_entry METRIC_POWER UNIT_MILLIWATTS ''Package Power'';
     (energy, s) \<leftarrow> readmsr K MSR_PKG_ENERGY_STATUS s;
     let curr_energy = (ucast (energy AND GENMASK 31 0) :: ULONG);
     (curr_qpc, s) \<leftarrow> query_qpc K s;
     let st = i_pkg_state s;
     let data = data\<lparr>data_value := ComputePowerMilliwatts (i_energy_unit_divisor st) (i_qpc_freq s)
                  curr_energy (i_prev_pkg_energy st) curr_qpc (i_prev_pkg_qpc st) (i_pkg_valid st)\<rparr>;
     Some (data, s\<lparr>i_pkg_state := st\<lparr>i_prev_pkg_energy := curr_energy, i_prev_pkg_qpc := curr_qpc,
                                     i_pkg_valid := True\<rparr>\<rparr>)
   }"

definition intel_retCoreDomainPower :: "'w kernel \<Rightarrow> 'w intel_st metric_reader" where
  "intel_retCoreDomainPower K s = do {
     data \<leftarrow> package_entry METRIC_POWER UNIT_MILLIWATTS ''Core Domain Power'';
     (energy, s) \<leftarrow> readmsr K MSR_PP0_ENERGY_STATUS s;
     let curr_energy = (ucast (energy AND GENMASK 31 0) :: ULONG);
     (curr_qpc, s) \<leftarrow> query_qpc K s;
     let st = i_pkg_state s;
     let data = data\<lparr>data_value := ComputePowerMilliwatts (i_energy_unit_divisor st) (i_qpc_freq s)
                  curr_energy (i_prev_pp0_energy st) curr_qpc (i_prev_pp0_qpc st) (i_pp0_valid st)\<rparr>;
     Some (data, s\<lparr>i_pkg_state := st\<lparr>i_prev_pp0_energy := curr_energy, i_prev_pp0_qpc := curr_qpc,
                                     i_pp0_valid := True\<rparr>\<rparr>)
   }"

section \<open>Collecting, and the request handler\<close>

definition ReadPerCoreIntelMetrics :: "'w kernel \<Rightarrow> ULONG \<Rightarrow> 'w intel_st metric_filler" where
  "ReadPerCoreIntelMetrics K cpu_idx =
     collect [intel_retCoreTemp K cpu_idx, intel_retCoreVID K cpu_idx, intel_retCoreClockSpeed K cpu_idx,
              intel_retCoreLoad K cpu_idx]"

text \<open>\<open>if (flag) { ... }\<close> around a group of metrics, \<open>flag\<close> a global.\<close>

definition when_flag :: "('s \<Rightarrow> bool) \<Rightarrow> 's metric_filler \<Rightarrow> 's metric_filler" where
  "when_flag p f buffer cap idx s = (if p s then f buffer cap idx s else collect [] buffer cap idx s)"

definition ReadIntelAggregateMetrics :: "'w kernel \<Rightarrow> 'w intel_st metric_filler" where
  "ReadIntelAggregateMetrics K =
     and_then (when_flag i_has_pkg_therm (collect [intel_retTDieTemp K]))
              (when_flag i_has_rapl (collect [intel_retPackagePower K, intel_retCoreDomainPower K]))"

definition intel_dev where
  "intel_dev K = \<lparr>dev_vendor = CPU_VENDOR_INTEL, METRICS_PER_CORE = 4, METRICS_AGGREGATE = 3,
     read_core = ReadPerCoreIntelMetrics K, read_aggregate = ReadIntelAggregateMetrics K\<rparr>"

lemma intel_dev_fields [simp]:
  "dev_vendor (intel_dev K) = CPU_VENDOR_INTEL" "METRICS_PER_CORE (intel_dev K) = 4" "METRICS_AGGREGATE (intel_dev K) = 3"
  "read_core (intel_dev K) = ReadPerCoreIntelMetrics K" "read_aggregate (intel_dev K) = ReadIntelAggregateMetrics K"
  by (simp_all add: intel_dev_def)

definition intel_EvtIoDeviceControl ::
  "'w kernel \<Rightarrow> ULONGLONG \<Rightarrow> ULONG \<Rightarrow> out_buffer \<Rightarrow> 'w intel_st \<Rightarrow> ((completion \<times> out_buffer) \<times> 'w intel_st) option" where
  "intel_EvtIoDeviceControl K = ioctl_handler K (intel_dev K)"

section \<open>The invariant and the interface\<close>

text \<open>
  The array of the per-core state has \<open>g_max_procs\<close> entries; the two flags that decide which
  package metrics there are stay what they were when the driver was loaded.
\<close>

definition intel_wf :: "bool \<Rightarrow> bool \<Rightarrow> 'w intel_st \<Rightarrow> bool" where
  "intel_wf therm rapl s \<longleftrightarrow> i_has_pkg_therm s = therm \<and> i_has_rapl s = rapl \<and>
     (\<forall>cs. i_core_state s = Some cs \<longrightarrow> length cs = unat (i_max_procs s))"

lemma intel_wf_env [simp]:
  "intel_wf t r (s\<lparr>world := w\<rparr>) = intel_wf t r s" "intel_wf t r (s\<lparr>aff_log := l\<rparr>) = intel_wf t r s"
  "intel_wf t r (s\<lparr>i_pkg_state := p\<rparr>) = intel_wf t r s" "intel_wf t r (s\<lparr>intel_wdf := x\<rparr>) = intel_wf t r s"
  by (simp_all add: intel_wf_def)

lemma intel_reads_msr:
  assumes "\<And>s. f s = do { data \<leftarrow> Some (with_tag t); (v, s) \<leftarrow> readmsr K a s; Some (data\<lparr>data_value := val v\<rparr>, s) }"
  shows "reads (intel_wf th ra) aff_log t f"
  unfolding reads_def
proof (intro allI impI)
  fix s :: "'a intel_st" assume wf: "intel_wf th ra s"
  obtain v w where "readmsr K a s = Some (v, s\<lparr>world := w\<rparr>)" using readmsr_total[of K a s] by blast
  with wf show "\<exists>d s'. f s = Some (d, s') \<and> intel_wf th ra s' \<and> aff_log s' = aff_log s \<and> tag_of d = t"
    by (simp add: assms)
qed

lemma intel_temp_reads:
  "reads (intel_wf th ra) aff_log (core_tag METRIC_TEMP UNIT_DEGREES_C ''Temp'' i) (intel_retCoreTemp K i)"
  unfolding reads_def
proof (intro allI impI)
  fix s :: "'a intel_st" assume wf: "intel_wf th ra s"
  obtain v1 w1 where 1: "readmsr K IA32_THERM_STATUS s = Some (v1, s\<lparr>world := w1\<rparr>)"
    using readmsr_total[of K IA32_THERM_STATUS s] by blast
  obtain v2 w2 where 2: "readmsr K IA32_THERM_TARGET (s\<lparr>world := w1\<rparr>) = Some (v2, s\<lparr>world := w1\<rparr>\<lparr>world := w2\<rparr>)"
    using readmsr_total[of K IA32_THERM_TARGET "s\<lparr>world := w1\<rparr>"] by blast
  show "\<exists>d s'. intel_retCoreTemp K i s = Some (d, s') \<and> intel_wf th ra s' \<and> aff_log s' = aff_log s \<and>
      tag_of d = core_tag METRIC_TEMP UNIT_DEGREES_C ''Temp'' i"
    using wf 1 2 by (simp add: intel_retCoreTemp_def core_entries)
qed

lemma intel_tdie_reads:
  "reads (intel_wf th ra) aff_log (package_tag METRIC_TEMP UNIT_DEGREES_C ''Package Temp'') (intel_retTDieTemp K)"
  unfolding reads_def
proof (intro allI impI)
  fix s :: "'a intel_st" assume wf: "intel_wf th ra s"
  obtain v1 w1 where 1: "readmsr K IA32_PACKAGE_THERM_STATUS s = Some (v1, s\<lparr>world := w1\<rparr>)"
    using readmsr_total[of K IA32_PACKAGE_THERM_STATUS s] by blast
  obtain v2 w2 where 2: "readmsr K IA32_THERM_TARGET (s\<lparr>world := w1\<rparr>) = Some (v2, s\<lparr>world := w1\<rparr>\<lparr>world := w2\<rparr>)"
    using readmsr_total[of K IA32_THERM_TARGET "s\<lparr>world := w1\<rparr>"] by blast
  show "\<exists>d s'. intel_retTDieTemp K s = Some (d, s') \<and> intel_wf th ra s' \<and> aff_log s' = aff_log s \<and>
      tag_of d = package_tag METRIC_TEMP UNIT_DEGREES_C ''Package Temp''"
    using wf 1 2 by (simp add: intel_retTDieTemp_def package_entry_eq size_simps)
qed

lemma intel_load_reads:
  "reads (intel_wf th ra) aff_log (core_tag METRIC_LOAD UNIT_PERCENT ''Load'' i) (intel_retCoreLoad K i)"
  unfolding reads_def
proof (intro allI impI)
  fix s :: "'a intel_st" assume wf: "intel_wf th ra s"
  obtain v1 w1 where 1: "readmsr K IA32_MPERF s = Some (v1, s\<lparr>world := w1\<rparr>)"
    using readmsr_total[of K IA32_MPERF s] by blast
  obtain v2 w2 where 2: "rdtsc K (s\<lparr>world := w1\<rparr>) = Some (v2, s\<lparr>world := w1\<rparr>\<lparr>world := w2\<rparr>)"
    using rdtsc_total[of K "s\<lparr>world := w1\<rparr>"] by blast
  show "\<exists>d s'. intel_retCoreLoad K i s = Some (d, s') \<and> intel_wf th ra s' \<and> aff_log s' = aff_log s \<and>
      tag_of d = core_tag METRIC_LOAD UNIT_PERCENT ''Load'' i"
    using wf 1 2
    by (cases "i_core_state s")
       (auto simp: intel_retCoreLoad_def core_entries Let_def intel_wf_def word_less_nat_alt not_le)
qed

lemma intel_power_reads:
  "reads (intel_wf th ra) aff_log (package_tag METRIC_POWER UNIT_MILLIWATTS ''Package Power'') (intel_retPackagePower K)"
  "reads (intel_wf th ra) aff_log (package_tag METRIC_POWER UNIT_MILLIWATTS ''Core Domain Power'') (intel_retCoreDomainPower K)"
proof -
  have msr: "\<exists>v w. readmsr K a s = Some (v, s\<lparr>world := w\<rparr>)" for a and s :: "'a intel_st" by (rule readmsr_total)
  have qpc: "\<exists>v w. query_qpc K s = Some (v, s\<lparr>world := w\<rparr>)" for s :: "'a intel_st" by (rule query_qpc_total)
  have run: "\<exists>v1 w1 v2 w2. readmsr K a s = Some (v1, s\<lparr>world := w1\<rparr>) \<and>
      query_qpc K (s\<lparr>world := w1\<rparr>) = Some (v2, s\<lparr>world := w2\<rparr>)" for a and s :: "'a intel_st"
    using msr[of a s] qpc[of "s\<lparr>world := w\<rparr>" for w] by fastforce
  show "reads (intel_wf th ra) aff_log (package_tag METRIC_POWER UNIT_MILLIWATTS ''Package Power'') (intel_retPackagePower K)"
    unfolding reads_def
  proof (intro allI impI)
    fix s :: "'a intel_st" assume "intel_wf th ra s"
    with run[of MSR_PKG_ENERGY_STATUS s]
    show "\<exists>d s'. intel_retPackagePower K s = Some (d, s') \<and> intel_wf th ra s' \<and> aff_log s' = aff_log s \<and>
        tag_of d = package_tag METRIC_POWER UNIT_MILLIWATTS ''Package Power''"
      by (auto simp: intel_retPackagePower_def package_entry_eq size_simps Let_def)
  qed
  show "reads (intel_wf th ra) aff_log (package_tag METRIC_POWER UNIT_MILLIWATTS ''Core Domain Power'') (intel_retCoreDomainPower K)"
    unfolding reads_def
  proof (intro allI impI)
    fix s :: "'a intel_st" assume "intel_wf th ra s"
    with run[of MSR_PP0_ENERGY_STATUS s]
    show "\<exists>d s'. intel_retCoreDomainPower K s = Some (d, s') \<and> intel_wf th ra s' \<and> aff_log s' = aff_log s \<and>
        tag_of d = package_tag METRIC_POWER UNIT_MILLIWATTS ''Core Domain Power''"
      by (auto simp: intel_retCoreDomainPower_def package_entry_eq size_simps Let_def)
  qed
qed

definition intel_core_tags :: "ULONG \<Rightarrow> tag list" where
  "intel_core_tags i =
     [core_tag METRIC_TEMP UNIT_DEGREES_C ''Temp'' i, core_tag METRIC_VOLTAGE UNIT_MILLIVOLTS ''VID'' i,
      core_tag METRIC_CLOCK_SPEED UNIT_MHZ ''Clock'' i, core_tag METRIC_LOAD UNIT_PERCENT ''Load'' i]"

definition intel_package_tags :: "bool \<Rightarrow> bool \<Rightarrow> tag list" where
  "intel_package_tags therm rapl =
     (if therm then [package_tag METRIC_TEMP UNIT_DEGREES_C ''Package Temp''] else []) @
     (if rapl then [package_tag METRIC_POWER UNIT_MILLIWATTS ''Package Power'',
                    package_tag METRIC_POWER UNIT_MILLIWATTS ''Core Domain Power''] else [])"

lemma intel_core_fills: "fills (intel_wf th ra) aff_log (intel_core_tags i) (ReadPerCoreIntelMetrics K i)"
  unfolding ReadPerCoreIntelMetrics_def intel_core_tags_def
  by (intro fills_collect list_all2_Cons[THEN iffD2] conjI intel_temp_reads intel_load_reads
        intel_reads_msr[where K = K and a = MSR_PERF_STATUS and val = intel_vid_mv]
        intel_reads_msr[where K = K and a = MSR_PERF_STATUS
          and val = "\<lambda>v. ucast (drop_bit 8 (v AND GENMASK 15 8)) * INTEL_BUS_CLOCK_MHZ"])
     (simp_all add: intel_retCoreVID_def intel_retCoreClockSpeed_def core_entries Let_def)

lemma fills_when_flag:
  assumes "\<And>s. Q s \<Longrightarrow> p s = b" and "fills Q lg ts f"
  shows "fills Q lg (if b then ts else []) (when_flag p f)"
proof (cases b)
  case True
  with assms show ?thesis unfolding fills_def when_flag_def by simp
next
  case False
  with assms(1) fills_Nil[of Q lg] show ?thesis unfolding fills_def when_flag_def by simp
qed

lemma intel_aggregate_fills:
  "fills (intel_wf th ra) aff_log (intel_package_tags th ra) (ReadIntelAggregateMetrics K)"
  unfolding ReadIntelAggregateMetrics_def intel_package_tags_def
  by (intro fills_and_then fills_when_flag fills_collect list_all2_Cons[THEN iffD2] conjI
        intel_tdie_reads intel_power_reads) (simp_all add: intel_wf_def)

interpretation intel: metric_source K "intel_dev K" "intel_wf therm rapl" intel_core_tags
  "intel_package_tags therm rapl" for K :: "'w kernel" and therm rapl
  by unfold_locales
     (simp_all add: intel_core_fills intel_aggregate_fills,
      simp_all add: intel_core_tags_def intel_package_tags_def)

end
