(* ===== verification/Amd_Properties.thy ===== *)
theory Amd_Properties
  imports Amd_Driver
begin

text \<open>
  What the AMD driver guarantees: every request to a loaded driver is answered within its buffer,
  what a successful answer holds, the size handshake, and the values of the metrics.
\<close>

text \<open>
  C24: Loading the AMD driver ends on every machine, without a fault: \<open>DriverEntry\<close> returns a
  status, frees or hands over its device initialisation, answers success exactly where the control
  device is announced as initialised, establishes the invariant, and assigns the two SVI2 planes by
  the processor family, to different addresses; from Zen on the energy unit divisor is a power of two.
\<close>

theorem amd_DriverEntry_establishes:
  "\<exists>st s. amd_DriverEntry K (amd_initial w) = Some (st, s) \<and> amd_wf s \<and>
     p_init (amd_wdf s) \<noteq> InitLive \<and> (NT_SUCCESS st \<longleftrightarrow> finished_initializing (amd_wdf s)) \<and>
     (NT_SUCCESS st \<longleftrightarrow> finished_initializing (amd_wdf s) \<and> queue_live (amd_wdf s) \<and> dev (amd_wdf s)) \<and>
     svi2_planes s =
       (if family (DetectAMDModelAndFamily (k_cpuid K w)) \<ge> AMD_FAMILY_ZEN3
        then (AMD_SVI2_PLANE1_ADDR, AMD_SVI2_PLANE0_ADDR) else (AMD_SVI2_PLANE0_ADDR, AMD_SVI2_PLANE1_ADDR)) \<and>
     (family (DetectAMDModelAndFamily (k_cpuid K w)) < AMD_FAMILY_ZEN \<or>
        (\<exists>e < 32. energy_unit_divisor (g_pkg_state s) = push_bit e 1))"
  using amd_DriverEntry_post[of K w] by (elim ex_forward) blast

section \<open>The loaded driver\<close>

text \<open>
  The states of a loaded driver: after a successful \<open>DriverEntry\<close>; after any change of the machine
  between two requests; and after a request.
\<close>

inductive amd_running :: "'w kernel \<Rightarrow> 'w amd_st \<Rightarrow> bool" for K where
  loaded: "amd_DriverEntry K (amd_initial w) = Some (st, s) \<Longrightarrow> NT_SUCCESS st \<Longrightarrow> amd_running K s"
| machine: "amd_running K s \<Longrightarrow> amd_running K (s\<lparr>world := w\<rparr>)"
| request: "amd_running K s \<Longrightarrow> buffer_of_size L b \<Longrightarrow>
     amd_EvtIoDeviceControl K L code b s = Some (r, s') \<Longrightarrow> amd_running K s'"

lemma amd_handler_safe:
  assumes "amd_wf s" and "buffer_of_size L b"
  shows "\<exists>c b' s' cs. amd_EvtIoDeviceControl K L code b s = Some ((c, b'), s') \<and> amd_wf s' \<and>
     buffer_of_size L b' \<and> unat (completion_bytes c) \<le> unat L \<and> aff_log s' = aff_log s @ cs \<and> restoring cs"
  unfolding amd_EvtIoDeviceControl_def by (rule amd.handler_safe[OF assms])

lemma amd_DriverEntry_wf: "amd_DriverEntry K (amd_initial w) = Some (st, s) \<Longrightarrow> amd_wf s"
  using amd_DriverEntry_post[of K w] by auto

lemma amd_running_wf: "amd_running K s \<Longrightarrow> amd_wf s"
proof (induction rule: amd_running.induct)
  case (request s L b code r s')
  from amd_handler_safe[OF request.IH request.hyps(2), of K code] request.hyps(3) show ?case
    by auto
qed (auto simp: amd_DriverEntry_wf)

lemma amd_sample_loads:
  "\<exists>s. amd_DriverEntry (sample_kernel amd_leaf0 2) (amd_initial 0) = Some (STATUS_SUCCESS, s)"
  by (simp add: amd_DriverEntry_def amd_initial_def sample_kernel_def amd_DetectFeatures_def
      DetectAMDModelAndFamily_def amd_read_energy_unit_def amd_allocate_core_state_def add_END_def
      env_defs lift_world_def Let_def amd_create_device_def create_device_def NonPnpDeviceAdd_def use_init_def no_objects_def)

lemma amd_sample_running: "\<exists>s. amd_running (sample_kernel amd_leaf0 2) s"
  using amd_sample_loads by (auto intro: amd_running.loaded[OF _ success_is_success])

definition zeroed_buffer :: "ULONGLONG \<Rightarrow> out_buffer" where
  "zeroed_buffer L = \<lparr>header = \<lparr>required_size = 0, processor_count = 0, entry_count = 0\<rparr>,
     slots = replicate (slot_capacity L) zero_data\<rparr>"

lemma zeroed_buffer_size [simp]: "buffer_of_size L (zeroed_buffer L)"
  by (simp add: buffer_of_size_def zeroed_buffer_def)

text \<open>
  C4: Every request to the loaded AMD driver is answered, whatever its control code and buffer size
  and in whatever state the machine is: the handler writes only inside the request's buffer, never
  blocks on its own mutex (both would be \<open>None\<close>), reports at most as many bytes as the buffer has,
  leaves the mutex free, and restores the thread's processor affinity to what it was before its
  first change.
\<close>

theorem amd_request_safe:
  assumes "amd_running K s" and "buffer_of_size L b"
  shows "\<exists>c b' s' cs. amd_EvtIoDeviceControl K L code b s = Some ((c, b'), s') \<and>
     buffer_of_size L b' \<and> unat (completion_bytes c) \<le> unat L \<and> \<not> smn_mutex s' \<and>
     aff_log s' = aff_log s @ cs \<and> restoring cs"
  using amd_handler_safe[OF amd_running_wf[OF assms(1)] assms(2), of K code]
  by (auto simp: amd_wf_def)

lemma amd_request_safe_witness:
  "\<exists>s c b' s'. amd_EvtIoDeviceControl (sample_kernel amd_leaf0 2) 1000 IOCTL_GET_DATA (zeroed_buffer 1000) s
     = Some ((c, b'), s') \<and> unat (completion_bytes c) \<le> 1000"
proof -
  from amd_sample_running obtain s where "amd_running (sample_kernel amd_leaf0 2) s" by blast
  from amd_request_safe[OF this zeroed_buffer_size, of 1000 IOCTL_GET_DATA] show ?thesis
    by auto
qed

section \<open>What an answer holds\<close>

lemma amd_announced: "metric_source.announced (amd_dev K) n = 3 * unat n + 4"
  by (simp add: amd.announced_def)

text \<open>The entries of an answer for \<open>n\<close> processors, in order.\<close>

definition amd_entries :: "ULONG \<Rightarrow> tag list" where
  "amd_entries n = concat (map amd_core_tags (proc_indices n)) @ amd_package_tags"

lemma amd_delivered: "amd.delivered n = amd_entries n"
  by (simp add: amd.delivered_def amd_entries_def)

lemma length_amd_entries: "length (amd_entries n) = 3 * unat n + 4"
proof -
  have "length (concat (map amd_core_tags js)) = 3 * length js" for js
    by (induction js) (simp_all add: amd_core_tags_def)
  then show ?thesis
    by (simp add: amd_entries_def amd_package_tags_def length_proc_indices)
qed

lemma amd_delivers:
  assumes "amd_running K s" and "buffer_of_size L b" and "n = k_active_procs K (world s)"
    and "3 * unat n + 4 < 2 ^ 16" and "header_size + (3 * unat n + 4) * entry_size \<le> unat L" and "unat L < 2 ^ 32"
    and "\<And>w i. i \<in> set (proc_indices n) \<Longrightarrow> k_proc_number K w i \<noteq> None"
    and "k_retrieve_output K (word_of_nat header_size) L (world s) = (status, w)" and "NT_SUCCESS status"
    and "DetectCpuVendor (k_cpuid K w) = CPU_VENDOR_AMD"
  shows "\<exists>b' s'. amd_EvtIoDeviceControl K L IOCTL_GET_DATA b s =
        Some ((CompleteWithInformation STATUS_SUCCESS
                 (word_of_nat (header_size + (3 * unat n + 4) * entry_size)), b'), s') \<and>
     processor_count (header b') = n \<and> entry_count (header b') = word_of_nat (3 * unat n + 4) \<and>
     map tag_of (take (3 * unat n + 4) (slots b')) = amd_entries n"
proof -
  have wf: "amd_wf s" by (rule amd_running_wf[OF assms(1)])
  have known: "metric_source.known K i" if "i \<in> set (proc_indices (k_active_procs K (world s)))" for i
    using assms(3,7) that by (auto simp: amd.known_def)
  show ?thesis
    using amd.handler_success[OF wf assms(2) _ _ assms(6) known assms(8,9)] assms(3-5,10)
    by (auto simp: amd_EvtIoDeviceControl_def amd_announced amd_delivered length_amd_entries
        amd.fresh_header_def)
qed

text \<open>
  C14: A request for the data whose buffer has at least the announced size is answered with success:
  the header counts the processors and the entries, the reported length is exactly that of header and
  entries, and the entries are, in this order, clock, load and power of every processor from 0 on,
  each with its name, type, unit and processor number, then the four package metrics.
\<close>

theorem amd_request_delivers:
  assumes "amd_running K s" and "buffer_of_size L b" and "n = k_active_procs K (world s)"
    and "3 * unat n + 4 < 2 ^ 16" and "header_size + (3 * unat n + 4) * entry_size \<le> unat L" and "unat L < 2 ^ 32"
    and "\<And>w i. i \<in> set (proc_indices n) \<Longrightarrow> k_proc_number K w i \<noteq> None"
    and "k_retrieve_output K (word_of_nat header_size) L (world s) = (status, w)" and "NT_SUCCESS status"
    and "DetectCpuVendor (k_cpuid K w) = CPU_VENDOR_AMD"
  shows "\<exists>b' s'. amd_EvtIoDeviceControl K L IOCTL_GET_DATA b s =
        Some ((CompleteWithInformation STATUS_SUCCESS
                 (word_of_nat (header_size + (3 * unat n + 4) * entry_size)), b'), s') \<and>
     processor_count (header b') = n \<and> entry_count (header b') = word_of_nat (3 * unat n + 4) \<and>
     map tag_of (take (3 * unat n + 4) (slots b')) = amd_entries n"
  using assms by (rule amd_delivers)

lemma sample_is_amd: "DetectCpuVendor (k_cpuid (sample_kernel amd_leaf0 n) w) = CPU_VENDOR_AMD"
  by (simp add: DetectCpuVendor_regs sample_kernel_def amd_leaf0_def)

lemma sample_fields:
  "k_active_procs (sample_kernel leaf0 n) w = n"
  "k_retrieve_output (sample_kernel leaf0 n) m l w = (STATUS_SUCCESS, w)"
  "k_proc_number (sample_kernel leaf0 n) w i = (if i < n then Some \<lparr>pn_Group = 0, pn_Number = ucast i\<rparr> else None)"
  by (simp_all add: sample_kernel_def)

lemma proc_indices_less: "i \<in> set (proc_indices n) \<Longrightarrow> i < n"
  using unsigned_less[of n, where ?'a = nat]
  by (auto simp: proc_indices_def word_less_nat_alt unat_word_of_nat_small)

lemma amd_request_delivers_witness:
  "\<exists>s b' s'. amd_EvtIoDeviceControl (sample_kernel amd_leaf0 2) 1000 IOCTL_GET_DATA (zeroed_buffer 1000) s =
     Some ((CompleteWithInformation STATUS_SUCCESS 452, b'), s') \<and>
     processor_count (header b') = 2 \<and> entry_count (header b') = 10 \<and>
     map tag_of (take 10 (slots b')) = amd_entries 2"
proof -
  from amd_sample_running obtain s where run: "amd_running (sample_kernel amd_leaf0 2) s" by blast
  have known: "k_proc_number (sample_kernel amd_leaf0 2) w i \<noteq> None" if "i \<in> set (proc_indices 2)" for w i
    using proc_indices_less[OF that] by (simp add: sample_fields)
  from amd_request_delivers[OF run zeroed_buffer_size[of 1000], of 2 STATUS_SUCCESS "world s"] known
  show ?thesis by (auto simp: sample_fields sample_is_amd size_simps)
qed

section \<open>The values of the metrics\<close>

text \<open>
  The load of a core that has a valid earlier sample is the whole percentage of the time stamp
  ticks since then that the MPERF counter advanced by, where the counter did not advance further than
  the time stamp and their differences are in range; counter wrap-around between the samples does
  not matter. The new readings become the core's sample.
\<close>

theorem amd_core_load_exact:
  assumes "g_has_mperf s" and "g_core_state s = Some cs" and "i < g_max_procs s" and "unat i < length cs"
    and "core_valid (cs ! unat i)"
    and "k_readmsr K IA32_MPERF (world s) = (mperf, wa)" and "k_rdtsc K wa = (tsc, wb)"
    and "mperf - prev_mperf (cs ! unat i) \<le> tsc - prev_tsc (cs ! unat i)" and "tsc \<noteq> prev_tsc (cs ! unat i)"
    and "unat (mperf - prev_mperf (cs ! unat i)) * 100 < 2 ^ 64"
  shows "\<exists>d s' cs'. amd_retCoreLoad K i s = Some (d, s') \<and> g_core_state s' = Some cs' \<and>
     unat (data_value d) =
       unat (mperf - prev_mperf (cs ! unat i)) * 100 div unat (tsc - prev_tsc (cs ! unat i)) \<and>
     data_value d \<le> 100 \<and>
     cs' ! unat i = (cs ! unat i)\<lparr>prev_mperf := mperf, prev_tsc := tsc\<rparr>"
proof -
  have pos: "0 < tsc - prev_tsc (cs ! unat i)"
    using assms(9) by (simp add: word_neq_0_conv[symmetric])
  from assms(3) have i: "\<not> g_max_procs s \<le> i" by simp
  show ?thesis
    using assms i pos load_of_exact[OF assms(10,8) pos] load_of_le
    by (simp add: amd_retCoreLoad_def core_entries readmsr_def rdtsc_def lift_world_def Let_def)
qed

definition sample_core :: AMD_CORE_DELTA_STATE where
  "sample_core = \<lparr>prev_mperf = 200, prev_tsc = 18446744073709551416, prev_core_energy = 4294967000,
     prev_core_qpc = 0, core_valid = True\<rparr>"

definition sample_amd_state :: "nat amd_st" where
  "sample_amd_state = (amd_initial 0)\<lparr>g_has_mperf := True, g_core_state := Some [sample_core], g_max_procs := 1,
     g_amd_info := \<lparr>family = 0x19, model = 0x21\<rparr>, g_qpc_freq := 10000,
     g_pkg_state := \<lparr>prev_pkg_energy = 4294967000, prev_pkg_qpc = 0, pkg_valid = True, energy_unit_divisor = 65536\<rparr>\<rparr>"

text \<open>MPERF reads 231, so it advanced by 31; the time stamp wrapped around and advanced by 202.\<close>

lemma amd_core_load_exact_witness:
  "\<exists>d s'. amd_retCoreLoad (sample_kernel amd_leaf0 1) 0 sample_amd_state = Some (d, s') \<and> unat (data_value d) = 15"
proof -
  have "\<exists>d s' cs'. amd_retCoreLoad (sample_kernel amd_leaf0 1) 0 sample_amd_state = Some (d, s') \<and>
     g_core_state s' = Some cs' \<and>
     unat (data_value d) = unat ((231 :: ULONGLONG) - prev_mperf ([sample_core] ! unat (0 :: ULONG))) * 100 div
       unat (2 - prev_tsc ([sample_core] ! unat (0 :: ULONG))) \<and>
     data_value d \<le> 100 \<and>
     cs' ! unat (0 :: ULONG) = ([sample_core] ! unat (0 :: ULONG))\<lparr>prev_mperf := 231, prev_tsc := 2\<rparr>"
    by (rule amd_core_load_exact[where wa = 1 and wb = 2])
       (simp_all add: sample_amd_state_def amd_initial_def sample_core_def sample_kernel_def IA32_MPERF_def)
  then show ?thesis by (auto simp: sample_core_def)
qed

text \<open>
  The power of two energy readings: the 32-bit difference of the counters in units of
  \<open>1 / divisor\<close> joule, in whole millijoules, over the whole milliseconds between the readings.
\<close>

definition milliwatts :: "nat \<Rightarrow> nat \<Rightarrow> nat \<Rightarrow> nat \<Rightarrow> nat" where
  "milliwatts energy divisor ticks freq = (energy * 1000 div divisor) * 1000 div (ticks * 1000 div freq)"

lemma amd_power_value_exact:
  assumes "0 < divisor" and "0 < sint freq" and "unat (now - before) * 1000 < 2 ^ 64"
    and "unat freq \<le> unat (now - before) * 1000"
  shows "\<exists>p. amd_power_value True divisor freq e1 e0 now before = Some p \<and>
    unat p = milliwatts (unat (e1 - e0)) (unat divisor) (unat (now - before)) (unat freq) mod 2 ^ 32"
proof -
  have "0 < unat freq" using assms(2) by (metis neq0_conv sint_0 less_irrefl unsigned_eq_0_iff)
  then have "0 < unat (now - before) * 1000 div unat freq"
    using assms(4) by (simp add: div_greater_zero_iff)
  then have t: "0 < elapsed_ms freq now before"
    by (simp add: word_less_nat_alt elapsed_ms_exact[OF assms(3)])
  then show ?thesis
    using assms power_of_exact[OF assms(1) t]
    by (simp add: amd_power_value_def Let_def energy_delta_sub milliwatts_def elapsed_ms_exact)
qed

text \<open>
  C31: The package power is the energy used since the last sample, in milliwatts: the counter
  difference is taken modulo \<open>2^32\<close>, so a wrap of the energy counter does not matter, and none of
  the intermediate products overflows. The new readings become the sample of the next request.
\<close>

theorem amd_package_power_exact:
  assumes "AMD_FAMILY_ZEN \<le> family (g_amd_info s)" and "pkg_valid (g_pkg_state s)"
    and "0 < energy_unit_divisor (g_pkg_state s)" and "0 < sint (g_qpc_freq s)"
    and "k_readmsr K AMD_MSR_PKG_ENERGY_STATUS (world s) = (energy, wa)" and "k_qpc K wa = (now, wb)"
    and "unat (now - prev_pkg_qpc (g_pkg_state s)) * 1000 < 2 ^ 64"
    and "unat (g_qpc_freq s) \<le> unat (now - prev_pkg_qpc (g_pkg_state s)) * 1000"
  shows "\<exists>d s'. amd_retPackagePower K s = Some (d, s') \<and>
     unat (data_value d) = milliwatts (unat (ucast energy - prev_pkg_energy (g_pkg_state s)))
        (unat (energy_unit_divisor (g_pkg_state s))) (unat (now - prev_pkg_qpc (g_pkg_state s)))
        (unat (g_qpc_freq s)) mod 2 ^ 32 \<and>
     prev_pkg_energy (g_pkg_state s') = ucast energy \<and> prev_pkg_qpc (g_pkg_state s') = now \<and>
     pkg_valid (g_pkg_state s')"
proof -
  have low: "(ucast (energy AND GENMASK 31 0) :: ULONG) = ucast energy"
    by (rule bit_word_eqI) (auto simp: bit_simps bit_GENMASK)
  have zen: "\<not> family (g_amd_info s) < AMD_FAMILY_ZEN" using assms(1) by simp
  from amd_power_value_exact[OF assms(3,4,7,8), of "ucast energy" "prev_pkg_energy (g_pkg_state s)"]
  show ?thesis
    using assms(2,5,6) zen
    by (auto simp: amd_retPackagePower_def package_entry_eq size_simps readmsr_def query_qpc_def
        lift_world_def Let_def low set_value_def)
qed

lemma amd_package_power_exact_witness:
  "\<exists>d s'. amd_retPackagePower (sample_kernel amd_leaf0 1) (sample_amd_state\<lparr>world := 5\<rparr>) = Some (d, s') \<and>
     pkg_valid (g_pkg_state s')"
proof -
  let ?s = "sample_amd_state\<lparr>world := 5\<rparr>"
  have "\<exists>d s'. amd_retPackagePower (sample_kernel amd_leaf0 1) ?s = Some (d, s') \<and>
     unat (data_value d) = milliwatts (unat (ucast (0xC00102A0 :: ULONGLONG) - prev_pkg_energy (g_pkg_state ?s)))
        (unat (energy_unit_divisor (g_pkg_state ?s))) (unat ((6000 :: LARGE_INTEGER) - prev_pkg_qpc (g_pkg_state ?s)))
        (unat (g_qpc_freq ?s)) mod 2 ^ 32 \<and>
     prev_pkg_energy (g_pkg_state s') = ucast (0xC00102A0 :: ULONGLONG) \<and> prev_pkg_qpc (g_pkg_state s') = 6000 \<and>
     pkg_valid (g_pkg_state s')"
    by (rule amd_package_power_exact[where wa = 6 and wb = 7])
       (simp_all add: sample_amd_state_def amd_initial_def sample_kernel_def AMD_MSR_PKG_ENERGY_STATUS_def AMD_FAMILY_ZEN_def)
  then show ?thesis by blast
qed

text \<open>
  The SVI2 conversion: the voltage is \<open>(6200 - 25 * VID + 2) / 4\<close> millivolts, rounded down, for the
  identifier in bits 23 to 16 of the register, and 0 where the identifier encodes less than 1 mV; it never
  exceeds 1550 mV.
\<close>

theorem amd_voltage_exact:
  "unat (svi2_mv raw) = nat (6202 - 25 * int (unat raw div 2 ^ 16 mod 2 ^ 8)) div 4 \<and> unat (svi2_mv raw) \<le> 1550"
proof -
  have "nat (6202 - 25 * int (svi2_vid raw)) \<le> 6202" by simp
  then have "nat (6202 - 25 * int (svi2_vid raw)) div 4 \<le> 6202 div 4" by (rule div_le_mono)
  then show ?thesis using svi2_mv_exact[of raw] by (simp add: svi2_vid_def)
qed

text \<open>
  The die temperature: bits 31 to 21 of the register in eighths of a degree, less 49 degrees where
  bit 19, or bits 16 and 17, are set, in whole degrees; a result outside 0 to 150 degrees is
  reported as 0.
\<close>

theorem amd_tdie_exact:
  "unat (amd_tdie_value raw) =
     (let mdeg = int (unat raw div 2 ^ 21) * 125 - (if bit raw 19 \<or> (bit raw 16 \<and> bit raw 17) then 49000 else 0)
      in if 0 \<le> mdeg \<and> mdeg \<le> 150000 then nat (mdeg div 1000) else 0) \<and>
   unat (amd_tdie_value raw) \<le> 150"
proof -
  have "unat (amd_tdie_value raw) \<le> 150"
    unfolding amd_tdie_value_exact by (simp, linarith)
  then show ?thesis
    using amd_tdie_value_exact[of raw] by (simp only: tdie_mdeg_def tdie_offset_def Let_def simp_thms)
qed

text \<open>
  On a processor without the MPERF counter the power of a core is reported as 0 in every state of
  the loaded driver: the sample that \<open>retCorePower\<close> compares against is marked valid by
  \<open>retCoreLoad\<close> only, which returns before it there.
\<close>

theorem amd_core_power_needs_mperf:
  assumes "amd_running K s" and "\<not> g_has_mperf s"
  shows "\<exists>d s'. amd_retCorePower K i s = Some (d, s') \<and> data_value d = 0"
proof -
  have wf: "amd_wf s" by (rule amd_running_wf[OF assms(1)])
  obtain v1 w1 where 1: "readmsr K AMD_MSR_CORE_ENERGY_STATUS s = Some (v1, s\<lparr>world := w1\<rparr>)"
    using readmsr_total[of K AMD_MSR_CORE_ENERGY_STATUS s] by blast
  obtain v2 w2 where 2: "query_qpc K (s\<lparr>world := w1\<rparr>) = Some (v2, s\<lparr>world := w1\<rparr>\<lparr>world := w2\<rparr>)"
    using query_qpc_total[of K "s\<lparr>world := w1\<rparr>"] by blast
  show ?thesis
    using wf assms(2) 1 2
    by (cases "g_core_state s")
       (auto simp: amd_retCorePower_def core_entries Let_def amd_wf_def word_less_nat_alt not_le
          amd_power_value_def set_value_def)
qed

definition no_mperf_kernel :: "nat kernel" where
  "no_mperf_kernel = (sample_kernel amd_leaf0 2)\<lparr>k_cpuid := (\<lambda>w leaf. if leaf = 0 then amd_leaf0
     else \<lparr>eax = 0x00A20F10, ebx = 0, ecx = 0, edx = 0\<rparr>)\<rparr>"

lemma no_mperf_loads:
  "\<exists>s. amd_DriverEntry no_mperf_kernel (amd_initial 0) = Some (STATUS_SUCCESS, s) \<and> \<not> g_has_mperf s"
  by (simp add: amd_DriverEntry_def amd_initial_def sample_kernel_def no_mperf_kernel_def amd_DetectFeatures_def
      DetectAMDModelAndFamily_def amd_read_energy_unit_def amd_allocate_core_state_def add_END_def
      env_defs lift_world_def Let_def amd_create_device_def create_device_def NonPnpDeviceAdd_def use_init_def no_objects_def
      cpuid_def CPUID_THERM_POWER_LEAF_def)

lemma amd_core_power_needs_mperf_witness:
  "\<exists>s d s'. amd_retCorePower no_mperf_kernel 1 s = Some (d, s') \<and> data_value d = 0"
proof -
  from no_mperf_loads obtain s where
    s: "amd_DriverEntry no_mperf_kernel (amd_initial 0) = Some (STATUS_SUCCESS, s)" "\<not> g_has_mperf s" by blast
  from amd_core_power_needs_mperf[OF amd_running.loaded[OF s(1) success_is_success] s(2), of 1]
  show ?thesis by blast
qed

text \<open>
  In the first request after loading, the package power is 0, for want of an earlier sample, but
  the power of a core is computed against an energy reading and a time of 0: \<open>retCoreLoad\<close>, which
  runs before, has marked the core's sample as valid without filling in these two fields.
\<close>

theorem amd_first_core_power:
  assumes "g_core_state s = Some (replicate n zero_core_state)" and "unat i < n" and "i < g_max_procs s"
    and "g_has_mperf s" and "AMD_FAMILY_ZEN \<le> family (g_amd_info s)" and "\<not> pkg_valid (g_pkg_state s)"
    and "k_readmsr K IA32_MPERF (world s) = (mperf, wa)" and "k_rdtsc K wa = (tsc, wb)"
    and "k_readmsr K AMD_MSR_CORE_ENERGY_STATUS wb = (energy, wc)" and "k_qpc K wc = (now, wd)"
  shows "\<exists>d1 s1 d2 s2 d3 s3. amd_retCoreLoad K i s = Some (d1, s1) \<and> data_value d1 = 0 \<and>
     amd_retCorePower K i s1 = Some (d2, s2) \<and>
     data_value d2 = (case amd_power_value True (energy_unit_divisor (g_pkg_state s)) (g_qpc_freq s)
                        (ucast energy) 0 now 0 of None \<Rightarrow> 0 | Some p \<Rightarrow> p) \<and>
     amd_retPackagePower K s2 = Some (d3, s3) \<and> data_value d3 = 0"
proof -
  have low: "(ucast (energy AND GENMASK 31 0) :: ULONG) = ucast energy"
    by (rule bit_word_eqI) (auto simp: bit_simps bit_GENMASK)
  have zen: "\<not> family (g_amd_info s) < AMD_FAMILY_ZEN" and i: "\<not> g_max_procs s \<le> i"
    using assms(3,5) by simp_all
  obtain e we where e: "k_readmsr K AMD_MSR_PKG_ENERGY_STATUS wd = (e, we)" by fastforce
  obtain q wf where q: "k_qpc K we = (q, wf)" by fastforce
  show ?thesis
    using assms zen i e q
    by (simp add: amd_retCoreLoad_def amd_retCorePower_def amd_retPackagePower_def core_entries
        package_entry_eq size_simps readmsr_def rdtsc_def query_qpc_def lift_world_def Let_def low
        zero_core_state_def set_value_def amd_power_value_def split: option.splits)
qed

definition fresh_amd_state :: "nat amd_st" where
  "fresh_amd_state = sample_amd_state\<lparr>g_core_state := Some (replicate 1 zero_core_state),
     g_pkg_state := \<lparr>prev_pkg_energy = 0, prev_pkg_qpc = 0, pkg_valid = False, energy_unit_divisor = 65536\<rparr>\<rparr>"

lemma amd_first_core_power_witness:
  "\<exists>d1 s1 d2 s2 d3 s3. amd_retCoreLoad (sample_kernel amd_leaf0 1) 0 fresh_amd_state = Some (d1, s1) \<and>
     amd_retCorePower (sample_kernel amd_leaf0 1) 0 s1 = Some (d2, s2) \<and> data_value d2 = 163843366 \<and>
     amd_retPackagePower (sample_kernel amd_leaf0 1) s2 = Some (d3, s3) \<and> data_value d3 = 0"
proof -
  let ?K = "sample_kernel amd_leaf0 1"
  have "\<exists>d1 s1 d2 s2 d3 s3. amd_retCoreLoad ?K 0 fresh_amd_state = Some (d1, s1) \<and> data_value d1 = 0 \<and>
     amd_retCorePower ?K 0 s1 = Some (d2, s2) \<and>
     data_value d2 = (case amd_power_value True (energy_unit_divisor (g_pkg_state fresh_amd_state))
        (g_qpc_freq fresh_amd_state) (ucast (0xC001029C :: ULONGLONG)) 0 3000 0 of None \<Rightarrow> 0 | Some p \<Rightarrow> p) \<and>
     amd_retPackagePower ?K s2 = Some (d3, s3) \<and> data_value d3 = 0"
    by (rule amd_first_core_power[where n = 1 and mperf = "0xE7" and tsc = 2 and wa = 1 and wb = 2 and wc = 3 and wd = 4])
       (simp_all add: fresh_amd_state_def sample_amd_state_def amd_initial_def sample_kernel_def IA32_MPERF_def
          AMD_MSR_CORE_ENERGY_STATUS_def AMD_FAMILY_ZEN_def)
  moreover have "(case amd_power_value True (energy_unit_divisor (g_pkg_state fresh_amd_state))
      (g_qpc_freq fresh_amd_state) (ucast (0xC001029C :: ULONGLONG)) 0 3000 0 of None \<Rightarrow> 0 | Some p \<Rightarrow> p) = 163843366"
    by (simp add: fresh_amd_state_def sample_amd_state_def amd_power_value_def elapsed_ms_def power_of_def
        energy_delta_of_def Let_def)
  ultimately show ?thesis by metis
qed

end
