(* ===== verification/Intel_Properties.thy ===== *)
theory Intel_Properties
  imports Intel_Driver Amd_Properties
begin

text \<open>
  What the Intel driver guarantees: loading, every request, the content of a successful answer, and
  the values of its metrics.
\<close>

section \<open>The loaded driver\<close>

lemma intel_DetectFeatures_post:
  obtains w f where "intel_DetectFeatures K (intel_initial v) = Some ((intel_initial w)\<lparr>
      i_has_mperf := (ecx (k_cpuid K v CPUID_THERM_POWER_LEAF) AND CPUID_06H_ECX_MPERF_BIT \<noteq> 0),
      i_has_pkg_therm := (eax (k_cpuid K v CPUID_THERM_POWER_LEAF) AND CPUID_06H_EAX_PKG_THERM_BIT \<noteq> 0),
      i_has_rapl := intel_detect_rapl (k_cpuid K v 0x01), i_base_freq_mhz := f\<rparr>)"
proof -
  obtain p w where "k_readmsr K IA32_PLATFORM_INFO v = (p, w)" by fastforce
  then show ?thesis
    by (intro that[where w = w and f = "ucast (drop_bit 8 (p AND GENMASK 15 8) * ucast INTEL_BUS_CLOCK_MHZ)"])
       (simp add: intel_DetectFeatures_def cpuid_def Let_def readmsr_def lift_world_def intel_initial_def)
qed

lemma intel_read_energy_unit_post:
  obtains w p where "intel_read_energy_unit K s = Some (s\<lparr>world := w, i_pkg_state := p\<rparr>)"
    "\<not> i_has_rapl s \<or> (\<exists>e < 32. i_energy_unit_divisor p = push_bit e 1)"
proof (cases "i_has_rapl s")
  case True
  obtain r w where 1: "readmsr K MSR_RAPL_POWER_UNIT s = Some (r, s\<lparr>world := w\<rparr>)"
    using readmsr_total[of K MSR_RAPL_POWER_UNIT s] by blast
  let ?sh = "unat (ucast (drop_bit 8 (r AND GENMASK 12 8)) :: ULONG)"
  have "?sh < 32" by (subst field_ucast) simp_all
  with True 1 show ?thesis
    by (intro that[where w = w and p = "(i_pkg_state s)\<lparr>i_energy_unit_divisor := push_bit ?sh 1\<rparr>"])
       (auto simp: intel_read_energy_unit_def simp del: push_bit_of_1)
next
  case False
  then show ?thesis
    by (intro that[where w = "world s" and p = "i_pkg_state s"]) (auto simp: intel_read_energy_unit_def)
qed

lemma intel_allocate_core_state_post:
  assumes "i_core_state s = None"
  obtains w n cs where "intel_allocate_core_state K s = Some (s\<lparr>world := w, i_max_procs := n, i_core_state := cs\<rparr>)"
    "case cs of None \<Rightarrow> True | Some xs \<Rightarrow> length xs = unat n"
proof -
  let ?s = "s\<lparr>i_max_procs := k_active_procs K (world s)\<rparr>"
  obtain ok w where 1: "lift_world (k_pool_alloc K (ucast (i_max_procs ?s) * intel_core_state_size)) ?s =
      Some (ok, ?s\<lparr>world := w\<rparr>)"
    using lift_world_total[of "k_pool_alloc K (ucast (i_max_procs ?s) * intel_core_state_size)" ?s] by blast
  show ?thesis
  proof (cases "i_has_mperf s \<and> ok")
    case True
    with 1 show ?thesis
      by (intro that[where w = w and n = "k_active_procs K (world s)"
            and cs = "Some (replicate (unat (k_active_procs K (world s))) intel_zero_core)"])
         (simp_all add: intel_allocate_core_state_def)
  next
    case False
    with 1 assms show ?thesis
      by (intro that[where w = "if i_has_mperf s then w else world s" and n = "k_active_procs K (world s)" and cs = None])
         (auto simp: intel_allocate_core_state_def)
  qed
qed

lemma intel_DriverEntry_post:
  "\<exists>st s. intel_DriverEntry K (intel_initial w) = Some (st, s) \<and>
     intel_wf (eax (k_cpuid K w CPUID_THERM_POWER_LEAF) AND CPUID_06H_EAX_PKG_THERM_BIT \<noteq> 0)
       (intel_detect_rapl (k_cpuid K w 0x01)) s \<and>
     p_init (intel_wdf s) \<noteq> InitLive \<and> (NT_SUCCESS st \<longleftrightarrow> finished_initializing (intel_wdf s)) \<and>
     (finished_initializing (intel_wdf s) \<longrightarrow> queue_live (intel_wdf s) \<and> dev (intel_wdf s)) \<and>
     (\<not> intel_detect_rapl (k_cpuid K w 0x01) \<or> (\<exists>e < 32. i_energy_unit_divisor (i_pkg_state s) = push_bit e 1))"
proof -
  let ?th = "eax (k_cpuid K w CPUID_THERM_POWER_LEAF) AND CPUID_06H_EAX_PKG_THERM_BIT \<noteq> 0"
  let ?ra = "intel_detect_rapl (k_cpuid K w 0x01)"
  let ?mp = "ecx (k_cpuid K w CPUID_THERM_POWER_LEAF) AND CPUID_06H_ECX_MPERF_BIT \<noteq> 0"
  obtain w1 f where 1: "intel_DetectFeatures K (intel_initial w) = Some ((intel_initial w1)\<lparr>
      i_has_mperf := ?mp, i_has_pkg_therm := ?th, i_has_rapl := ?ra, i_base_freq_mhz := f\<rparr>)"
    by (rule intel_DetectFeatures_post)
  define s1 where "s1 = (intel_initial w1)\<lparr>
      i_has_mperf := ?mp, i_has_pkg_therm := ?th, i_has_rapl := ?ra, i_base_freq_mhz := f\<rparr>"
  obtain q w2 where 2: "query_qpc_freq K s1 = Some (q, s1\<lparr>world := w2\<rparr>)"
    using query_qpc_freq_total[of K s1] by blast
  define s2 where "s2 = s1\<lparr>world := w2, i_qpc_freq := q\<rparr>"
  obtain w3 p where 3: "intel_read_energy_unit K s2 = Some (s2\<lparr>world := w3, i_pkg_state := p\<rparr>)"
    "\<not> i_has_rapl s2 \<or> (\<exists>e < 32. i_energy_unit_divisor p = push_bit e 1)"
    by (rule intel_read_energy_unit_post)
  define s3 where "s3 = s2\<lparr>world := w3, i_pkg_state := p\<rparr>"
  have fields: "i_core_state s3 = None" "i_has_pkg_therm s3 = ?th" "i_has_rapl s3 = ?ra" "i_has_rapl s2 = ?ra"
    "intel_wdf s3 = no_objects" "i_pkg_state s3 = p"
    by (simp_all add: s3_def s2_def s1_def intel_initial_def)
  obtain w4 n cs where 4: "intel_allocate_core_state K s3 = Some (s3\<lparr>world := w4, i_max_procs := n, i_core_state := cs\<rparr>)"
    "case cs of None \<Rightarrow> True | Some xs \<Rightarrow> length xs = unat n"
    by (rule intel_allocate_core_state_post[OF fields(1)])
  obtain st x w5 where 5: "create_device K no_objects w4 = Some (st, x, w5)" "p_init x \<noteq> InitLive"
    "NT_SUCCESS st \<longleftrightarrow> finished_initializing x" "finished_initializing x \<longrightarrow> queue_live x \<and> dev x"
    using create_device_post[of K w4] by blast
  let ?s = "s3\<lparr>world := w5, i_max_procs := n, i_core_state := cs, intel_wdf := x\<rparr>"
  have "intel_DriverEntry K (intel_initial w) = Some (st, ?s)"
    using 1 2 3(1) 4(1) 5(1) fields
    by (simp add: intel_DriverEntry_def s1_def[symmetric] s2_def[symmetric] s3_def[symmetric] intel_create_device_def)
  moreover have "intel_wf ?th ?ra ?s"
    using fields 4(2) by (auto simp: intel_wf_def split: option.splits)
  ultimately show ?thesis
    using 3(2) 5 fields by (intro exI[of _ st] exI[of _ ?s]) simp
qed

text \<open>
  The states of a loaded driver, as for the AMD driver; the two flags are those it was loaded with.
\<close>

inductive intel_running :: "'w kernel \<Rightarrow> bool \<Rightarrow> bool \<Rightarrow> 'w intel_st \<Rightarrow> bool" for K where
  loaded: "intel_DriverEntry K (intel_initial w) = Some (st, s) \<Longrightarrow> NT_SUCCESS st \<Longrightarrow>
     intel_running K (i_has_pkg_therm s) (i_has_rapl s) s"
| machine: "intel_running K th ra s \<Longrightarrow> intel_running K th ra (s\<lparr>world := w\<rparr>)"
| request: "intel_running K th ra s \<Longrightarrow> buffer_of_size L b \<Longrightarrow>
     intel_EvtIoDeviceControl K L code b s = Some (r, s') \<Longrightarrow> intel_running K th ra s'"

lemma intel_handler_safe:
  assumes "intel_wf th ra s" and "buffer_of_size L b"
  shows "\<exists>c b' s' cs. intel_EvtIoDeviceControl K L code b s = Some ((c, b'), s') \<and> intel_wf th ra s' \<and>
     buffer_of_size L b' \<and> unat (completion_bytes c) \<le> unat L \<and> aff_log s' = aff_log s @ cs \<and> restoring cs"
  unfolding intel_EvtIoDeviceControl_def by (rule intel.handler_safe[OF assms])

lemma intel_running_wf: "intel_running K th ra s \<Longrightarrow> intel_wf th ra s"
proof (induction rule: intel_running.induct)
  case (loaded w st s)
  from intel_DriverEntry_post[of K w] loaded(1) show ?case by (auto simp: intel_wf_def)
next
  case (request th ra s L b code r s')
  from intel_handler_safe[OF request.IH request.hyps(2), of K code] request.hyps(3) show ?case
    by auto
qed simp

lemma intel_sample_loads:
  "\<exists>s. intel_DriverEntry (sample_kernel intel_leaf0 2) (intel_initial 0) = Some (STATUS_SUCCESS, s)"
  by (simp add: intel_DriverEntry_def intel_initial_def sample_kernel_def intel_DetectFeatures_def
      intel_read_energy_unit_def intel_allocate_core_state_def add_END_def cpuid_def
      env_defs lift_world_def Let_def intel_create_device_def create_device_def NonPnpDeviceAdd_def use_init_def
      no_objects_def)

lemma intel_sample_running: "\<exists>th ra s. intel_running (sample_kernel intel_leaf0 2) th ra s"
  using intel_sample_loads by (auto intro: intel_running.loaded[OF _ success_is_success])

text \<open>
  C15: Every request to the loaded Intel driver is answered, whatever its control code and buffer
  size: the handler writes only inside the request's buffer, reports at most as many bytes as the
  buffer has, and restores the thread's processor affinity.
\<close>

theorem intel_request_safe:
  assumes "intel_running K th ra s" and "buffer_of_size L b"
  shows "\<exists>c b' s' cs. intel_EvtIoDeviceControl K L code b s = Some ((c, b'), s') \<and>
     buffer_of_size L b' \<and> unat (completion_bytes c) \<le> unat L \<and>
     aff_log s' = aff_log s @ cs \<and> restoring cs"
  using intel_handler_safe[OF intel_running_wf[OF assms(1)] assms(2), of K code] by blast

lemma intel_request_safe_witness:
  "\<exists>s c b' s'. intel_EvtIoDeviceControl (sample_kernel intel_leaf0 2) 40 IOCTL_GET_DATA (zeroed_buffer 40) s
     = Some ((c, b'), s') \<and> unat (completion_bytes c) \<le> 40"
proof -
  from intel_sample_running obtain th ra s where "intel_running (sample_kernel intel_leaf0 2) th ra s" by blast
  from intel_request_safe[OF this zeroed_buffer_size, of 40 IOCTL_GET_DATA] show ?thesis
    by auto
qed

section \<open>What an answer holds\<close>

definition intel_entries :: "bool \<Rightarrow> bool \<Rightarrow> ULONG \<Rightarrow> tag list" where
  "intel_entries th ra n = concat (map intel_core_tags (proc_indices n)) @ intel_package_tags th ra"

definition intel_count :: "bool \<Rightarrow> bool \<Rightarrow> ULONG \<Rightarrow> nat" where
  "intel_count th ra n = 4 * unat n + (if th then 1 else 0) + (if ra then 2 else 0)"

lemma intel_announced: "metric_source.announced (intel_dev K) n = 4 * unat n + 3"
  by (simp add: intel.announced_def)

lemma intel_delivered: "intel.delivered th ra n = intel_entries th ra n"
  by (simp add: intel.delivered_def intel_entries_def)

lemma length_intel_entries: "length (intel_entries th ra n) = intel_count th ra n"
proof -
  have "length (concat (map intel_core_tags js)) = 4 * length js" for js
    by (induction js) (simp_all add: intel_core_tags_def)
  then show ?thesis
    by (simp add: intel_entries_def intel_package_tags_def intel_count_def length_proc_indices)
qed

lemma intel_delivers:
  assumes "intel_running K th ra s" and "buffer_of_size L b" and "n = k_active_procs K (world s)"
    and "4 * unat n + 3 < 2 ^ 16" and "header_size + (4 * unat n + 3) * entry_size \<le> unat L" and "unat L < 2 ^ 32"
    and "\<And>w i. i \<in> set (proc_indices n) \<Longrightarrow> k_proc_number K w i \<noteq> None"
    and "k_retrieve_output K (word_of_nat header_size) L (world s) = (status, w)" and "NT_SUCCESS status"
    and "DetectCpuVendor (k_cpuid K w) = CPU_VENDOR_INTEL"
  shows "\<exists>b' s'. intel_EvtIoDeviceControl K L IOCTL_GET_DATA b s =
        Some ((CompleteWithInformation STATUS_SUCCESS
                 (word_of_nat (header_size + intel_count th ra n * entry_size)), b'), s') \<and>
     processor_count (header b') = n \<and> entry_count (header b') = word_of_nat (intel_count th ra n) \<and>
     map tag_of (take (intel_count th ra n) (slots b')) = intel_entries th ra n"
proof -
  have wf: "intel_wf th ra s" by (rule intel_running_wf[OF assms(1)])
  have known: "metric_source.known K i" if "i \<in> set (proc_indices (k_active_procs K (world s)))" for i
    using assms(3,7) that by (auto simp: intel.known_def)
  show ?thesis
    using intel.handler_success[OF wf assms(2) _ _ assms(6) known assms(8,9)] assms(3-5,10)
    by (auto simp: intel_EvtIoDeviceControl_def intel_announced intel_delivered length_intel_entries
        intel.fresh_header_def)
qed

text \<open>
  C16: A request for the data whose buffer has at least the announced size is answered with success.
  The entries are temperature, VID, clock and load of every processor, then the package temperature
  and the two RAPL powers as far as the processor has them: the entry count and the length in the
  answer are those of the entries present, while the announced size reserves room for all three.
\<close>

theorem intel_request_delivers:
  assumes "intel_running K th ra s" and "buffer_of_size L b" and "n = k_active_procs K (world s)"
    and "4 * unat n + 3 < 2 ^ 16" and "header_size + (4 * unat n + 3) * entry_size \<le> unat L" and "unat L < 2 ^ 32"
    and "\<And>w i. i \<in> set (proc_indices n) \<Longrightarrow> k_proc_number K w i \<noteq> None"
    and "k_retrieve_output K (word_of_nat header_size) L (world s) = (status, w)" and "NT_SUCCESS status"
    and "DetectCpuVendor (k_cpuid K w) = CPU_VENDOR_INTEL"
  shows "\<exists>b' s'. intel_EvtIoDeviceControl K L IOCTL_GET_DATA b s =
        Some ((CompleteWithInformation STATUS_SUCCESS
                 (word_of_nat (header_size + intel_count th ra n * entry_size)), b'), s') \<and>
     processor_count (header b') = n \<and> entry_count (header b') = word_of_nat (intel_count th ra n) \<and>
     map tag_of (take (intel_count th ra n) (slots b')) = intel_entries th ra n"
  using assms by (rule intel_delivers)

lemma sample_is_intel: "DetectCpuVendor (k_cpuid (sample_kernel intel_leaf0 n) w) = CPU_VENDOR_INTEL"
  by (simp add: DetectCpuVendor_regs sample_kernel_def intel_leaf0_def)

lemma intel_request_delivers_witness:
  "\<exists>th ra s b' s'. intel_EvtIoDeviceControl (sample_kernel intel_leaf0 2) 1000 IOCTL_GET_DATA (zeroed_buffer 1000) s =
     Some ((CompleteWithInformation STATUS_SUCCESS (word_of_nat (12 + intel_count th ra 2 * 44)), b'), s') \<and>
     map tag_of (take (intel_count th ra 2) (slots b')) = intel_entries th ra 2"
proof -
  from intel_sample_running obtain th ra s where run: "intel_running (sample_kernel intel_leaf0 2) th ra s" by blast
  have known: "k_proc_number (sample_kernel intel_leaf0 2) w i \<noteq> None" if "i \<in> set (proc_indices 2)" for w i
    using proc_indices_less[OF that] by (simp add: sample_fields)
  from intel_request_delivers[OF run zeroed_buffer_size[of 1000], of 2 STATUS_SUCCESS "world s"] known
  show ?thesis
    by (intro exI[of _ th] exI[of _ ra] exI[of _ s]) (auto simp: sample_fields sample_is_intel size_simps)
qed

section \<open>The values of the metrics\<close>

text \<open>
  The temperature is \<open>TjMax\<close> less the digital offset, in degrees, never above \<open>TjMax\<close>, and 0 where
  the offset exceeds \<open>TjMax\<close>.
\<close>

theorem intel_temperature_exact:
  "unat (temperature_of target status) = unat target div 2 ^ 16 mod 2 ^ 8 - unat status div 2 ^ 16 mod 2 ^ 7"
proof -
  define a b where "a = (ucast (drop_bit 16 (target AND GENMASK 23 16)) :: ULONG)"
    and "b = (ucast (drop_bit 16 (status AND GENMASK 22 16)) :: ULONG)"
  have a: "unat a = unat target div 2 ^ 16 mod 2 ^ 8"
    unfolding a_def by (subst field_ucast) simp_all
  have b: "unat b = unat status div 2 ^ 16 mod 2 ^ 7"
    unfolding b_def by (subst field_ucast) simp_all
  have "unat (if b \<le> a then a - b else 0) = unat a - unat b"
    by (simp add: word_le_nat_alt unat_sub_if')
  then show ?thesis
    unfolding temperature_of_def Let_def a_def[symmetric] b_def[symmetric] a b .
qed

text \<open>
  The core voltage is the 16-bit VID in units of 1/8192 V, in millivolts rounded to the nearest; the
  intermediate product does not overflow.
\<close>

theorem intel_vid_exact:
  "unat (intel_vid_mv status) = (unat status div 2 ^ 32 mod 2 ^ 16 * 1000 + 2 ^ 12) div 2 ^ 13"
proof -
  define v where "v = unat status div 2 ^ 32 mod 2 ^ 16"
  have v: "v < 2 ^ 16" by (simp add: v_def)
  have vid: "(ucast (drop_bit 32 (status AND GENMASK 47 32)) :: ULONG) = word_of_nat v"
  proof -
    have "unat (ucast (drop_bit 32 (status AND GENMASK 47 32)) :: ULONG) = v"
      unfolding v_def by (subst field_ucast) simp_all
    with v show ?thesis by (simp add: word_unat_eq_iff unat_word_of_nat_small)
  qed
  have "unat (word_of_nat (v * 1000 + 4096) :: ULONG) = v * 1000 + 4096"
    using v by (intro unat_word_of_nat_small) simp
  then have "unat (word_of_nat v * 1000 + push_bit 12 1 :: ULONG) = v * 1000 + 4096"
    by simp
  then show ?thesis
    unfolding intel_vid_mv_def Let_def vid v_def[symmetric]
    by (simp add: drop_bit_eq_div unat_div)
qed

text \<open>
  The two drivers compute the same power: for a positive counter frequency the Intel function
  returns the value the AMD functions store, and 0 where they store none.
\<close>

theorem ComputePowerMilliwatts_agrees:
  assumes "0 < sint freq"
  shows "ComputePowerMilliwatts divisor freq e1 e0 now before valid =
    (case amd_power_value valid divisor freq e1 e0 now before of None \<Rightarrow> 0 | Some p \<Rightarrow> p)"
proof -
  have "freq \<noteq> 0" using assms by auto
  with assms show ?thesis
    by (auto simp: ComputePowerMilliwatts_def amd_power_value_def Let_def word_neq_0_conv)
qed

lemma ComputePowerMilliwatts_agrees_witness:
  "ComputePowerMilliwatts 65536 10000 5 4294967290 20000 0 True =
    (case amd_power_value True 65536 10000 5 4294967290 20000 0 of None \<Rightarrow> 0 | Some p \<Rightarrow> p)"
  by (rule ComputePowerMilliwatts_agrees) simp

end
