(* ===== verification/Driver_Client.thy ===== *)
theory Driver_Client
  imports Intel_Properties
begin

text \<open>
  \<open>System_Info/driver_client/DriverClient.cpp\<close>: the user-space client of the CPU drivers. The
  system calls (\<open>CreateFile\<close>, \<open>DeviceIoControl\<close>, \<open>malloc\<close>, \<open>realloc\<close>) are the fields of a record
  \<open>dc_env\<close>. \<open>runDriver\<close>'s loop need not end, so it is a partial function: \<open>None\<close> is a run that loops for
  ever, and an access outside the buffer is the outcome \<open>Fault\<close>. The locale \<open>telemetry_handler\<close>
  states what the client needs of a driver; it is interpreted on both drivers, so the client and
  either driver are proved to work together.
\<close>

section \<open>The client\<close>

text \<open>A heap buffer: its size in bytes, and its content as header and whole entries.\<close>

record ubuf =
  u_size :: ULONG
  u_data :: out_buffer

record io_result =
  io_success :: bool
  io_bytes :: ULONG
  io_error :: ULONG

record 'w dc_env =
  dc_open :: "string \<Rightarrow> 'w \<Rightarrow> bool \<times> 'w"
  dc_malloc :: "ULONG \<Rightarrow> 'w \<Rightarrow> ubuf option \<times> 'w"
  dc_realloc :: "ubuf \<Rightarrow> ULONG \<Rightarrow> 'w \<Rightarrow> ubuf option \<times> 'w"
  dc_ioctl :: "ubuf \<Rightarrow> 'w \<Rightarrow> io_result \<times> ubuf \<times> 'w"

definition ERROR_INSUFFICIENT_BUFFER :: ULONG where "ERROR_INSUFFICIENT_BUFFER = 122"
definition ERROR_MORE_DATA :: ULONG where "ERROR_MORE_DATA = 234"

record driver_client =
  h_device_valid :: bool
  vendor :: CPU_VENDOR
  ret_data :: "CPU_DATA list"

text \<open>Two backslashes, a full stop and a backslash: the device namespace.\<close>

definition device_prefix :: string where
  "device_prefix = [CHR 0x5C, CHR 0x5C, CHR ''.'', CHR 0x5C]"

definition open_DriverClient ::
  "'w dc_env \<Rightarrow> (ULONG \<Rightarrow> cpu_regs) \<Rightarrow> 'w \<Rightarrow> driver_client \<times> 'w" where
  "open_DriverClient E leaf w =
     (let v = DetectCpuVendor leaf in
      case v of
        CPU_VENDOR_INTEL \<Rightarrow>
          (case dc_open E (device_prefix @ ''WindowsIntelCPUDriver'') w of
             (ok, w) \<Rightarrow> (\<lparr>h_device_valid = ok, vendor = v, ret_data = []\<rparr>, w))
      | CPU_VENDOR_AMD \<Rightarrow>
          (case dc_open E (device_prefix @ ''WindowsAMDCPUDriver'') w of
             (ok, w) \<Rightarrow> (\<lparr>h_device_valid = ok, vendor = v, ret_data = []\<rparr>, w))
      | CPU_VENDOR_UNKNOWN \<Rightarrow> (\<lparr>h_device_valid = False, vendor = v, ret_data = []\<rparr>, w))"

datatype 'a outcome = Returned 'a | Fault

text \<open>Reading the header needs a buffer that holds one.\<close>

definition read_header :: "ubuf \<Rightarrow> CPU_DATA_HEADER option" where
  "read_header b = (if header_size \<le> unat (u_size b) then Some (header (u_data b)) else None)"

text \<open>
  The branch of a successful call. The loop that prints the entries reads each of them up to the NUL
  of its name; \<open>ret_data.assign\<close> then copies them.
\<close>

definition on_success :: "ubuf \<Rightarrow> ULONG \<Rightarrow> CPU_DATA list option outcome" where
  "on_success b bytes_ret =
     (case read_header b of
        None \<Rightarrow> Fault
      | Some h \<Rightarrow>
          if unat bytes_ret < header_size + unat (entry_count h) * entry_size then Returned None
          else if unat (entry_count h) \<le> length (slots (u_data b)) \<and>
                  list_all (\<lambda>d. NUL \<in> set (data_name d)) (take (unat (entry_count h)) (slots (u_data b)))
          then Returned (Some (take (unat (entry_count h)) (slots (u_data b))))
          else Fault)"

text \<open>
  The loop. \<open>Returned None\<close> is \<open>return {}\<close>, which leaves \<open>ret_data\<close> as it was.
\<close>

partial_function (option) driver_loop ::
  "'w dc_env \<Rightarrow> bool \<Rightarrow> ubuf \<Rightarrow> 'w \<Rightarrow> (CPU_DATA list option outcome \<times> 'w) option" where
  "driver_loop E first_pass buffer w =
     (case dc_ioctl E buffer w of (r, buffer, w) \<Rightarrow>
      if io_success r then Some (on_success buffer (io_bytes r), w)
      else if io_error r = ERROR_MORE_DATA \<or> io_error r = ERROR_INSUFFICIENT_BUFFER
      then (case read_header buffer of
              None \<Rightarrow> Some (Fault, w)
            | Some hdr \<Rightarrow>
                (case dc_realloc E buffer (if first_pass then required_size hdr else required_size hdr * 2) w of
                   (None, w) \<Rightarrow> Some (Returned None, w)
                 | (Some new_buffer, w) \<Rightarrow> driver_loop E False new_buffer w))
      else if first_pass then Some (Returned None, w)
      else driver_loop E False buffer w)"

definition runDriver ::
  "'w dc_env \<Rightarrow> driver_client \<Rightarrow> 'w \<Rightarrow> (CPU_DATA list outcome \<times> driver_client \<times> 'w) option" where
  "runDriver E dc w =
     (if \<not> h_device_valid dc then Some (Returned [], dc, w)
      else case dc_malloc E (word_of_nat header_size) w of
        (None, w) \<Rightarrow> Some (Returned [], dc, w)
      | (Some buffer, w) \<Rightarrow>
          (case driver_loop E True buffer w of
             None \<Rightarrow> None
           | Some (Fault, w) \<Rightarrow> Some (Fault, dc, w)
           | Some (Returned None, w) \<Rightarrow> Some (Returned [], dc, w)
           | Some (Returned (Some ds), w) \<Rightarrow> Some (Returned ds, dc\<lparr>ret_data := ds\<rparr>, w)))"

section \<open>The loop that does not end\<close>

text \<open>
  Behind the first pass an error other than the two about the size leaves the loop unchanged, and
  the same request is sent again.
\<close>

lemma driver_loop_stuck:
  assumes stuck: "\<And>b w. P w \<Longrightarrow> \<exists>r b' w'. dc_ioctl E b w = (r, b', w') \<and> P w' \<and> \<not> io_success r \<and>
      io_error r \<noteq> ERROR_MORE_DATA \<and> io_error r \<noteq> ERROR_INSUFFICIENT_BUFFER"
    and "P w"
  shows "driver_loop E False b w = None"
proof -
  have "driver_loop E' f b w = Some y \<Longrightarrow> E' = E \<longrightarrow> \<not> f \<longrightarrow> \<not> P w" for E' f b w y
  proof (rule driver_loop.raw_induct[where P = "\<lambda>E' f b w y. E' = E \<longrightarrow> \<not> f \<longrightarrow> \<not> P w", rotated],
      assumption, goal_cases)
    case prems: (1 loop E' f b w y)
    show ?case
    proof (intro impI notI)
      assume E: "E' = E" and f: "\<not> f" and w: "P w"
      obtain r b' w' where r: "dc_ioctl E b w = (r, b', w')" "P w'" "\<not> io_success r"
        "io_error r \<noteq> ERROR_MORE_DATA" "io_error r \<noteq> ERROR_INSUFFICIENT_BUFFER"
        using stuck[OF w, of b] by blast
      with prems(3) E f have "loop E False b' w' = Some y" by simp
      from prems(2)[OF this] r(2) show False by simp
    qed
  qed
  then show ?thesis using assms(2) by (cases "driver_loop E False b w") auto
qed

section \<open>Client and driver\<close>

text \<open>
  Buffered I/O, as documented for \<open>METHOD_BUFFERED\<close>: the handler is called with a system buffer of the
  size of the user's; the call succeeds where its status is a success, and returns as many bytes as
  the handler reported; a buffer overflow status becomes \<open>ERROR_MORE_DATA\<close>; and the reported bytes are
  copied back. The state of the environment is the driver's.
\<close>

type_synonym 's ioctl =
  "ULONGLONG \<Rightarrow> ULONG \<Rightarrow> out_buffer \<Rightarrow> 's \<Rightarrow> ((completion \<times> out_buffer) \<times> 's) option"

definition copied :: "nat \<Rightarrow> out_buffer \<Rightarrow> out_buffer \<Rightarrow> bool" where
  "copied bytes sys user \<longleftrightarrow>
     (header_size \<le> bytes \<longrightarrow> header user = header sys) \<and>
     take ((bytes - header_size) div entry_size) (slots user) = take ((bytes - header_size) div entry_size) (slots sys)"

definition carried :: "'s dc_env \<Rightarrow> 's ioctl \<Rightarrow> ubuf \<Rightarrow> 's \<Rightarrow> out_buffer \<Rightarrow> bool" where
  "carried E H b s sys \<longleftrightarrow> buffer_of_size (ucast (u_size b)) sys \<and>
     (\<forall>c sys' s'. H (ucast (u_size b)) IOCTL_GET_DATA sys s = Some ((c, sys'), s') \<longrightarrow>
        buffer_of_size (ucast (u_size b)) sys' \<longrightarrow> unat (completion_bytes c) \<le> unat (u_size b) \<longrightarrow>
        (\<exists>r b'. dc_ioctl E b s = (r, b', s') \<and> u_size b' = u_size b \<and>
           buffer_of_size (ucast (u_size b)) (u_data b') \<and>
           io_success r = NT_SUCCESS (completion_status c) \<and> io_bytes r = ucast (completion_bytes c) \<and>
           (completion_status c = STATUS_BUFFER_OVERFLOW \<longrightarrow> io_error r = ERROR_MORE_DATA) \<and>
           copied (unat (completion_bytes c)) sys' (u_data b')))"

definition transports :: "'s dc_env \<Rightarrow> 's ioctl \<Rightarrow> bool" where
  "transports E H \<longleftrightarrow> (\<forall>b s. \<exists>sys. carried E H b s sys)"

lemma carriedD:
  assumes "carried E H b s sys"
    and "H (ucast (u_size b)) IOCTL_GET_DATA sys s = Some ((CompleteWithInformation st n, sys'), s')"
    and "buffer_of_size (ucast (u_size b)) sys'" and "unat n \<le> unat (u_size b)"
  obtains r b' where "dc_ioctl E b s = (r, b', s')" "u_size b' = u_size b"
    "io_success r = NT_SUCCESS st" "io_bytes r = ucast n"
    "st = STATUS_BUFFER_OVERFLOW \<longrightarrow> io_error r = ERROR_MORE_DATA" "copied (unat n) sys' (u_data b')"
proof -
  from assms have "\<exists>r b'. dc_ioctl E b s = (r, b', s') \<and> u_size b' = u_size b \<and>
     io_success r = NT_SUCCESS st \<and> io_bytes r = ucast n \<and>
     (st = STATUS_BUFFER_OVERFLOW \<longrightarrow> io_error r = ERROR_MORE_DATA) \<and> copied (unat n) sys' (u_data b')"
    unfolding carried_def by fastforce
  then show ?thesis using that by blast
qed

text \<open>An allocator that has memory.\<close>

definition allocates :: "'s dc_env \<Rightarrow> bool" where
  "allocates E \<longleftrightarrow> (\<forall>n s. \<exists>b. dc_malloc E n s = (Some b, s) \<and> u_size b = n) \<and>
     (\<forall>b n s. \<exists>b'. dc_realloc E b n s = (Some b', s) \<and> u_size b' = n)"

text \<open>The same environment, which also notes the size of the buffer of every request.\<close>

definition noting :: "'s dc_env \<Rightarrow> ('s \<times> ULONG list) dc_env" where
  "noting E =
     \<lparr>dc_open = (\<lambda>path (s, l). case dc_open E path s of (r, s) \<Rightarrow> (r, (s, l))),
      dc_malloc = (\<lambda>n (s, l). case dc_malloc E n s of (r, s) \<Rightarrow> (r, (s, l))),
      dc_realloc = (\<lambda>b n (s, l). case dc_realloc E b n s of (r, s) \<Rightarrow> (r, (s, l))),
      dc_ioctl = (\<lambda>b (s, l). case dc_ioctl E b s of (r, b', s) \<Rightarrow> (r, b', (s, l @ [u_size b])))\<rparr>"

lemma noting_simps [simp]:
  "dc_malloc (noting E) n (s, l) = (case dc_malloc E n s of (r, s) \<Rightarrow> (r, (s, l)))"
  "dc_realloc (noting E) b n (s, l) = (case dc_realloc E b n s of (r, s) \<Rightarrow> (r, (s, l)))"
  "dc_ioctl (noting E) b (s, l) = (case dc_ioctl E b s of (r, b', s) \<Rightarrow> (r, b', (s, l @ [u_size b])))"
  by (simp_all add: noting_def)

lemma overflow_not_success: "\<not> NT_SUCCESS STATUS_BUFFER_OVERFLOW"
  by (simp add: NT_SUCCESS_def STATUS_BUFFER_OVERFLOW_def)

locale telemetry_handler =
  fixes H :: "'s ioctl"
    and R :: "'s \<Rightarrow> bool"
    and need :: nat
    and tags :: "tag list"
  assumes query: "R s \<Longrightarrow> buffer_of_size L b \<Longrightarrow> header_size \<le> unat L \<Longrightarrow> unat L < need \<Longrightarrow>
      \<exists>b' s'. H L IOCTL_GET_DATA b s =
          Some ((CompleteWithInformation STATUS_BUFFER_OVERFLOW (word_of_nat header_size), b'), s') \<and> R s' \<and>
        buffer_of_size L b' \<and> unat (required_size (header b')) = need"
    and full: "R s \<Longrightarrow> buffer_of_size L b \<Longrightarrow> unat L = need \<Longrightarrow>
      \<exists>b' s'. H L IOCTL_GET_DATA b s =
          Some ((CompleteWithInformation STATUS_SUCCESS (word_of_nat (header_size + length tags * entry_size)), b'), s') \<and>
        R s' \<and> buffer_of_size L b' \<and> unat (entry_count (header b')) = length tags \<and>
        map tag_of (take (length tags) (slots b')) = tags"
    and room: "R s \<Longrightarrow> header_size < need \<and> header_size + length tags * entry_size \<le> need \<and> need < 2 ^ 32"
    and names: "t \<in> set tags \<Longrightarrow> NUL \<in> set (fst t)"
begin

lemma names_end: "map tag_of ds = tags \<Longrightarrow> list_all (\<lambda>d. NUL \<in> set (data_name d)) ds"
  using names by (fastforce simp: list_all_iff tag_of_def)

lemma first_pass:
  assumes "R s" and "transports E H" and "u_size b = word_of_nat header_size"
  shows "\<exists>r b' s' sys sys'. dc_ioctl E b s = (r, b', s') \<and> R s' \<and> \<not> io_success r \<and> io_error r = ERROR_MORE_DATA \<and>
     (\<exists>h. read_header b' = Some h \<and> unat (required_size h) = need) \<and>
     H (word_of_nat header_size) IOCTL_GET_DATA sys s =
       Some ((CompleteWithInformation STATUS_BUFFER_OVERFLOW (word_of_nat header_size), sys'), s')"
proof -
  from assms(2) obtain sys where c: "carried E H b s sys" unfolding transports_def by blast
  then have sys: "buffer_of_size (ucast (u_size b)) sys" by (simp add: carried_def)
  have size: "unat (u_size b) = header_size" using assms(3) by (simp add: size_simps)
  from query[OF assms(1) sys] room[OF assms(1)] size obtain sys' s' where
    q: "H (ucast (u_size b)) IOCTL_GET_DATA sys s =
        Some ((CompleteWithInformation STATUS_BUFFER_OVERFLOW (word_of_nat header_size), sys'), s')" "R s'"
      "buffer_of_size (ucast (u_size b)) sys'" "unat (required_size (header sys')) = need"
    by auto
  from size have "unat (word_of_nat header_size :: ULONGLONG) \<le> unat (u_size b)" by simp
  with c q(1,3) obtain r b' where
    r: "dc_ioctl E b s = (r, b', s')" "u_size b' = u_size b"
    and st: "io_success r = NT_SUCCESS STATUS_BUFFER_OVERFLOW" "io_bytes r = ucast (word_of_nat header_size :: ULONGLONG)"
    "STATUS_BUFFER_OVERFLOW = STATUS_BUFFER_OVERFLOW \<longrightarrow> io_error r = ERROR_MORE_DATA"
    "copied (unat (word_of_nat header_size :: ULONGLONG)) sys' (u_data b')"
    by (rule carriedD)
  have "\<not> io_success r" "io_error r = ERROR_MORE_DATA" "header (u_data b') = header sys'"
    using st by (simp_all add: overflow_not_success copied_def)
  moreover have "ucast (u_size b) = (word_of_nat header_size :: ULONGLONG)" using assms(3) by (simp add: size_simps)
  ultimately show ?thesis using r(1,2) q(1,2,4) size by (auto simp: read_header_def)
qed

lemma second_pass:
  assumes "R s" and "transports E H" and "unat (u_size b) = need"
  shows "\<exists>r b' s' ds sys sys'. dc_ioctl E b s = (r, b', s') \<and> R s' \<and> io_success r \<and>
     on_success b' (io_bytes r) = Returned (Some ds) \<and> map tag_of ds = tags \<and> ds = take (length tags) (slots sys') \<and>
     H (word_of_nat need) IOCTL_GET_DATA sys s =
       Some ((CompleteWithInformation STATUS_SUCCESS (word_of_nat (header_size + length tags * entry_size)), sys'), s')"
proof -
  from assms(2) obtain sys where c: "carried E H b s sys" unfolding transports_def by blast
  then have sys: "buffer_of_size (ucast (u_size b)) sys" by (simp add: carried_def)
  define k where "k = header_size + length tags * entry_size"
  have k: "k < 2 ^ 32" "k \<le> unat (u_size b)" "header_size \<le> k" "(k - header_size) div entry_size = length tags"
    using room[OF assms(1)] assms(3) by (auto simp: k_def size_simps)
  from full[OF assms(1) sys] assms(3) obtain sys' s' where
    q: "H (ucast (u_size b)) IOCTL_GET_DATA sys s =
        Some ((CompleteWithInformation STATUS_SUCCESS (word_of_nat k), sys'), s')" "R s'"
      "buffer_of_size (ucast (u_size b)) sys'" "unat (entry_count (header sys')) = length tags"
      "map tag_of (take (length tags) (slots sys')) = tags"
    by (auto simp: k_def)
  have kb: "unat (word_of_nat k :: ULONGLONG) = k" "unat (ucast (word_of_nat k :: ULONGLONG) :: ULONG) = k"
    using k(1) by (simp_all add: unat_word_of_nat_small unat_ucast_small)
  from kb k(2) have "unat (word_of_nat k :: ULONGLONG) \<le> unat (u_size b)" by simp
  with c q(1,3) obtain r b' where
    r1: "dc_ioctl E b s = (r, b', s')" "u_size b' = u_size b"
    and st: "io_success r = NT_SUCCESS STATUS_SUCCESS" "io_bytes r = ucast (word_of_nat k :: ULONGLONG)"
    "STATUS_SUCCESS = STATUS_BUFFER_OVERFLOW \<longrightarrow> io_error r = ERROR_MORE_DATA"
    "copied (unat (word_of_nat k :: ULONGLONG)) sys' (u_data b')"
    by (rule carriedD)
  have r: "dc_ioctl E b s = (r, b', s')" "u_size b' = u_size b" "io_success r" "unat (io_bytes r) = k"
      "copied k sys' (u_data b')"
    using r1 st kb by simp_all
  let ?ds = "take (length tags) (slots (u_data b'))"
  from r(5) k have hd: "header (u_data b') = header sys'" and same: "?ds = take (length tags) (slots sys')"
    by (auto simp: copied_def)
  with q(5) have ds: "map tag_of ?ds = tags" by simp
  have L: "ucast (u_size b) = (word_of_nat need :: ULONGLONG)"
    using assms(3) by (metis of_nat_unat)
  have len: "length tags \<le> length (slots (u_data b'))"
    using arg_cong[OF ds, of length] by simp
  have "on_success b' (io_bytes r) = Returned (Some ?ds)"
    using hd q(4) r(2,4) len k(2,3) names_end[OF ds]
    by (simp add: on_success_def read_header_def k_def)
  with r(1,3) q(1,2) ds same show ?thesis unfolding L k_def by blast
qed

text \<open>The client gets every metric in two requests, and keeps what the second one has returned.\<close>

lemma client_exchange:
  assumes "R s" and "transports E H" and "allocates E" and "h_device_valid dc"
  shows "\<exists>ds s1 s' b0 b0' b1 b1'.
    runDriver E dc s = Some (Returned ds, dc\<lparr>ret_data := ds\<rparr>, s') \<and>
    runDriver (noting E) dc (s, l) =
      Some (Returned ds, dc\<lparr>ret_data := ds\<rparr>, (s', l @ [word_of_nat header_size, word_of_nat need])) \<and>
    H (word_of_nat header_size) IOCTL_GET_DATA b0 s =
      Some ((CompleteWithInformation STATUS_BUFFER_OVERFLOW (word_of_nat header_size), b0'), s1) \<and>
    H (word_of_nat need) IOCTL_GET_DATA b1 s1 =
      Some ((CompleteWithInformation STATUS_SUCCESS (word_of_nat (header_size + length tags * entry_size)), b1'), s') \<and>
    ds = take (length tags) (slots b1') \<and> map tag_of ds = tags \<and> R s'"
proof -
  from assms(3) obtain b where b: "dc_malloc E (word_of_nat header_size) s = (Some b, s)"
    "u_size b = word_of_nat header_size" unfolding allocates_def by blast
  from first_pass[OF assms(1,2) b(2)] obtain r b1 s1 h c0 c0' where
    1: "dc_ioctl E b s = (r, b1, s1)" "R s1" "\<not> io_success r" "io_error r = ERROR_MORE_DATA"
      "read_header b1 = Some h" "unat (required_size h) = need"
      "H (word_of_nat header_size) IOCTL_GET_DATA c0 s =
        Some ((CompleteWithInformation STATUS_BUFFER_OVERFLOW (word_of_nat header_size), c0'), s1)"
    by blast
  from assms(3) obtain b2 where b2: "dc_realloc E b1 (required_size h) s1 = (Some b2, s1)"
    "u_size b2 = required_size h" unfolding allocates_def by blast
  with 1(6) have need: "unat (u_size b2) = need" "u_size b2 = word_of_nat need" by (auto simp: word_unat_eq_iff)
  from second_pass[OF 1(2) assms(2) need(1)] obtain r2 b3 s2 ds c1 c1' where
    2: "dc_ioctl E b2 s1 = (r2, b3, s2)" "R s2" "io_success r2" "on_success b3 (io_bytes r2) = Returned (Some ds)"
      "map tag_of ds = tags" "ds = take (length tags) (slots c1')"
      "H (word_of_nat need) IOCTL_GET_DATA c1 s1 =
        Some ((CompleteWithInformation STATUS_SUCCESS (word_of_nat (header_size + length tags * entry_size)), c1'), s2)"
    by blast
  have "driver_loop E False b2 s1 = Some (Returned (Some ds), s2)"
    "driver_loop (noting E) False b2 (s1, k) = Some (Returned (Some ds), (s2, k @ [word_of_nat need]))" for k
    by (subst driver_loop.simps, simp add: 2(1,3,4) need(2))+
  then have "driver_loop E True b s = Some (Returned (Some ds), s2)"
    "driver_loop (noting E) True b (s, l) = Some (Returned (Some ds), (s2, l @ [word_of_nat header_size, word_of_nat need]))"
    by (subst driver_loop.simps, simp add: 1(1,3-5) b2(1) b(2))+
  then have "runDriver E dc s = Some (Returned ds, dc\<lparr>ret_data := ds\<rparr>, s2)"
    "runDriver (noting E) dc (s, l) =
      Some (Returned ds, dc\<lparr>ret_data := ds\<rparr>, (s2, l @ [word_of_nat header_size, word_of_nat need]))"
    using assms(4) b(1) by (simp_all add: runDriver_def)
  with 1(7) 2(2,5-7) show ?thesis by blast
qed

lemma client_reads:
  assumes "R s" and "transports E H" and "allocates E" and "h_device_valid dc"
  shows "\<exists>ds s'. runDriver E dc s = Some (Returned ds, dc\<lparr>ret_data := ds\<rparr>, s') \<and> R s' \<and> map tag_of ds = tags"
  using client_exchange[OF assms] by blast

lemma restricted: "telemetry_handler H (\<lambda>s. R s \<and> P) need tags"
  by unfold_locales (use query full room names in blast)+

end

section \<open>Both drivers serve the client\<close>

text \<open>
  A machine with \<open>n\<close> processors of one vendor, whose kernel knows every processor index and hands out
  the request's buffer.
\<close>

definition cooperative :: "'w kernel \<Rightarrow> ULONG \<Rightarrow> CPU_VENDOR \<Rightarrow> bool" where
  "cooperative K n v \<longleftrightarrow> (\<forall>w. k_active_procs K w = n \<and> DetectCpuVendor (k_cpuid K w) = v \<and>
     (\<forall>i. i < n \<longrightarrow> k_proc_number K w i \<noteq> None) \<and> (\<forall>m L. NT_SUCCESS (fst (k_retrieve_output K m L w))))"

lemma package_name_end: "length lit < name_size \<Longrightarrow> NUL \<in> set (pad_name lit)"
  by (simp add: pad_name_def)

lemma core_name_end: "length sfx \<le> 20 \<Longrightarrow> NUL \<in> set (pad_name (core_name i sfx))"
  using length_digit_loop[of 0 i "[]"] by (simp add: pad_name_def core_name_def size_simps)

lemma amd_names: "t \<in> set (amd_entries n) \<Longrightarrow> NUL \<in> set (fst t)"
  by (auto simp: amd_entries_def amd_core_tags_def amd_package_tags_def core_tag_def package_tag_def
      intro!: package_name_end core_name_end) (simp_all add: size_simps)

lemma intel_names: "t \<in> set (intel_entries th ra n) \<Longrightarrow> NUL \<in> set (fst t)"
  by (auto simp: intel_entries_def intel_core_tags_def intel_package_tags_def core_tag_def package_tag_def
      split: if_splits intro!: package_name_end core_name_end) (simp_all add: size_simps)

definition amd_serving :: "'w kernel \<Rightarrow> ULONG \<Rightarrow> 'w amd_st \<Rightarrow> bool" where
  "amd_serving K n s \<longleftrightarrow> amd_running K s \<and> cooperative K n CPU_VENDOR_AMD \<and> 3 * unat n + 4 < 2 ^ 16"

definition intel_serving :: "'w kernel \<Rightarrow> bool \<Rightarrow> bool \<Rightarrow> ULONG \<Rightarrow> 'w intel_st \<Rightarrow> bool" where
  "intel_serving K th ra n s \<longleftrightarrow>
     intel_running K th ra s \<and> cooperative K n CPU_VENDOR_INTEL \<and> 4 * unat n + 3 < 2 ^ 16"

lemma amd_query:
  assumes "amd_serving K n s" and "buffer_of_size L b" and "header_size \<le> unat L"
    and "unat L < header_size + (3 * unat n + 4) * entry_size"
  shows "\<exists>b' s'. amd_EvtIoDeviceControl K L IOCTL_GET_DATA b s =
      Some ((CompleteWithInformation STATUS_BUFFER_OVERFLOW (word_of_nat header_size), b'), s') \<and> amd_serving K n s' \<and>
    buffer_of_size L b' \<and> unat (required_size (header b')) = header_size + (3 * unat n + 4) * entry_size"
proof -
  have n: "k_active_procs K (world s) = n" using assms(1) by (simp add: amd_serving_def cooperative_def)
  obtain st w where ret: "k_retrieve_output K (word_of_nat header_size) L (world s) = (st, w)" by fastforce
  have st: "NT_SUCCESS st"
    using assms(1) ret by (auto simp: amd_serving_def cooperative_def dest!: spec[of _ "world s"]) (metis fst_conv)
  have "amd_serving K n (s\<lparr>world := w\<rparr>)"
    using assms(1) by (auto simp: amd_serving_def intro: amd_running.machine)
  with amd.handler_size_query[of K s L st w b] assms ret st show ?thesis
    by (auto simp: n amd_announced amd_EvtIoDeviceControl_def buffer_of_size_def amd_serving_def amd.fresh_header_def)
qed

lemma amd_full:
  assumes "amd_serving K n s" and "buffer_of_size L b" and "unat L = header_size + (3 * unat n + 4) * entry_size"
  shows "\<exists>b' s'. amd_EvtIoDeviceControl K L IOCTL_GET_DATA b s =
      Some ((CompleteWithInformation STATUS_SUCCESS (word_of_nat (header_size + length (amd_entries n) * entry_size)), b'), s') \<and>
    amd_serving K n s' \<and> buffer_of_size L b' \<and> unat (entry_count (header b')) = length (amd_entries n) \<and>
    map tag_of (take (length (amd_entries n)) (slots b')) = amd_entries n"
proof -
  have run: "amd_running K s" and small: "3 * unat n + 4 < 2 ^ 16" and coop: "cooperative K n CPU_VENDOR_AMD"
    using assms(1) by (simp_all add: amd_serving_def)
  have n: "n = k_active_procs K (world s)" using coop by (simp add: cooperative_def)
  obtain st w where ret: "k_retrieve_output K (word_of_nat header_size) L (world s) = (st, w)" by fastforce
  have st: "NT_SUCCESS st" using coop ret unfolding cooperative_def by (metis fst_conv)
  have vendor: "DetectCpuVendor (k_cpuid K w) = CPU_VENDOR_AMD" using coop by (simp add: cooperative_def)
  have known: "\<And>w i. i \<in> set (proc_indices n) \<Longrightarrow> k_proc_number K w i \<noteq> None"
    using coop proc_indices_less by (auto simp: cooperative_def)
  have L: "unat L < 2 ^ 32" "header_size + (3 * unat n + 4) * entry_size \<le> unat L"
    using assms(3) small by (simp_all add: size_simps)
  from amd_delivers[OF run assms(2) n small L(2) L(1) known ret st vendor] obtain b' s' where
    d: "amd_EvtIoDeviceControl K L IOCTL_GET_DATA b s = Some ((CompleteWithInformation STATUS_SUCCESS
          (word_of_nat (header_size + (3 * unat n + 4) * entry_size)), b'), s')"
      "entry_count (header b') = word_of_nat (3 * unat n + 4)"
      "map tag_of (take (3 * unat n + 4) (slots b')) = amd_entries n"
    by blast
  have "amd_serving K n s'"
    using amd_running.request[OF run assms(2) d(1)] assms(1) by (simp add: amd_serving_def)
  moreover have "buffer_of_size L b'"
    using amd_handler_safe[OF amd_running_wf[OF run] assms(2), of K IOCTL_GET_DATA] d(1) by auto
  moreover have "unat (entry_count (header b')) = 3 * unat n + 4"
    unfolding d(2) using small by (intro unat_word_of_nat_small) simp
  ultimately show ?thesis using d by (simp add: length_amd_entries)
qed

interpretation amd_client: telemetry_handler "amd_EvtIoDeviceControl K" "amd_serving K n"
  "header_size + (3 * unat n + 4) * entry_size" "amd_entries n" for K :: "'w kernel" and n
  by unfold_locales
     (fact amd_query amd_full amd_names | (simp add: amd_serving_def length_amd_entries size_simps))+

lemma intel_query:
  assumes "intel_serving K th ra n s" and "buffer_of_size L b" and "header_size \<le> unat L"
    and "unat L < header_size + (4 * unat n + 3) * entry_size"
  shows "\<exists>b' s'. intel_EvtIoDeviceControl K L IOCTL_GET_DATA b s =
      Some ((CompleteWithInformation STATUS_BUFFER_OVERFLOW (word_of_nat header_size), b'), s') \<and> intel_serving K th ra n s' \<and>
    buffer_of_size L b' \<and> unat (required_size (header b')) = header_size + (4 * unat n + 3) * entry_size"
proof -
  have n: "k_active_procs K (world s) = n" using assms(1) by (simp add: intel_serving_def cooperative_def)
  obtain st w where ret: "k_retrieve_output K (word_of_nat header_size) L (world s) = (st, w)" by fastforce
  have st: "NT_SUCCESS st"
    using assms(1) ret by (auto simp: intel_serving_def cooperative_def dest!: spec[of _ "world s"]) (metis fst_conv)
  have "intel_serving K th ra n (s\<lparr>world := w\<rparr>)"
    using assms(1) by (auto simp: intel_serving_def intro: intel_running.machine)
  with intel.handler_size_query[of K s L st w b] assms ret st show ?thesis
    by (auto simp: n intel_announced intel_EvtIoDeviceControl_def buffer_of_size_def intel_serving_def intel.fresh_header_def)
qed

lemma intel_count_le: "intel_count th ra n \<le> 4 * unat n + 3"
  by (simp add: intel_count_def)

lemma intel_full:
  assumes "intel_serving K th ra n s" and "buffer_of_size L b" and "unat L = header_size + (4 * unat n + 3) * entry_size"
  shows "\<exists>b' s'. intel_EvtIoDeviceControl K L IOCTL_GET_DATA b s =
      Some ((CompleteWithInformation STATUS_SUCCESS (word_of_nat (header_size + length (intel_entries th ra n) * entry_size)), b'), s') \<and>
    intel_serving K th ra n s' \<and> buffer_of_size L b' \<and> unat (entry_count (header b')) = length (intel_entries th ra n) \<and>
    map tag_of (take (length (intel_entries th ra n)) (slots b')) = intel_entries th ra n"
proof -
  have run: "intel_running K th ra s" and small: "4 * unat n + 3 < 2 ^ 16" and coop: "cooperative K n CPU_VENDOR_INTEL"
    using assms(1) by (simp_all add: intel_serving_def)
  have n: "n = k_active_procs K (world s)" using coop by (simp add: cooperative_def)
  obtain st w where ret: "k_retrieve_output K (word_of_nat header_size) L (world s) = (st, w)" by fastforce
  have st: "NT_SUCCESS st" using coop ret unfolding cooperative_def by (metis fst_conv)
  have vendor: "DetectCpuVendor (k_cpuid K w) = CPU_VENDOR_INTEL" using coop by (simp add: cooperative_def)
  have known: "\<And>w i. i \<in> set (proc_indices n) \<Longrightarrow> k_proc_number K w i \<noteq> None"
    using coop proc_indices_less by (auto simp: cooperative_def)
  have L: "unat L < 2 ^ 32" "header_size + (4 * unat n + 3) * entry_size \<le> unat L"
    using assms(3) small by (simp_all add: size_simps)
  from intel_delivers[OF run assms(2) n small L(2) L(1) known ret st vendor] obtain b' s' where
    d: "intel_EvtIoDeviceControl K L IOCTL_GET_DATA b s = Some ((CompleteWithInformation STATUS_SUCCESS
          (word_of_nat (header_size + intel_count th ra n * entry_size)), b'), s')"
      "entry_count (header b') = word_of_nat (intel_count th ra n)"
      "map tag_of (take (intel_count th ra n) (slots b')) = intel_entries th ra n"
    by blast
  have "intel_serving K th ra n s'"
    using intel_running.request[OF run assms(2) d(1)] assms(1) by (simp add: intel_serving_def)
  moreover have "buffer_of_size L b'"
    using intel_handler_safe[OF intel_running_wf[OF run] assms(2), of K IOCTL_GET_DATA] d(1) by auto
  moreover have "unat (entry_count (header b')) = intel_count th ra n"
    unfolding d(2) using small intel_count_le[of th ra n] by (intro unat_word_of_nat_small) simp
  ultimately show ?thesis using d by (simp add: length_intel_entries)
qed

interpretation intel_client: telemetry_handler "intel_EvtIoDeviceControl K" "intel_serving K th ra n"
  "header_size + (4 * unat n + 3) * entry_size" "intel_entries th ra n" for K :: "'w kernel" and th ra n
  by unfold_locales
     (fact intel_query intel_full intel_names
       | (use intel_count_le[of th ra n] in \<open>simp add: intel_serving_def length_intel_entries size_simps\<close>))+

section \<open>The client's guarantees\<close>

text \<open>
  C8: Client and AMD driver together: with the driver loaded, the documented buffered I/O between them
  and memory available, \<open>runDriver\<close> sends exactly two requests, one with a buffer for the header alone, which the driver answers
  with the size it needs, and one with a buffer of just that size; it returns and stores the entries that the driver has put into
  its second answer, values included: the complete list of metrics, in the driver's order.
\<close>

theorem runDriver_reads_amd:
  assumes "amd_serving K n s" and "transports E (amd_EvtIoDeviceControl K)" and "allocates E" and "h_device_valid dc"
  shows "\<exists>ds s1 s' b0 b0' b1 b1'.
    runDriver E dc s = Some (Returned ds, dc\<lparr>ret_data := ds\<rparr>, s') \<and>
    runDriver (noting E) dc (s, []) = Some (Returned ds, dc\<lparr>ret_data := ds\<rparr>,
      (s', [word_of_nat header_size, word_of_nat (header_size + (3 * unat n + 4) * entry_size)])) \<and>
    amd_EvtIoDeviceControl K (word_of_nat header_size) IOCTL_GET_DATA b0 s =
      Some ((CompleteWithInformation STATUS_BUFFER_OVERFLOW (word_of_nat header_size), b0'), s1) \<and>
    amd_EvtIoDeviceControl K (word_of_nat (header_size + (3 * unat n + 4) * entry_size)) IOCTL_GET_DATA b1 s1 =
      Some ((CompleteWithInformation STATUS_SUCCESS (word_of_nat (header_size + (3 * unat n + 4) * entry_size)), b1'), s') \<and>
    ds = take (3 * unat n + 4) (slots b1') \<and> map tag_of ds = amd_entries n \<and> amd_serving K n s'"
  using amd_client.client_exchange[OF assms, of "[]"] unfolding length_amd_entries append_Nil .

text \<open>An environment that carries requests to a handler, and has memory.\<close>

definition sample_env :: "'s ioctl \<Rightarrow> 's dc_env" where
  "sample_env H =
     \<lparr>dc_open = (\<lambda>path s. (True, s)),
      dc_malloc = (\<lambda>n s. (Some \<lparr>u_size = n, u_data = zeroed_buffer (ucast n)\<rparr>, s)),
      dc_realloc = (\<lambda>b n s. (Some \<lparr>u_size = n, u_data = zeroed_buffer (ucast n)\<rparr>, s)),
      dc_ioctl = (\<lambda>b s.
        case H (ucast (u_size b)) IOCTL_GET_DATA (zeroed_buffer (ucast (u_size b))) s of
          None \<Rightarrow> (\<lparr>io_success = False, io_bytes = 0, io_error = 31\<rparr>, b, s)
        | Some ((c, sys), s') \<Rightarrow>
            (\<lparr>io_success = NT_SUCCESS (completion_status c), io_bytes = ucast (completion_bytes c),
              io_error = (if completion_status c = STATUS_BUFFER_OVERFLOW then ERROR_MORE_DATA else 31)\<rparr>,
             b\<lparr>u_data := sys\<rparr>, s'))\<rparr>"

lemma sample_env_transports: "transports (sample_env H) H"
  unfolding transports_def carried_def
proof (intro allI, rule exI, intro conjI allI impI)
  fix b :: ubuf and s :: 'a
  show "buffer_of_size (ucast (u_size b)) (zeroed_buffer (ucast (u_size b)))" by simp
qed (simp add: sample_env_def copied_def)

lemma sample_env_allocates: "allocates (sample_env H)"
  by (simp add: allocates_def sample_env_def)

lemma sample_cooperative:
  "cooperative (sample_kernel amd_leaf0 n) n CPU_VENDOR_AMD" "cooperative (sample_kernel intel_leaf0 n) n CPU_VENDOR_INTEL"
  by (simp_all add: cooperative_def sample_is_amd sample_is_intel sample_fields)

definition open_client :: "CPU_VENDOR \<Rightarrow> driver_client" where
  "open_client v = \<lparr>h_device_valid = True, vendor = v, ret_data = []\<rparr>"

lemma runDriver_reads_amd_witness:
  "\<exists>s ds dc s'. runDriver (noting (sample_env (amd_EvtIoDeviceControl (sample_kernel amd_leaf0 2))))
     (open_client CPU_VENDOR_AMD) (s, []) = Some (Returned ds, dc, (s', [word_of_nat header_size, word_of_nat (header_size + 10 * entry_size)])) \<and>
     map tag_of ds = amd_entries 2"
proof -
  from amd_sample_running obtain s where "amd_running (sample_kernel amd_leaf0 2) s" by blast
  then have "amd_serving (sample_kernel amd_leaf0 2) 2 s"
    by (simp add: amd_serving_def sample_cooperative)
  from runDriver_reads_amd[OF this sample_env_transports sample_env_allocates, of "open_client CPU_VENDOR_AMD"]
  show ?thesis by (auto simp: open_client_def)
qed

text \<open>
  Client and Intel driver together, in the same way: the list has the package metrics the
  processor supports, although the size the driver announces reserves room for all of them.
\<close>

theorem runDriver_reads_intel:
  assumes "intel_serving K th ra n s" and "transports E (intel_EvtIoDeviceControl K)" and "allocates E"
    and "h_device_valid dc"
  shows "\<exists>ds s'. runDriver E dc s = Some (Returned ds, dc\<lparr>ret_data := ds\<rparr>, s') \<and> intel_serving K th ra n s' \<and>
     map tag_of ds = intel_entries th ra n"
  using assms by (rule intel_client.client_reads)

lemma runDriver_reads_intel_witness:
  "\<exists>th ra s ds dc s'. runDriver (sample_env (intel_EvtIoDeviceControl (sample_kernel intel_leaf0 2)))
     (open_client CPU_VENDOR_INTEL) s = Some (Returned ds, dc, s') \<and> map tag_of ds = intel_entries th ra 2"
proof -
  from intel_sample_running obtain th ra s where "intel_running (sample_kernel intel_leaf0 2) th ra s" by blast
  then have "intel_serving (sample_kernel intel_leaf0 2) th ra 2 s"
    by (simp add: intel_serving_def sample_cooperative)
  from runDriver_reads_intel[OF this sample_env_transports sample_env_allocates, of "open_client CPU_VENDOR_INTEL"]
  show ?thesis unfolding open_client_def by (simp, blast)
qed

text \<open>
  \<open>runDriver\<close> never returns where the call that follows the size query keeps failing with an error
  other than the two about the size, for example because the device has gone: behind the first pass
  such an error has no branch, and the loop repeats the same request for ever.
\<close>

theorem runDriver_diverges:
  assumes "h_device_valid dc" and "dc_malloc E (word_of_nat header_size) w = (Some b, wa)"
    and "dc_ioctl E b wa = (r, b', wb)" and "\<not> io_success r" and "io_error r = ERROR_MORE_DATA"
    and "header_size \<le> unat (u_size b')"
    and "dc_realloc E b' (required_size (header (u_data b'))) wb = (Some bb, wc)"
    and "P wc"
    and "\<And>b w. P w \<Longrightarrow> \<exists>r b' w'. dc_ioctl E b w = (r, b', w') \<and> P w' \<and> \<not> io_success r \<and>
      io_error r \<noteq> ERROR_MORE_DATA \<and> io_error r \<noteq> ERROR_INSUFFICIENT_BUFFER"
  shows "runDriver E dc w = None"
proof -
  have stuck: "driver_loop E False bb wc = None"
    using assms(9,8) by (rule driver_loop_stuck)
  have "driver_loop E True b wa = None"
    by (subst driver_loop.simps) (simp add: assms(3-7) read_header_def stuck)
  then show ?thesis by (simp add: runDriver_def assms(1,2))
qed

text \<open>A driver that is removed behind the size query: its state is whether it is still there.\<close>

definition removed_env :: "bool dc_env" where
  "removed_env =
     \<lparr>dc_open = (\<lambda>path s. (True, s)),
      dc_malloc = (\<lambda>n s. (Some \<lparr>u_size = n, u_data = zeroed_buffer (ucast n)\<rparr>, s)),
      dc_realloc = (\<lambda>b n s. (Some \<lparr>u_size = n, u_data = zeroed_buffer (ucast n)\<rparr>, s)),
      dc_ioctl = (\<lambda>b present.
        if present then (\<lparr>io_success = False, io_bytes = 12, io_error = ERROR_MORE_DATA\<rparr>,
          b\<lparr>u_data := set_header (required_size_update (\<lambda>_. 320)) (u_data b)\<rparr>, False)
        else (\<lparr>io_success = False, io_bytes = 0, io_error = 6\<rparr>, b, False))\<rparr>"

lemma runDriver_diverges_witness: "runDriver removed_env (open_client CPU_VENDOR_AMD) True = None"
  by (rule runDriver_diverges[where P = Not and wa = True and wb = False and wc = False])
     (simp_all add: removed_env_def open_client_def size_simps ERROR_MORE_DATA_def ERROR_INSUFFICIENT_BUFFER_def,
      auto)

section \<open>What a client prints and closes\<close>

text \<open>A name that no NUL ends is read past its array: \<open>None\<close>.\<close>

definition print_entry :: "CPU_DATA \<Rightarrow> string option" where
  "print_entry e =
     (if NUL \<notin> set (data_name e) then None
      else Some (cstr (data_name e) @ '': '' @ show_nat (unat (data_value e)) @ '' (cpu_id='' @ show_nat (unat (cpu_id e)) @
        '' type='' @ show_nat (unat (data_type e)) @ '' unit='' @ show_nat (unat (data_unit e)) @ '')'' @ [CHR 0x0A]))"

fun print_entries :: "CPU_DATA list \<Rightarrow> string option" where
  "print_entries [] = Some []"
| "print_entries (e # es) = do { t \<leftarrow> print_entry e; ts \<leftarrow> print_entries es; Some (t @ ts) }"

definition printDriverOutput :: "driver_client \<Rightarrow> string option" where
  "printDriverOutput dc = print_entries (ret_data dc)"

text \<open>What the client has read of a driver can be printed.\<close>

lemma print_entries_total: "list_all (\<lambda>e. NUL \<in> set (data_name e)) es \<Longrightarrow> print_entries es \<noteq> None"
  by (induction es) (auto simp: print_entry_def)

lemma printDriverOutput_amd:
  assumes "map tag_of (ret_data dc) = amd_entries n"
  shows "printDriverOutput dc \<noteq> None"
  unfolding printDriverOutput_def by (intro print_entries_total) (rule amd_client.names_end[OF assms])

text \<open>
  The destructor closes the handle. The class has no copy constructor of its own, so a copy, as \<open>OutputHandler\<close> keeps one,
  has the same handle and closes it again.
\<close>

definition destroy_DriverClient :: "('w \<Rightarrow> 'w) \<Rightarrow> driver_client \<Rightarrow> 'w \<Rightarrow> 'w" where
  "destroy_DriverClient close_handle dc w = (if h_device_valid dc then close_handle w else w)"

definition OutputHandler_client :: "driver_client \<Rightarrow> driver_client" where
  "OutputHandler_client driver = driver"

lemma copied_handle_closed_twice:
  "h_device_valid dc \<Longrightarrow>
   destroy_DriverClient Suc dc (destroy_DriverClient Suc (OutputHandler_client dc) n) = n + 2"
  by (simp add: destroy_DriverClient_def OutputHandler_client_def)

end
