(* ===== verification/Float32.thy ===== *)
theory Float32
  imports Prelude
begin

text \<open>
  The values of C++'s \<open>float\<close> the program computes with: the finite ones, as rational numbers. An
  operation rounds its exact result to the nearest value with a 24-bit significand, ties to even
  (IEEE 754 binary32). Infinities and NaN do not occur: every value starts as an unsigned 32-bit
  integer or a sensor reading, and is at most divided by 1000.
\<close>

type_synonym float32 = rat

section \<open>Rounding\<close>

definition round_half_even :: "rat \<Rightarrow> int" where
  "round_half_even x =
     (let f = \<lfloor>x\<rfloor>; r = x - of_int f
      in if r < 1 / 2 then f else if 1 / 2 < r then f + 1 else if even f then f else f + 1)"

lemma round_half_even_int [simp]: "round_half_even (of_int n) = n"
  by (simp add: round_half_even_def)

lemma round_half_even_error: "\<bar>of_int (round_half_even x) - x\<bar> \<le> 1 / 2"
proof -
  define f where "f = \<lfloor>x\<rfloor>"
  have "of_int f \<le> x" "x < of_int f + 1" unfolding f_def by linarith+
  then show ?thesis
    unfolding round_half_even_def Let_def f_def[symmetric] by (auto simp: abs_if)
qed

text \<open>
  Scale a positive number by powers of two into the range of the 24-bit significands; the exponent
  never goes below that of the subnormal numbers. The first argument bounds the number of steps.
\<close>

fun normalize :: "nat \<Rightarrow> rat \<Rightarrow> int \<Rightarrow> rat \<times> int" where
  "normalize 0 x e = (x, e)"
| "normalize (Suc n) x e =
     (if 2 ^ 24 \<le> x then normalize n (x / 2) (e + 1)
      else if x < 2 ^ 23 \<and> - 149 < e then normalize n (2 * x) (e - 1)
      else (x, e))"

definition normalize_steps :: nat where
  "normalize_steps = 149"

definition round32 :: "rat \<Rightarrow> float32" where
  "round32 x =
     (if x = 0 then 0
      else case normalize normalize_steps \<bar>x\<bar> 0 of
        (y, e) \<Rightarrow> sgn x * of_int (round_half_even y) * 2 powi e)"

lemma normalize_value: "normalize n x e = (y, e') \<Longrightarrow> y * 2 powi e' = x * 2 powi e"
  by (induction n x e rule: normalize.induct)
     (auto split: if_splits simp: power_int_add power_int_diff)

text \<open>The steps suffice to bring every number between \<open>2^-100\<close> and \<open>2^100\<close> into the range.\<close>

lemma normalize_up:
  assumes "0 < x" "x < 2 ^ 23" "2 ^ 23 \<le> x * 2 ^ n" "int n - 149 \<le> e" "normalize n x e = (y, e')"
  shows "2 ^ 23 \<le> y \<and> y < 2 ^ 24"
  using assms
proof (induction n arbitrary: x e)
  case (Suc n)
  show ?case
  proof (cases "2 * x < 2 ^ 23")
    case True
    with Suc.prems show ?thesis by (intro Suc.IH[of "2 * x" "e - 1"]) (auto simp: algebra_simps)
  next
    case False
    have "normalize n (2 * x) (e - 1) = (2 * x, e - 1)" using False Suc.prems by (cases n) auto
    with Suc.prems False show ?thesis by auto
  qed
qed auto

lemma normalize_down:
  assumes "2 ^ 23 \<le> x" "x < 2 ^ (24 + n)" "normalize n x e = (y, e')"
  shows "2 ^ 23 \<le> y \<and> y < 2 ^ 24"
  using assms
proof (induction n arbitrary: x e)
  case (Suc n)
  show ?case
  proof (cases "2 ^ 24 \<le> x")
    case True
    with Suc.prems show ?thesis by (intro Suc.IH[of "x / 2" "e + 1"]) (auto simp: power_add)
  next
    case False
    with Suc.prems show ?thesis by auto
  qed
qed auto

lemma small_pos: "0 < 1 / (2 :: rat) ^ 100"
  by simp

lemma normalize_range:
  assumes "1 / 2 ^ 100 \<le> x" and "x < 2 ^ 100" and "normalize normalize_steps x 0 = (y, e)"
  shows "2 ^ 23 \<le> y \<and> y < 2 ^ 24"
proof (cases "x < 2 ^ 23")
  case True
  have "0 < x" using small_pos assms(1) by (rule less_le_trans)
  moreover have "2 ^ 23 \<le> x * 2 ^ 149"
  proof -
    have "(2 :: rat) ^ 23 \<le> (1 / 2 ^ 100) * 2 ^ 149" by simp
    also have "\<dots> \<le> x * 2 ^ 149" using assms(1) by (intro mult_right_mono) auto
    finally show ?thesis .
  qed
  ultimately show ?thesis
    using True assms(3) unfolding normalize_steps_def by (intro normalize_up[of x 149 0]) auto
next
  case False
  have "x < 2 ^ (24 + 149)" using assms(2) by (rule less_trans) simp
  with False assms(3) show ?thesis unfolding normalize_steps_def by (intro normalize_down[of x 149 0]) auto
qed

text \<open>The relative error of rounding is at most \<open>2^-24\<close>.\<close>

lemma round32_error:
  assumes "1 / 2 ^ 100 \<le> x" and "x < 2 ^ 100"
  shows "\<bar>round32 x - x\<bar> \<le> x / 2 ^ 24"
proof -
  obtain y e where n: "normalize normalize_steps x 0 = (y, e)" by fastforce
  have pos: "0 < x" using small_pos assms(1) by (rule less_le_trans)
  have y: "2 ^ 23 \<le> y" using normalize_range[OF assms n] by simp
  have x: "y * 2 powi e = x" using normalize_value[OF n] by simp
  have "round32 x - x = (of_int (round_half_even y) - y) * 2 powi e"
    using pos n x by (simp add: round32_def algebra_simps)
  then have "\<bar>round32 x - x\<bar> = \<bar>of_int (round_half_even y) - y\<bar> * 2 powi e"
    by (simp add: abs_mult)
  also have "\<dots> \<le> 1 / 2 * 2 powi e"
    by (intro mult_right_mono round_half_even_error) simp
  also have "\<dots> \<le> (y / 2 ^ 24) * 2 powi e"
    using y by (intro mult_right_mono) auto
  finally show ?thesis using x by (simp add: field_simps)
qed

text \<open>Integers up to \<open>2^24\<close> are exact.\<close>

lemma normalize_int:
  "normalize n (of_int k) e = (y, e') \<Longrightarrow> k < 2 ^ 24 \<Longrightarrow> \<exists>j. y = of_int j"
proof (induction n arbitrary: k e)
  case (Suc n)
  from Suc.prems Suc.IH[of "2 * k" "e - 1"] show ?case
    by (auto split: if_splits)
qed auto

lemma round32_nat:
  assumes "n < 2 ^ 24"
  shows "round32 (of_nat n) = of_nat n"
proof (cases "n = 0")
  case False
  obtain y e where nz: "normalize normalize_steps (of_int (int n)) 0 = (y, e)" by fastforce
  with assms obtain j where j: "y = of_int j"
    using normalize_int[OF nz] by auto
  from normalize_value[OF nz] j have "of_int j * 2 powi e = (of_nat n :: rat)" by simp
  with False nz j show ?thesis by (simp add: round32_def)
qed (simp add: round32_def)

section \<open>Operations\<close>

text \<open>\<open>static_cast<float>\<close> of a \<open>ULONG\<close>, and division.\<close>

definition float_of_ulong :: "ULONG \<Rightarrow> float32" where
  "float_of_ulong w = round32 (of_nat (unat w))"

definition float_div :: "float32 \<Rightarrow> float32 \<Rightarrow> float32" where
  "float_div a b = round32 (a / b)"

definition float_mul :: "float32 \<Rightarrow> float32 \<Rightarrow> float32" where
  "float_mul a b = round32 (a * b)"

text \<open>\<open>static_cast<float>\<close> of an \<open>int\<close>.\<close>

definition to_float :: "int \<Rightarrow> float32" where
  "to_float i = round32 (of_int i)"

lemma float_of_ulong_exact: "w < 2 ^ 24 \<Longrightarrow> float_of_ulong w = of_nat (unat w)"
  unfolding float_of_ulong_def by (rule round32_nat) (simp add: word_less_nat_alt)

section \<open>Printing\<close>

text \<open>
  \<open>std::fixed << std::setprecision(d)\<close>: the decimal numeral with \<open>d\<close> digits behind the point, of
  the exact value of the number rounded to nearest, ties to even.
\<close>

definition pad_left :: "nat \<Rightarrow> char \<Rightarrow> string \<Rightarrow> string" where
  "pad_left n c s = replicate (n - length s) c @ s"

definition show_fixed :: "nat \<Rightarrow> float32 \<Rightarrow> string" where
  "show_fixed d x =
     (let m = nat (round_half_even (\<bar>x\<bar> * 10 ^ d))
      in (if x < 0 then ''-'' else '''') @ show_nat (m div 10 ^ d) @
         (if d = 0 then '''' else ''.'' @ pad_left d (CHR ''0'') (show_nat (m mod 10 ^ d))))"

end
