(* ===== verification/Sensors.thy ===== *)
theory Sensors
  imports Float32 Cpu_Shared
begin

text \<open>
  Devices and their sensors: \<open>DeviceSensor.h\<close>, \<open>HardwareDevice.h\<close> and \<open>HardwareDevice.cpp\<close>, the
  snapshot they produce (\<open>ClientQueue.h\<close>), and the metrics of the processor
  (\<open>CPULiveMetrics.cpp\<close>). A device's sensors are a list in the order they were added, which
  \<open>addSensor\<close> updates in place: the interface \<open>key_value\<close> says what the last update of a key means
  wherever the program keeps values by key, and \<open>keyed_store\<close> extends it by the order of arrival.
\<close>

section \<open>Stores with keys in order of arrival\<close>

locale key_value =
  fixes upsert :: "'k \<Rightarrow> 'v \<Rightarrow> 's \<Rightarrow> 's"
    and lookup :: "'s \<Rightarrow> 'k \<Rightarrow> 'v option"
  assumes lookup_upsert: "lookup (upsert k v s) = (lookup s)(k \<mapsto> v)"
begin

definition upserts :: "('k \<times> 'v) list \<Rightarrow> 's \<Rightarrow> 's" where
  "upserts kvs s = fold (\<lambda>(k, v). upsert k v) kvs s"

lemma upserts_simps [simp]:
  "upserts [] s = s" "upserts ((k, v) # kvs) s = upserts kvs (upsert k v s)"
  by (simp_all add: upserts_def)

lemma lookup_upserts: "lookup (upserts kvs s) = lookup s ++ map_of (rev kvs)"
  by (induction kvs arbitrary: s) (auto simp: lookup_upsert fun_eq_iff map_add_def split: option.splits)

end

locale keyed_store = key_value upsert lookup
  for upsert :: "'k \<Rightarrow> 'v \<Rightarrow> 's \<Rightarrow> 's" and lookup :: "'s \<Rightarrow> 'k \<Rightarrow> 'v option" +
  fixes keys :: "'s \<Rightarrow> 'k list"
  assumes keys_upsert: "keys (upsert k v s) = (if k \<in> set (keys s) then keys s else keys s @ [k])"
begin

text \<open>The keys that arrive for the first time, in their order.\<close>

fun arrivals :: "'k list \<Rightarrow> 'k list \<Rightarrow> 'k list" where
  "arrivals known [] = []"
| "arrivals known (k # ks) =
     (if k \<in> set known then arrivals known ks else k # arrivals (known @ [k]) ks)"

lemma keys_upserts: "keys (upserts kvs s) = keys s @ arrivals (keys s) (map fst kvs)"
  by (induction kvs arbitrary: s) (auto simp: keys_upsert)

lemma arrivals_known: "set ks \<subseteq> set known \<Longrightarrow> arrivals known ks = []"
  by (induction ks) auto

lemma arrivals_distinct: "distinct ks \<Longrightarrow> set known \<inter> set ks = {} \<Longrightarrow> arrivals known ks = ks"
  by (induction ks arbitrary: known) auto

lemma distinct_upsert: "distinct (keys s) \<Longrightarrow> distinct (keys (upsert k v s))"
  by (simp add: keys_upsert)

lemma distinct_upserts: "distinct (keys s) \<Longrightarrow> distinct (keys (upserts kvs s))"
  by (induction kvs arbitrary: s) (auto simp: distinct_upsert)

lemma set_arrivals: "set ks \<subseteq> set known \<union> set (arrivals known ks)"
  by (induction known ks rule: arrivals.induct) auto

lemma keys_upserts_again: "keys (upserts kvs (upserts kvs s)) = keys (upserts kvs s)"
  using set_arrivals[of "map fst kvs" "keys s"]
  by (simp add: keys_upserts[of kvs "upserts kvs s"] keys_upserts[of kvs s] arrivals_known)

lemma keys_refresh: "fst ` set kvs \<subseteq> set (keys s) \<Longrightarrow> keys (upserts kvs s) = keys s"
  by (simp add: keys_upserts arrivals_known)

end

section \<open>Sensors and devices\<close>

datatype SensorType = CLOCK | USAGE | TEMPERATURE | POWER | MEMORY | VOLTAGE | FAN_SPEED

text \<open>The units of \<open>SensorTraits\<close>; the degree sign is the two bytes of its UTF-8 encoding.\<close>

fun unit_of :: "SensorType \<Rightarrow> string" where
  "unit_of CLOCK = ''MHz''"
| "unit_of USAGE = ''%''"
| "unit_of TEMPERATURE = [CHR 0xC2, CHR 0xB0, CHR ''C'']"
| "unit_of POWER = ''W''"
| "unit_of MEMORY = ''MB''"
| "unit_of VOLTAGE = ''V''"
| "unit_of FAN_SPEED = ''RPM''"

record DeviceSensor =
  sensor_name :: string
  sensor_type :: SensorType
  sensor_value :: float32

datatype Vendor = NVIDIA | AMD | INTEL

datatype HardwareType = MOTHERBOARD | CPU | GPU | PSU | NETWORK | STORAGE

fun vendorName :: "Vendor \<Rightarrow> string" where
  "vendorName NVIDIA = ''NVIDIA''"
| "vendorName AMD = ''AMD''"
| "vendorName INTEL = ''INTEL''"

fun hardwareTypeName :: "HardwareType \<Rightarrow> string" where
  "hardwareTypeName MOTHERBOARD = ''Motherboard''"
| "hardwareTypeName CPU = ''CPU''"
| "hardwareTypeName GPU = ''GPU''"
| "hardwareTypeName PSU = ''PSU''"
| "hardwareTypeName NETWORK = ''Network''"
| "hardwareTypeName STORAGE = ''Storage''"

record A_HardwareDevice =
  hd_vendor :: Vendor
  hw_type :: HardwareType
  hd_name :: string
  dev_sensors :: "DeviceSensor list"

text \<open>\<open>addSensor\<close>: the first sensor of this name and type gets the value, else one is appended.\<close>

fun addSensor_list :: "SensorType \<Rightarrow> string \<Rightarrow> float32 \<Rightarrow> DeviceSensor list \<Rightarrow> DeviceSensor list" where
  "addSensor_list t nm v [] = [\<lparr>sensor_name = nm, sensor_type = t, sensor_value = v\<rparr>]"
| "addSensor_list t nm v (d # ds) =
     (if sensor_name d = nm \<and> sensor_type d = t then d\<lparr>sensor_value := v\<rparr> # ds
      else d # addSensor_list t nm v ds)"

definition addSensor :: "SensorType \<Rightarrow> string \<Rightarrow> float32 \<Rightarrow> A_HardwareDevice \<Rightarrow> A_HardwareDevice" where
  "addSensor t nm v dev = dev\<lparr>dev_sensors := addSensor_list t nm v (dev_sensors dev)\<rparr>"

record SensorSnapshot =
  ss_name :: string
  ss_value :: float32
  ss_unit :: string

record TelemetrySnapshot =
  ts_name :: string
  ts_vendor :: string
  ts_hardware_type :: string
  ts_sensors :: "SensorSnapshot list"

definition snapshot :: "A_HardwareDevice \<Rightarrow> TelemetrySnapshot" where
  "snapshot dev =
     \<lparr>ts_name = hd_name dev, ts_vendor = vendorName (hd_vendor dev),
      ts_hardware_type = hardwareTypeName (hw_type dev),
      ts_sensors = map (\<lambda>s. \<lparr>ss_name = sensor_name s, ss_value = sensor_value s,
                              ss_unit = unit_of (sensor_type s)\<rparr>) (dev_sensors dev)\<rparr>"

text \<open>The store interface of \<open>addSensor\<close>: the key is name and type.\<close>

definition sensor_key :: "DeviceSensor \<Rightarrow> string \<times> SensorType" where
  "sensor_key d = (sensor_name d, sensor_type d)"

definition sensor_keys :: "A_HardwareDevice \<Rightarrow> (string \<times> SensorType) list" where
  "sensor_keys dev = map sensor_key (dev_sensors dev)"

definition sensor_lookup :: "A_HardwareDevice \<Rightarrow> string \<times> SensorType \<Rightarrow> float32 option" where
  "sensor_lookup dev = map_of (map (\<lambda>d. (sensor_key d, sensor_value d)) (dev_sensors dev))"

definition sensor_upsert :: "string \<times> SensorType \<Rightarrow> float32 \<Rightarrow> A_HardwareDevice \<Rightarrow> A_HardwareDevice" where
  "sensor_upsert k v = addSensor (snd k) (fst k) v"

lemma addSensor_list_lookup:
  "map_of (map (\<lambda>d. (sensor_key d, sensor_value d)) (addSensor_list t nm v ds)) =
     (map_of (map (\<lambda>d. (sensor_key d, sensor_value d)) ds))((nm, t) \<mapsto> v)"
  by (induction ds) (auto simp: sensor_key_def fun_eq_iff)

lemma addSensor_list_keys:
  "map sensor_key (addSensor_list t nm v ds) =
     (if (nm, t) \<in> set (map sensor_key ds) then map sensor_key ds else map sensor_key ds @ [(nm, t)])"
  by (induction ds) (auto simp: sensor_key_def)

interpretation sensors: keyed_store sensor_upsert sensor_lookup sensor_keys
proof
  show "sensor_lookup (sensor_upsert k v s) = (sensor_lookup s)(k \<mapsto> v)" for k v s
    by (simp add: sensor_lookup_def sensor_upsert_def addSensor_def addSensor_list_lookup)
  show "sensor_keys (sensor_upsert k v s) = (if k \<in> set (sensor_keys s) then sensor_keys s else sensor_keys s @ [k])"
    for k v s
    using addSensor_list_keys[of "snd k" "fst k" v "dev_sensors s"]
    by (simp add: sensor_keys_def sensor_upsert_def addSensor_def)
qed

section \<open>The processor's metrics\<close>

definition new_CPULiveMetrics :: A_HardwareDevice where
  "new_CPULiveMetrics = \<lparr>hd_vendor = INTEL, hw_type = CPU, hd_name = ''CPU'', dev_sensors = []\<rparr>"

text \<open>One entry of the driver: name up to its NUL, value, and the sensor it updates, if any.\<close>

definition entry_value :: "CPU_DATA \<Rightarrow> float32" where
  "entry_value d =
     (if data_unit d = unit_code UNIT_MILLIWATTS then float_div (float_of_ulong (data_value d)) 1000
      else if data_unit d = unit_code UNIT_MILLIVOLTS then float_div (float_of_ulong (data_value d)) 1000
      else float_of_ulong (data_value d))"

definition entry_type :: "CPU_DATA \<Rightarrow> SensorType option" where
  "entry_type d =
     (if data_type d = type_code METRIC_TEMP then Some TEMPERATURE
      else if data_type d = type_code METRIC_VOLTAGE then Some VOLTAGE
      else if data_type d = type_code METRIC_CLOCK_SPEED then Some CLOCK
      else if data_type d = type_code METRIC_LOAD then Some USAGE
      else if data_type d = type_code METRIC_POWER then Some POWER
      else None)"

definition fetch_entry :: "CPU_DATA \<Rightarrow> A_HardwareDevice \<Rightarrow> A_HardwareDevice" where
  "fetch_entry d dev =
     (case entry_type d of
        None \<Rightarrow> dev
      | Some t \<Rightarrow> addSensor t (cstr (data_name d)) (entry_value d) dev)"

definition fetchMetrics :: "CPU_DATA list \<Rightarrow> A_HardwareDevice \<Rightarrow> A_HardwareDevice" where
  "fetchMetrics entries dev = fold fetch_entry entries dev"

text \<open>The updates an entry list stands for.\<close>

definition entry_updates :: "CPU_DATA list \<Rightarrow> ((string \<times> SensorType) \<times> float32) list" where
  "entry_updates ds =
     List.map_filter (\<lambda>d. map_option (\<lambda>t. ((cstr (data_name d), t), entry_value d)) (entry_type d)) ds"

lemma fetchMetrics_upserts: "fetchMetrics ds dev = sensors.upserts (entry_updates ds) dev"
  by (induction ds arbitrary: dev)
     (auto simp: fetchMetrics_def entry_updates_def fetch_entry_def sensor_upsert_def List.map_filter_simps
        split: option.splits)

text \<open>
  C23: \<open>fetchMetrics\<close> keeps one sensor for each name and type: a sensor's value is that of the last
  entry with its name and type, a sensor without an entry keeps its value, sensors never move, and
  reading the same metrics again changes values only, so a device does not grow over time.
\<close>

theorem fetchMetrics_store:
  "sensor_lookup (fetchMetrics ds dev) = sensor_lookup dev ++ map_of (rev (entry_updates ds)) \<and>
   (\<exists>added. sensor_keys (fetchMetrics ds dev) = sensor_keys dev @ added) \<and>
   sensor_keys (fetchMetrics ds' (fetchMetrics ds dev)) =
     sensor_keys (fetchMetrics ds dev) @
       sensors.arrivals (sensor_keys (fetchMetrics ds dev)) (map fst (entry_updates ds')) \<and>
   sensor_keys (fetchMetrics ds (fetchMetrics ds dev)) = sensor_keys (fetchMetrics ds dev)"
proof (intro conjI)
  show "sensor_lookup (fetchMetrics ds dev) = sensor_lookup dev ++ map_of (rev (entry_updates ds))"
    by (simp add: fetchMetrics_upserts sensors.lookup_upserts)
  show "\<exists>added. sensor_keys (fetchMetrics ds dev) = sensor_keys dev @ added"
    by (auto simp: fetchMetrics_upserts sensors.keys_upserts)
  show "sensor_keys (fetchMetrics ds' (fetchMetrics ds dev)) = sensor_keys (fetchMetrics ds dev) @
       sensors.arrivals (sensor_keys (fetchMetrics ds dev)) (map fst (entry_updates ds'))"
    by (simp add: fetchMetrics_upserts sensors.keys_upserts)
  show "sensor_keys (fetchMetrics ds (fetchMetrics ds dev)) = sensor_keys (fetchMetrics ds dev)"
    by (simp add: fetchMetrics_upserts sensors.keys_upserts_again)
qed

end
