(* ===== verification/Cpu_Pipeline.thy ===== *)
theory Cpu_Pipeline
  imports Driver_Client Sensors
begin

text \<open>
  From the processor's registers to a device's sensors: the metrics that the driver delivers and the
  client returns become one sensor each. The names the driver builds are distinct, so no two metrics
  share a sensor.
\<close>

section \<open>The sensor an entry updates\<close>

definition type_of_code :: "USHORT \<Rightarrow> SensorType option" where
  "type_of_code c = entry_type (zero_data\<lparr>data_type := c\<rparr>)"

lemma entry_type_code: "entry_type d = type_of_code (data_type d)"
  by (simp add: type_of_code_def entry_type_def)

lemma type_of_codes:
  "type_of_code (type_code METRIC_TEMP) = Some TEMPERATURE" "type_of_code (type_code METRIC_VOLTAGE) = Some VOLTAGE"
  "type_of_code (type_code METRIC_CLOCK_SPEED) = Some CLOCK" "type_of_code (type_code METRIC_LOAD) = Some USAGE"
  "type_of_code (type_code METRIC_POWER) = Some POWER"
  by (simp_all add: type_of_code_def entry_type_def)

lemmas type_of_numbers = type_of_codes[simplified]

definition tag_key :: "tag \<Rightarrow> (string \<times> SensorType) option" where
  "tag_key t = map_option (\<lambda>ty. (cstr (fst t), ty)) (type_of_code (fst (snd t)))"

lemma entry_updates_keys: "map fst (entry_updates ds) = List.map_filter tag_key (map tag_of ds)"
  by (induction ds)
     (auto simp: entry_updates_def List.map_filter_simps tag_key_def tag_of_def entry_type_code split: option.splits)

definition core_key :: "nat \<Rightarrow> string \<Rightarrow> SensorType \<Rightarrow> string \<times> SensorType" where
  "core_key i sfx t = (''Core '' @ show_nat i @ '' '' @ sfx, t)"

lemma core_tag_key:
  assumes "type_of_code (type_code ty) = Some t" and "unat i < 10000" and "NUL \<notin> set sfx" and "length sfx \<le> 20"
  shows "tag_key (core_tag ty un sfx i) = Some (core_key (unat i) sfx t)"
proof -
  have d: "digit_loop i 0 [] = show_nat (unat i)"
    using digit_loop_show[of i 0 "[]"] assms(2) by simp
  have "length (show_nat (unat i)) \<le> 4" using length_digit_loop[of 0 i "[]"] by (simp add: d)
  then have "cstr (pad_name (core_name i sfx)) = core_name i sfx"
    using assms(3,4) show_nat_no_NUL[of "unat i"]
    by (intro cstr_pad_name) (auto simp: core_name_def d size_simps NUL_def)
  then show ?thesis
    using assms(1) by (simp add: tag_key_def core_tag_def core_key_def core_name_def d)
qed

lemma package_tag_key:
  assumes "type_of_code (type_code ty) = Some t" and "NUL \<notin> set lit" and "length lit < name_size"
  shows "tag_key (package_tag ty un lit) = Some (lit, t)"
  using assms cstr_pad_name[of lit] by (simp add: tag_key_def package_tag_def)

section \<open>A driver whose metrics are sensors\<close>

text \<open>
  A driver as the rest of the program sees it: it serves the client, and its metrics are those of distinct
  sensors.
\<close>

locale sensed_driver = telemetry_handler H R need tags
  for H :: "'s ioctl" and R :: "'s \<Rightarrow> bool" and need :: nat and tags :: "tag list" +
  fixes keys :: "(string \<times> SensorType) list"
  assumes keys: "R s \<Longrightarrow> List.map_filter tag_key tags = keys \<and> distinct keys"
begin

text \<open>A reading of a device that is new, or has been read before, leaves exactly these sensors.\<close>

lemma reading_keys:
  assumes "R s" and "map tag_of ds = tags" and "sensor_keys dv = [] \<or> sensor_keys dv = keys"
  shows "sensor_keys (fetchMetrics ds dv) = keys"
proof -
  have k: "map fst (entry_updates ds) = keys" and d: "distinct keys"
    using keys[OF assms(1)] by (simp_all add: entry_updates_keys assms(2))
  from assms(3) show ?thesis
  proof
    assume "sensor_keys dv = []"
    with k show ?thesis
      by (simp only: fetchMetrics_upserts sensors.keys_upserts append_Nil) (simp add: sensors.arrivals_distinct d)
  next
    assume d: "sensor_keys dv = keys"
    have "fst ` set (entry_updates ds) \<subseteq> set (sensor_keys dv)" unfolding d k[symmetric] by simp
    from sensors.keys_refresh[OF this] d show ?thesis by (simp only: fetchMetrics_upserts)
  qed
qed

lemma pipeline:
  assumes "R s" and "transports E H" and "allocates E" and "h_device_valid dc"
  shows "\<exists>ds dc' s'. runDriver E dc s = Some (Returned ds, dc', s') \<and>
     sensor_keys (fetchMetrics ds new_CPULiveMetrics) = keys \<and>
     length (ts_sensors (snapshot (fetchMetrics ds new_CPULiveMetrics))) = length keys"
proof -
  from client_reads[OF assms] obtain ds s' where
    r: "runDriver E dc s = Some (Returned ds, dc\<lparr>ret_data := ds\<rparr>, s')" and t: "map tag_of ds = tags" by blast
  have "sensor_keys new_CPULiveMetrics = []" by (simp add: sensor_keys_def new_CPULiveMetrics_def)
  with reading_keys[OF assms(1) t] have k: "sensor_keys (fetchMetrics ds new_CPULiveMetrics) = keys" by blast
  then have "length (dev_sensors (fetchMetrics ds new_CPULiveMetrics)) = length keys"
    by (metis length_map sensor_keys_def)
  with r k show ?thesis by (simp add: snapshot_def)
qed

end

section \<open>The sensors of an AMD processor\<close>

definition amd_core_keys :: "nat \<Rightarrow> (string \<times> SensorType) list" where
  "amd_core_keys i = [core_key i ''Clock'' CLOCK, core_key i ''Load'' USAGE, core_key i ''Power'' POWER]"

definition amd_package_keys :: "(string \<times> SensorType) list" where
  "amd_package_keys = [(''Tdie Temp'', TEMPERATURE), (''Core Voltage'', VOLTAGE), (''SoC Voltage'', VOLTAGE),
     (''Package Power'', POWER)]"

definition amd_sensor_keys :: "nat \<Rightarrow> (string \<times> SensorType) list" where
  "amd_sensor_keys n = concat (map amd_core_keys [0..<n]) @ amd_package_keys"

lemma core_key_inject: "core_key i a t = core_key j b u \<longleftrightarrow> show_nat i @ '' '' @ a = show_nat j @ '' '' @ b \<and> t = u"
  by (auto simp: core_key_def)

lemma digit_not_space: "d < 10 \<Longrightarrow> digit_char d \<noteq> CHR '' ''"
proof -
  assume "d < 10"
  then have "d \<in> {0,1,2,3,4,5,6,7,8,9}" by auto
  then show ?thesis by (auto simp: digit_char_def char_of_def)
qed

lemma show_nat_no_space: "CHR '' '' \<notin> set (show_nat n)"
proof (induction n rule: show_nat.induct)
  case (1 n)
  then show ?case
    using digit_not_space[of n] digit_not_space[of "n mod 10"]
    by (cases "n < 10") (auto simp: show_nat_small show_nat_big)
qed

lemma append_at_space:
  "CHR '' '' \<notin> set xs \<Longrightarrow> CHR '' '' \<notin> set ys \<Longrightarrow> xs @ CHR '' '' # a = ys @ CHR '' '' # b \<longleftrightarrow> xs = ys \<and> a = b"
proof (induction xs arbitrary: ys)
  case Nil
  then show ?case by (cases ys) auto
next
  case (Cons x xs)
  then show ?case by (cases ys) auto
qed

lemma core_key_eq: "core_key i a t = core_key j b u \<longleftrightarrow> i = j \<and> a = b \<and> t = u"
  using append_at_space[OF show_nat_no_space show_nat_no_space, of i a j b] show_nat_inject[of i j]
  by (auto simp: core_key_inject)

lemma core_keys_disjoint: "i \<noteq> j \<Longrightarrow> set (amd_core_keys i) \<inter> set (amd_core_keys j) = {}"
  by (auto simp: amd_core_keys_def core_key_eq)

lemma core_package_disjoint: "set (amd_core_keys i) \<inter> set amd_package_keys = {}"
  by (auto simp: amd_core_keys_def amd_package_keys_def core_key_def)

lemma distinct_blocks:
  assumes "\<And>i. distinct (f i)" and "\<And>i j. i \<noteq> j \<Longrightarrow> set (f i) \<inter> set (f j) = {}"
  shows "distinct (concat (map f [0..<n]))"
proof (induction n)
  case (Suc n)
  have "set (concat (map f [0..<n])) \<inter> set (f n) = {}"
    using assms(2)[of _ n] by fastforce
  with Suc assms(1)[of n] show ?case by simp
qed simp

lemma amd_sensor_keys_distinct: "distinct (amd_sensor_keys n)"
proof -
  have "distinct (concat (map amd_core_keys [0..<n]))"
    by (rule distinct_blocks) (auto simp: amd_core_keys_def core_key_eq)
  moreover have "distinct amd_package_keys" by (simp add: amd_package_keys_def)
  ultimately show ?thesis
    using core_package_disjoint by (fastforce simp: amd_sensor_keys_def)
qed

lemma length_amd_sensor_keys: "length (amd_sensor_keys n) = 3 * n + 4"
proof -
  have "length (concat (map amd_core_keys is)) = 3 * length is" for "is"
    by (induction "is") (simp_all add: amd_core_keys_def)
  then show ?thesis by (simp add: amd_sensor_keys_def amd_package_keys_def)
qed

lemma map_filter_append: "List.map_filter f (xs @ ys) = List.map_filter f xs @ List.map_filter f ys"
  by (simp add: List.map_filter_def)

lemma map_filter_concat: "List.map_filter f (concat xss) = concat (map (List.map_filter f) xss)"
  by (induction xss) (simp_all add: map_filter_append List.map_filter_simps)

lemma amd_core_tag_keys:
  "unat i < 10000 \<Longrightarrow> List.map_filter tag_key (amd_core_tags i) = amd_core_keys (unat i)"
  by (simp add: amd_core_tags_def amd_core_keys_def List.map_filter_simps core_tag_key type_of_numbers NUL_def)

lemma amd_entry_keys:
  assumes "unat n \<le> 10000"
  shows "List.map_filter tag_key (amd_entries n) = amd_sensor_keys (unat n)"
proof -
  have "map (List.map_filter tag_key) (map amd_core_tags (proc_indices n)) = map amd_core_keys [0..<unat n]"
    using assms by (auto simp: proc_indices_def amd_core_tag_keys unat_word_of_nat_small)
  moreover have "List.map_filter tag_key amd_package_tags = amd_package_keys"
    by (simp add: amd_package_tags_def amd_package_keys_def List.map_filter_simps package_tag_key type_of_numbers
        NUL_def size_simps)
  ultimately show ?thesis
    by (simp add: amd_entries_def amd_sensor_keys_def map_filter_append map_filter_concat)
qed

interpretation amd_sensors: sensed_driver "amd_EvtIoDeviceControl K" "\<lambda>s. amd_serving K n s \<and> unat n \<le> 10000"
  "header_size + (3 * unat n + 4) * entry_size" "amd_entries n" "amd_sensor_keys (unat n)" for K :: "'w kernel" and n
  by (intro sensed_driver.intro sensed_driver_axioms.intro amd_client.restricted)
     (simp add: amd_entry_keys amd_sensor_keys_distinct)

section \<open>The sensors of an Intel processor\<close>

definition intel_core_keys :: "nat \<Rightarrow> (string \<times> SensorType) list" where
  "intel_core_keys i =
     [core_key i ''Temp'' TEMPERATURE, core_key i ''VID'' VOLTAGE, core_key i ''Clock'' CLOCK, core_key i ''Load'' USAGE]"

definition intel_package_keys :: "bool \<Rightarrow> bool \<Rightarrow> (string \<times> SensorType) list" where
  "intel_package_keys therm rapl =
     (if therm then [(''Package Temp'', TEMPERATURE)] else []) @
     (if rapl then [(''Package Power'', POWER), (''Core Domain Power'', POWER)] else [])"

definition intel_sensor_keys :: "bool \<Rightarrow> bool \<Rightarrow> nat \<Rightarrow> (string \<times> SensorType) list" where
  "intel_sensor_keys therm rapl n = concat (map intel_core_keys [0..<n]) @ intel_package_keys therm rapl"

lemma intel_sensor_keys_distinct: "distinct (intel_sensor_keys th ra n)"
proof -
  have "distinct (concat (map intel_core_keys [0..<n]))"
    by (rule distinct_blocks) (auto simp: intel_core_keys_def core_key_eq)
  moreover have "distinct (intel_package_keys th ra)" by (simp add: intel_package_keys_def)
  moreover have "set (intel_core_keys i) \<inter> set (intel_package_keys th ra) = {}" for i
    by (auto simp: intel_core_keys_def intel_package_keys_def core_key_def)
  ultimately show ?thesis by (fastforce simp: intel_sensor_keys_def)
qed

lemma length_intel_sensor_keys:
  "length (intel_sensor_keys th ra n) = 4 * n + (if th then 1 else 0) + (if ra then 2 else 0)"
proof -
  have "length (concat (map intel_core_keys is)) = 4 * length is" for "is"
    by (induction "is") (simp_all add: intel_core_keys_def)
  then show ?thesis by (simp add: intel_sensor_keys_def intel_package_keys_def)
qed

lemma intel_core_tag_keys:
  "unat i < 10000 \<Longrightarrow> List.map_filter tag_key (intel_core_tags i) = intel_core_keys (unat i)"
  by (simp add: intel_core_tags_def intel_core_keys_def List.map_filter_simps core_tag_key type_of_numbers NUL_def)

lemma intel_package_tag_keys: "List.map_filter tag_key (intel_package_tags th ra) = intel_package_keys th ra"
  by (simp add: intel_package_tags_def intel_package_keys_def List.map_filter_simps package_tag_key type_of_numbers
      NUL_def size_simps)

lemma intel_entry_keys:
  assumes "unat n \<le> 10000"
  shows "List.map_filter tag_key (intel_entries th ra n) = intel_sensor_keys th ra (unat n)"
proof -
  have "map (List.map_filter tag_key) (map intel_core_tags (proc_indices n)) = map intel_core_keys [0..<unat n]"
    using assms by (auto simp: proc_indices_def intel_core_tag_keys unat_word_of_nat_small)
  then show ?thesis
    by (simp add: intel_entries_def intel_sensor_keys_def map_filter_append map_filter_concat intel_package_tag_keys)
qed

interpretation intel_sensors: sensed_driver "intel_EvtIoDeviceControl K" "\<lambda>s. intel_serving K th ra n s \<and> unat n \<le> 10000"
  "header_size + (4 * unat n + 3) * entry_size" "intel_entries th ra n" "intel_sensor_keys th ra (unat n)"
  for K :: "'w kernel" and th ra n
  by (intro sensed_driver.intro sensed_driver_axioms.intro intel_client.restricted)
     (simp add: intel_entry_keys intel_sensor_keys_distinct)

section \<open>From the registers to the sensors\<close>

text \<open>
  The whole path on an AMD processor of at most 10000 logical processors: what \<open>runDriver\<close> returns
  and \<open>fetchMetrics\<close> enters into an empty device makes exactly one sensor for each metric, in order,
  so the snapshot has clock, load and power of every core and the four package sensors.
\<close>

theorem amd_pipeline:
  assumes "amd_serving K n s" and "transports E (amd_EvtIoDeviceControl K)" and "allocates E" and "h_device_valid dc"
    and "unat n \<le> 10000"
  shows "\<exists>ds dc' s'. runDriver E dc s = Some (Returned ds, dc', s') \<and>
     sensor_keys (fetchMetrics ds new_CPULiveMetrics) = amd_sensor_keys (unat n) \<and>
     length (ts_sensors (snapshot (fetchMetrics ds new_CPULiveMetrics))) = 3 * unat n + 4"
  using amd_sensors.pipeline[OF conjI[OF assms(1,5)] assms(2-4)] unfolding length_amd_sensor_keys .

lemma amd_pipeline_witness:
  "\<exists>s ds dc s'. runDriver (sample_env (amd_EvtIoDeviceControl (sample_kernel amd_leaf0 2)))
     (open_client CPU_VENDOR_AMD) s = Some (Returned ds, dc, s') \<and>
     length (ts_sensors (snapshot (fetchMetrics ds new_CPULiveMetrics))) = 10"
proof -
  from amd_sample_running obtain s where "amd_running (sample_kernel amd_leaf0 2) s" by blast
  then have "amd_serving (sample_kernel amd_leaf0 2) 2 s"
    by (simp add: amd_serving_def sample_cooperative)
  from amd_pipeline[OF this sample_env_transports sample_env_allocates, of "open_client CPU_VENDOR_AMD"]
  show ?thesis unfolding open_client_def by (simp, blast)
qed

text \<open>
  A power or a voltage is converted from thousandths with two roundings, of which the first is
  exact below \<open>2^24\<close>: the relative error of the sensor's value is at most \<open>2^-24\<close>. A temperature, clock
  or load below \<open>2^24\<close> is exact.
\<close>

theorem entry_value_accuracy:
  assumes "0 < data_value d" and "data_value d < 2 ^ 24"
  shows "(if data_unit d = unit_code UNIT_MILLIWATTS \<or> data_unit d = unit_code UNIT_MILLIVOLTS
          then \<bar>entry_value d - of_nat (unat (data_value d)) / 1000\<bar> \<le> of_nat (unat (data_value d)) / 1000 / 2 ^ 24
          else entry_value d = of_nat (unat (data_value d)))"
proof -
  let ?v = "of_nat (unat (data_value d)) :: rat"
  have "1 \<le> unat (data_value d)" using assms(1) by (simp add: word_less_nat_alt)
  then have v: "1 \<le> ?v" using of_nat_le_iff[of 1 "unat (data_value d)", where ?'a = rat] by (simp only: of_nat_1)
  have "unat (data_value d) < 2 ^ 24" using assms(2) by (simp add: word_less_nat_alt)
  then have "?v < of_nat (2 ^ 24)" by (simp only: of_nat_less_iff)
  then have hi: "?v / 1000 < 2 ^ 100" by simp
  have lo: "1 / 2 ^ 100 \<le> ?v / 1000"
  proof -
    have "1 / 2 ^ 100 \<le> (1 :: rat) / 1000" by simp
    also have "\<dots> \<le> ?v / 1000" using v by (intro divide_right_mono) auto
    finally show ?thesis .
  qed
  show ?thesis
    using round32_error[OF lo hi] float_of_ulong_exact[OF assms(2)]
    by (simp add: entry_value_def float_div_def)
qed

lemma entry_value_accuracy_witness:
  "\<bar>entry_value (zero_data\<lparr>data_value := 35123, data_unit := unit_code UNIT_MILLIWATTS\<rparr>) - 35123 / 1000\<bar>
     \<le> 35123 / 1000 / 2 ^ 24"
  using entry_value_accuracy[of "zero_data\<lparr>data_value := 35123, data_unit := unit_code UNIT_MILLIWATTS\<rparr>"]
  by simp

end
