(* ===== verification/Sensor_Dto.thy ===== *)
theory Sensor_Dto
  imports Sensors
begin

text \<open>
  The record that carries one sensor over OPC UA, and its encoding and decoding (\<open>utils.h\<close>,
  \<open>utils.cpp\<close>): \<open>buildTelemetryStore\<close> copies a snapshot into freshly allocated structures,
  \<open>decodeSensorDtos\<close> reads structures at addresses it computes from the paddings of the data type.
  Memory is a map from addresses to the objects that start there; a read at an address where no
  object of the expected kind starts is a fault (\<open>None\<close>), and so is writing through a null pointer.
  Allocation and the binary decoder of the stack are arguments.
\<close>

section \<open>Memory\<close>

record ua_string =
  ua_length :: nat
  ua_data :: "char list option"

definition null_string :: ua_string where
  "null_string = \<lparr>ua_length = 0, ua_data = None\<rparr>"

definition to_ua :: "string \<Rightarrow> ua_string" where
  "to_ua s = \<lparr>ua_length = length s, ua_data = Some s\<rparr>"

text \<open>\<open>read_ua_string\<close> behind its cast, which \<open>readStringNode\<close> repeats.\<close>

definition from_ua :: "ua_string \<Rightarrow> string" where
  "from_ua u = (case ua_data u of Some d \<Rightarrow> if ua_length u > 0 then take (ua_length u) d else [] | None \<Rightarrow> [])"

lemma from_ua_simps [simp]: "from_ua (to_ua s) = s" "from_ua null_string = []"
  by (auto simp: from_ua_def to_ua_def null_string_def)

datatype cell = StringCell ua_string | FloatCell float32

type_synonym memory = "nat \<rightharpoonup> cell"

definition read_string :: "memory \<Rightarrow> nat \<Rightarrow> string option" where
  "read_string mem a = (case mem a of Some (StringCell u) \<Rightarrow> Some (from_ua u) | _ \<Rightarrow> None)"

definition read_float :: "memory \<Rightarrow> nat \<Rightarrow> float32 option" where
  "read_float mem a = (case mem a of Some (FloatCell v) \<Rightarrow> Some v | _ \<Rightarrow> None)"

section \<open>The structure and its data type\<close>

record SensorDto =
  dto_name :: ua_string
  dto_value :: float32
  dto_unit :: ua_string
  dto_sensor_type :: ua_string

text \<open>
  Sizes and alignments on the 64-bit target: \<open>UA_String\<close> and \<open>UA_ByteString\<close> are a length and a
  pointer, \<open>UA_Float\<close> has four bytes. A member lies at the next multiple of its alignment.
\<close>

definition sizeof_UA_String :: nat where "sizeof_UA_String = 16"
definition sizeof_UA_Float :: nat where "sizeof_UA_Float = 4"

definition SensorDto_members :: "(nat \<times> nat) list" where
  "SensorDto_members = [(sizeof_UA_String, 8), (sizeof_UA_Float, 4), (sizeof_UA_String, 8), (sizeof_UA_String, 8)]"

definition align_up :: "nat \<Rightarrow> nat \<Rightarrow> nat" where
  "align_up a n = (n + a - 1) div a * a"

fun member_offsets :: "nat \<Rightarrow> (nat \<times> nat) list \<Rightarrow> nat list" where
  "member_offsets pos [] = []"
| "member_offsets pos ((sz, align) # ms) =
     (let off = align_up align pos in off # member_offsets (off + sz) ms)"

definition SensorDto_offsets :: "nat list" where
  "SensorDto_offsets = member_offsets 0 SensorDto_members"

definition sizeof_SensorDto :: nat where
  "sizeof_SensorDto = align_up 8 (last SensorDto_offsets + sizeof_UA_String)"

record data_type =
  member_padding :: "nat list"
  memSize :: nat

text \<open>
  \<open>addField\<close> notes how many bytes lie between the end of the previous member and the member, from
  the offsets of both.
\<close>

fun paddings :: "nat \<Rightarrow> (nat \<times> nat) list \<Rightarrow> nat list" where
  "paddings pos [] = []"
| "paddings pos ((off, sz) # ms) = (off - pos) # paddings (off + sz) ms"

definition buildSensorDtoType :: data_type where
  "buildSensorDtoType =
     \<lparr>member_padding = paddings 0 (zip SensorDto_offsets (map fst SensorDto_members)),
      memSize = sizeof_SensorDto\<rparr>"

text \<open>The server registers it, and gives it back.\<close>

definition registerSensorDtoType :: "data_type list \<Rightarrow> data_type list \<times> data_type" where
  "registerSensorDtoType customDataTypes = (let t = buildSensorDtoType in (customDataTypes @ [t], t))"

lemma SensorDto_layout [simp]:
  "SensorDto_offsets = [0, 16, 24, 40]" "member_padding buildSensorDtoType = [0, 0, 4, 0]"
  "memSize buildSensorDtoType = 56"
  by (simp_all add: SensorDto_offsets_def SensorDto_members_def align_up_def buildSensorDtoType_def
      sizeof_SensorDto_def sizeof_UA_String_def sizeof_UA_Float_def Let_def)

text \<open>A structure in memory at \<open>raw\<close>, and its removal.\<close>

definition store_dto :: "nat \<Rightarrow> SensorDto \<Rightarrow> memory \<Rightarrow> memory" where
  "store_dto raw d mem = mem
     (raw + SensorDto_offsets ! 0 \<mapsto> StringCell (dto_name d), raw + SensorDto_offsets ! 1 \<mapsto> FloatCell (dto_value d),
      raw + SensorDto_offsets ! 2 \<mapsto> StringCell (dto_unit d), raw + SensorDto_offsets ! 3 \<mapsto> StringCell (dto_sensor_type d))"

definition delete_dto :: "nat \<Rightarrow> memory \<Rightarrow> memory" where
  "delete_dto raw mem = mem |` (- {raw ..< raw + sizeof_SensorDto})"

section \<open>Decoding\<close>

record DecodedSensor =
  ds_name :: string
  ds_value :: float32
  ds_unit :: string
  ds_sensor_type :: string

definition extractSensor :: "data_type \<Rightarrow> memory \<Rightarrow> nat \<Rightarrow> DecodedSensor option" where
  "extractSensor dt mem raw = do {
     let off = member_padding dt ! 0;
     nm \<leftarrow> read_string mem (raw + off);
     let off = off + (sizeof_UA_String + member_padding dt ! 1);
     v \<leftarrow> read_float mem (raw + off);
     let off = off + (sizeof_UA_Float + member_padding dt ! 2);
     un \<leftarrow> read_string mem (raw + off);
     let off = off + (sizeof_UA_String + member_padding dt ! 3);
     st \<leftarrow> read_string mem (raw + off);
     Some \<lparr>ds_name = nm, ds_value = v, ds_unit = un, ds_sensor_type = st\<rparr>
   }"

text \<open>
  Extension objects and variants. A variant is empty, an array of the structures themselves
  (\<open>isType(dt)\<close>), an array of extension objects, or holds something else, which the code reads as if
  it were extension objects.
\<close>

datatype ext_object = Decoded "nat option" | DecodedNoDelete "nat option" | EncodedByteString string | OtherEncoding

datatype variant = NullVariant | StructArray nat nat | ExtArray "ext_object list" | OtherVariant nat

record codec =
  ua_new :: "memory \<Rightarrow> nat option"
  ua_array_new :: "nat \<Rightarrow> bool"
  decodeBinary :: "string \<Rightarrow> SensorDto option"

fun decode_ext :: "codec \<Rightarrow> data_type \<Rightarrow> memory \<Rightarrow> ext_object list \<Rightarrow> DecodedSensor list option" where
  "decode_ext cd dt mem [] = Some []"
| "decode_ext cd dt mem (x # xs) =
     (let skip = decode_ext cd dt mem xs;
          push = (\<lambda>m raw. do { s \<leftarrow> extractSensor dt m raw; ss \<leftarrow> decode_ext cd dt mem xs; Some (s # ss) })
      in case x of
           Decoded (Some raw) \<Rightarrow> push mem raw
         | DecodedNoDelete (Some raw) \<Rightarrow> push mem raw
         | EncodedByteString body \<Rightarrow>
             (case ua_new cd mem of
                None \<Rightarrow> skip
              | Some p \<Rightarrow> (case decodeBinary cd body of
                            None \<Rightarrow> skip
                          | Some d \<Rightarrow> push (store_dto p d mem) p))
         | _ \<Rightarrow> skip)"

fun decode_structs :: "data_type \<Rightarrow> memory \<Rightarrow> nat \<Rightarrow> nat \<Rightarrow> DecodedSensor list option" where
  "decode_structs dt mem raw 0 = Some []"
| "decode_structs dt mem raw (Suc n) =
     do { s \<leftarrow> extractSensor dt mem raw; ss \<leftarrow> decode_structs dt mem (raw + memSize dt) n; Some (s # ss) }"

definition decodeSensorDtos :: "codec \<Rightarrow> data_type \<Rightarrow> memory \<Rightarrow> variant \<Rightarrow> DecodedSensor list option" where
  "decodeSensorDtos cd dt mem v =
     (case v of
        NullVariant \<Rightarrow> Some []
      | StructArray raw count \<Rightarrow> decode_structs dt mem raw count
      | ExtArray exts \<Rightarrow> decode_ext cd dt mem exts
      | OtherVariant count \<Rightarrow> if count = 0 then Some [] else None)"

section \<open>Encoding\<close>

record TelemetryStore =
  store_name :: string
  store_vendor :: string
  store_hardware_type :: string
  dev_sensors_size :: nat
  store_sensors :: "ext_object list option"

definition dto_of :: "SensorSnapshot \<Rightarrow> SensorDto" where
  "dto_of s = \<lparr>dto_name = to_ua (ss_name s), dto_value = ss_value s, dto_unit = to_ua (ss_unit s),
               dto_sensor_type = null_string\<rparr>"

fun build_sensors :: "codec \<Rightarrow> SensorSnapshot list \<Rightarrow> memory \<Rightarrow> (ext_object list \<times> memory) option" where
  "build_sensors cd [] mem = Some ([], mem)"
| "build_sensors cd (s # ss) mem = do {
     p \<leftarrow> ua_new cd mem;
     (es, mem) \<leftarrow> build_sensors cd ss (store_dto p (dto_of s) mem);
     Some (Decoded (Some p) # es, mem)
   }"

definition buildTelemetryStore :: "codec \<Rightarrow> TelemetrySnapshot \<Rightarrow> memory \<Rightarrow> (TelemetryStore \<times> memory) option" where
  "buildTelemetryStore cd snap mem =
     (let count = length (ts_sensors snap)
      in if count > 0 \<and> \<not> ua_array_new cd count then None
         else do {
           (arr, mem) \<leftarrow> build_sensors cd (ts_sensors snap) mem;
           Some (\<lparr>store_name = ts_name snap, store_vendor = ts_vendor snap,
                  store_hardware_type = ts_hardware_type snap, dev_sensors_size = count,
                  store_sensors = Some arr\<rparr>, mem)
         })"

text \<open>\<open>UA_Array_delete\<close> deletes the structure of every decoded extension object.\<close>

fun delete_ext :: "ext_object list \<Rightarrow> memory \<Rightarrow> memory" where
  "delete_ext [] mem = mem"
| "delete_ext (Decoded (Some p) # xs) mem = delete_ext xs (delete_dto p mem)"
| "delete_ext (_ # xs) mem = delete_ext xs mem"

definition freeTelemetryStore :: "TelemetryStore \<Rightarrow> memory \<Rightarrow> TelemetryStore \<times> memory" where
  "freeTelemetryStore st mem =
     (case store_sensors st of
        Some xs \<Rightarrow> (st\<lparr>store_sensors := None, dev_sensors_size := 0\<rparr>, delete_ext xs mem)
      | None \<Rightarrow> (st, mem))"

section \<open>What a structure in memory says\<close>

definition decoded :: "SensorDto \<Rightarrow> DecodedSensor" where
  "decoded d = \<lparr>ds_name = from_ua (dto_name d), ds_value = dto_value d, ds_unit = from_ua (dto_unit d),
                ds_sensor_type = from_ua (dto_sensor_type d)\<rparr>"

definition holds_dto :: "memory \<Rightarrow> nat \<Rightarrow> SensorDto \<Rightarrow> bool" where
  "holds_dto mem raw d \<longleftrightarrow> map_le (store_dto raw d Map.empty) mem"

lemma holds_dto_iff:
  "holds_dto mem raw d \<longleftrightarrow>
     mem raw = Some (StringCell (dto_name d)) \<and> mem (raw + 16) = Some (FloatCell (dto_value d)) \<and>
     mem (raw + 24) = Some (StringCell (dto_unit d)) \<and> mem (raw + 40) = Some (StringCell (dto_sensor_type d))"
  by (auto simp: holds_dto_def map_le_def store_dto_def numeral_2_eq_2 numeral_3_eq_3)

lemma extract_holds: "holds_dto mem raw d \<Longrightarrow> extractSensor buildSensorDtoType mem raw = Some (decoded d)"
  by (simp add: holds_dto_iff extractSensor_def sizeof_UA_String_def sizeof_UA_Float_def
      read_string_def read_float_def decoded_def Let_def numeral_2_eq_2 numeral_3_eq_3)

lemma holds_store: "holds_dto (store_dto raw d mem) raw d"
  by (simp add: holds_dto_iff store_dto_def numeral_2_eq_2 numeral_3_eq_3)

section \<open>Fresh memory\<close>

definition unused :: "memory \<Rightarrow> nat \<Rightarrow> bool" where
  "unused mem p \<longleftrightarrow> (\<forall>a \<in> {p ..< p + sizeof_SensorDto}. mem a = None)"

text \<open>What the code relies on in \<open>UA_new\<close>: the memory it returns is not in use.\<close>

definition fresh_memory :: "codec \<Rightarrow> bool" where
  "fresh_memory cd \<longleftrightarrow> (\<forall>mem p. ua_new cd mem = Some p \<longrightarrow> unused mem p)"

lemma sizeof_SensorDto_eq [simp]: "sizeof_SensorDto = 56"
  using SensorDto_layout(3) by (simp add: buildSensorDtoType_def)

lemma store_dto_region: "a \<notin> {p ..< p + 56} \<Longrightarrow> store_dto p d mem a = mem a"
  by (auto simp: store_dto_def numeral_2_eq_2 numeral_3_eq_3)

lemma holds_other: "unused mem p \<Longrightarrow> holds_dto mem q d' \<Longrightarrow> holds_dto (store_dto p d mem) q d'"
proof -
  assume u: "unused mem p" and h: "holds_dto mem q d'"
  have "store_dto p d mem a = mem a" if "mem a \<noteq> None" for a
    using u that by (intro store_dto_region) (auto simp: unused_def)
  with h show ?thesis by (auto simp: holds_dto_iff)
qed

lemma delete_store: "unused mem p \<Longrightarrow> delete_dto p (store_dto p d mem) = mem"
  by (rule ext) (auto simp: delete_dto_def restrict_map_def unused_def store_dto_region)

lemma delete_commute: "delete_dto p (delete_dto q mem) = delete_dto q (delete_dto p mem)"
  by (simp add: delete_dto_def Int_commute)

lemma delete_ext_commute: "delete_ext es (delete_dto p mem) = delete_dto p (delete_ext es mem)"
  by (induction es mem rule: delete_ext.induct) (simp_all add: delete_commute)

section \<open>Building and freeing\<close>

lemma build_sensors_Cons:
  assumes "fresh_memory cd" and "build_sensors cd (s # ss) mem = Some (es, mem')"
  obtains p es' where "unused mem p" "es = Decoded (Some p) # es'"
    "build_sensors cd ss (store_dto p (dto_of s) mem) = Some (es', mem')"
  using assms by (auto simp: bind_eq_Some_conv fresh_memory_def)

lemma build_sensors_holds:
  assumes "fresh_memory cd" and "build_sensors cd ss mem = Some (es, mem')"
  shows "list_all2 (\<lambda>e s. \<exists>p. e = Decoded (Some p) \<and> holds_dto mem' p (dto_of s)) es ss \<and>
    (\<forall>q d. holds_dto mem q d \<longrightarrow> holds_dto mem' q d)"
  using assms(2)
proof (induction ss arbitrary: mem es)
  case (Cons s ss)
  from build_sensors_Cons[OF assms(1) Cons.prems] obtain p es'
    where p: "unused mem p" "es = Decoded (Some p) # es'"
      and b: "build_sensors cd ss (store_dto p (dto_of s) mem) = Some (es', mem')" .
  with Cons.IH[OF b] show ?case by (auto simp: holds_other holds_store)
qed simp

lemma build_sensors_free:
  assumes "fresh_memory cd" and "build_sensors cd ss mem = Some (es, mem')"
  shows "delete_ext es mem' = mem"
  using assms(2)
proof (induction ss arbitrary: mem es)
  case (Cons s ss)
  from build_sensors_Cons[OF assms(1) Cons.prems] obtain p es'
    where p: "unused mem p" "es = Decoded (Some p) # es'"
      and b: "build_sensors cd ss (store_dto p (dto_of s) mem) = Some (es', mem')" .
  with Cons.IH[OF b] show ?case by (simp add: delete_ext_commute delete_store)
qed simp

lemma finite_store_dto: "finite (dom mem) \<Longrightarrow> finite (dom (store_dto p d mem))"
  by (simp add: store_dto_def)

lemma build_sensors_total:
  "(\<And>mem. finite (dom mem) \<Longrightarrow> ua_new cd mem \<noteq> None) \<Longrightarrow> finite (dom mem) \<Longrightarrow>
   \<exists>es mem'. build_sensors cd ss mem = Some (es, mem') \<and> finite (dom mem')"
proof (induction ss arbitrary: mem)
  case (Cons s ss)
  from Cons.prems obtain p where "ua_new cd mem = Some p" by blast
  with Cons.IH[OF Cons.prems(1) finite_store_dto[OF Cons.prems(2)], of p "dto_of s"] show ?case by auto
qed simp

section \<open>What a variant carries\<close>

text \<open>
  The structures a variant stands for: those in the memory of an array, or one for each extension
  object, in memory or in the binary encoding.
\<close>

fun ext_carries :: "codec \<Rightarrow> memory \<Rightarrow> ext_object \<Rightarrow> SensorDto \<Rightarrow> bool" where
  "ext_carries cd mem (Decoded (Some p)) d = holds_dto mem p d"
| "ext_carries cd mem (DecodedNoDelete (Some p)) d = holds_dto mem p d"
| "ext_carries cd mem (EncodedByteString body) d = (decodeBinary cd body = Some d \<and> ua_new cd mem \<noteq> None)"
| "ext_carries cd mem _ d = False"

fun variant_carries :: "codec \<Rightarrow> memory \<Rightarrow> variant \<Rightarrow> SensorDto list \<Rightarrow> bool" where
  "variant_carries cd mem (StructArray raw count) ds =
     (count = length ds \<and> (\<forall>i < count. holds_dto mem (raw + i * sizeof_SensorDto) (ds ! i)))"
| "variant_carries cd mem (ExtArray exts) ds = list_all2 (ext_carries cd mem) exts ds"
| "variant_carries cd mem NullVariant ds = (ds = [])"
| "variant_carries cd mem (OtherVariant count) ds = False"

lemma decode_ext_carries:
  "list_all2 (ext_carries cd mem) exts ds \<Longrightarrow>
   decode_ext cd buildSensorDtoType mem exts = Some (map decoded ds)"
proof (induction rule: list_all2_induct)
  case (Cons x xs d ds)
  show ?case
  proof (cases x)
    case (Decoded q)
    with Cons show ?thesis by (cases q) (auto simp: extract_holds)
  next
    case (DecodedNoDelete q)
    with Cons show ?thesis by (cases q) (auto simp: extract_holds)
  next
    case (EncodedByteString body)
    with Cons show ?thesis by (auto simp: extract_holds[OF holds_store])
  qed (use Cons in simp)
qed simp

lemma decode_structs_carries:
  "(\<And>i. i < length ds \<Longrightarrow> holds_dto mem (raw + i * 56) (ds ! i)) \<Longrightarrow>
   decode_structs buildSensorDtoType mem raw (length ds) = Some (map decoded ds)"
proof (induction ds arbitrary: raw)
  case (Cons d ds)
  from Cons.prems[of 0] have "extractSensor buildSensorDtoType mem raw = Some (decoded d)"
    by (simp add: extract_holds)
  moreover have "holds_dto mem (raw + 56 + i * 56) (ds ! i)" if "i < length ds" for i
    using Cons.prems[of "Suc i"] that by (simp add: add.assoc)
  ultimately show ?case using Cons.IH[of "raw + 56"] by simp
qed simp

lemma decodeSensorDtos_carries:
  "variant_carries cd mem v ds \<Longrightarrow> decodeSensorDtos cd buildSensorDtoType mem v = Some (map decoded ds)"
  by (cases v) (auto simp: decodeSensorDtos_def decode_ext_carries decode_structs_carries)

text \<open>
  C30: Decoding reads every structure where the compiler has put its members, in each of the three
  forms in which the stack may deliver an array (structures, decoded and encoded extension objects),
  without a read outside.
\<close>

theorem decodeSensorDtos_reads:
  assumes "variant_carries cd mem v ds"
  shows "decodeSensorDtos cd buildSensorDtoType mem v = Some (map decoded ds)"
  using assms by (rule decodeSensorDtos_carries)

definition sample_dto :: SensorDto where
  "sample_dto = dto_of \<lparr>ss_name = ''Core 0 Load'', ss_value = 42, ss_unit = ''%''\<rparr>"

definition sample_codec :: codec where
  "sample_codec =
     \<lparr>ua_new = (\<lambda>mem. if mem 4096 = None then Some 4096 else Some 8192), ua_array_new = (\<lambda>_. True),
      decodeBinary = (\<lambda>body. if body = ''x'' then Some sample_dto else None)\<rparr>"

lemma decodeSensorDtos_reads_witness:
  "decodeSensorDtos sample_codec buildSensorDtoType (store_dto 64 sample_dto Map.empty)
     (ExtArray [Decoded (Some 64), EncodedByteString ''x'']) = Some [decoded sample_dto, decoded sample_dto]"
  using decodeSensorDtos_reads[of sample_codec "store_dto 64 sample_dto Map.empty"
      "ExtArray [Decoded (Some 64), EncodedByteString ''x'']" "[sample_dto, sample_dto]"]
  by (simp add: holds_store sample_codec_def)

section \<open>Round trip\<close>

definition as_decoded :: "SensorSnapshot \<Rightarrow> DecodedSensor" where
  "as_decoded s = \<lparr>ds_name = ss_name s, ds_value = ss_value s, ds_unit = ss_unit s, ds_sensor_type = []\<rparr>"

lemma decoded_dto_of: "decoded (dto_of s) = as_decoded s"
  by (simp add: decoded_def dto_of_def as_decoded_def)

lemma buildTelemetryStore_Some:
  assumes "buildTelemetryStore cd snap mem = Some (st, mem')"
  obtains arr where "build_sensors cd (ts_sensors snap) mem = Some (arr, mem')" "store_sensors st = Some arr"
    "dev_sensors_size st = length (ts_sensors snap)" "store_name st = ts_name snap"
    "store_vendor st = ts_vendor snap" "store_hardware_type st = ts_hardware_type snap"
  using assms by (auto simp: buildTelemetryStore_def Let_def bind_eq_Some_conv split: if_splits)

lemma build_carries:
  assumes "fresh_memory cd" and "build_sensors cd ss mem = Some (arr, mem')"
  shows "variant_carries cd mem' (ExtArray arr) (map dto_of ss)" "length arr = length ss"
proof -
  have *: "list_all2 (\<lambda>e s. \<exists>p. e = Decoded (Some p) \<and> holds_dto mem' p (dto_of s)) arr ss"
    using build_sensors_holds[OF assms] by blast
  then show "length arr = length ss" by (rule list_all2_lengthD)
  from * show "variant_carries cd mem' (ExtArray arr) (map dto_of ss)"
    by (auto simp: list_all2_map2 elim!: list_all2_mono)
qed

text \<open>
  C9: What \<open>buildTelemetryStore\<close> stores is what \<open>decodeSensorDtos\<close> reads: the round trip returns name, value
  and unit of every sensor of the snapshot, in order; the sensor type stays empty.
\<close>

theorem dto_roundtrip:
  assumes "fresh_memory cd" and "buildTelemetryStore cd snap mem = Some (st, mem')"
    and "store_sensors st = Some arr"
  shows "decodeSensorDtos cd buildSensorDtoType mem' (ExtArray arr) = Some (map as_decoded (ts_sensors snap)) \<and>
    dev_sensors_size st = length arr"
proof -
  from buildTelemetryStore_Some[OF assms(2)] assms(3)
  have b: "build_sensors cd (ts_sensors snap) mem = Some (arr, mem')"
    and n: "dev_sensors_size st = length (ts_sensors snap)" by fastforce+
  from decodeSensorDtos_carries[OF build_carries(1)[OF assms(1) b]] n build_carries(2)[OF assms(1) b]
  show ?thesis by (simp add: comp_def decoded_dto_of)
qed

text \<open>An allocator that takes the first free block of a pool of five.\<close>

definition pool_new :: "memory \<Rightarrow> nat option" where
  "pool_new mem = find (\<lambda>p. unused mem p) [4096, 4352, 4608, 4864, 5120]"

definition pool_codec :: codec where
  "pool_codec = \<lparr>ua_new = pool_new, ua_array_new = (\<lambda>_. True), decodeBinary = (\<lambda>_. None)\<rparr>"

lemma fresh_pool: "fresh_memory pool_codec"
  by (auto simp: fresh_memory_def pool_codec_def pool_new_def find_Some_iff)

definition sample_snapshot :: TelemetrySnapshot where
  "sample_snapshot = \<lparr>ts_name = ''CPU'', ts_vendor = ''INTEL'', ts_hardware_type = ''CPU'',
     ts_sensors = [\<lparr>ss_name = ''Core 0 Load'', ss_value = 42, ss_unit = ''%''\<rparr>]\<rparr>"

lemma sample_build:
  "buildTelemetryStore pool_codec sample_snapshot Map.empty =
     Some (\<lparr>store_name = ''CPU'', store_vendor = ''INTEL'', store_hardware_type = ''CPU'',
            dev_sensors_size = 1, store_sensors = Some [Decoded (Some 4096)]\<rparr>,
           store_dto 4096 sample_dto Map.empty)"
  by (simp add: buildTelemetryStore_def pool_codec_def pool_new_def unused_def sample_snapshot_def sample_dto_def)

lemma dto_roundtrip_witness:
  "decodeSensorDtos pool_codec buildSensorDtoType (store_dto 4096 sample_dto Map.empty)
     (ExtArray [Decoded (Some 4096)]) = Some [as_decoded \<lparr>ss_name = ''Core 0 Load'', ss_value = 42, ss_unit = ''%''\<rparr>]"
  using dto_roundtrip[OF fresh_pool sample_build] by (simp add: sample_snapshot_def)

text \<open>
  Freeing a store gives back exactly the memory that building it took, and a second free does
  nothing.
\<close>

theorem store_memory_released:
  assumes "fresh_memory cd" and "buildTelemetryStore cd snap mem = Some (st, mem')"
  shows "snd (freeTelemetryStore st mem') = mem \<and>
    freeTelemetryStore (fst (freeTelemetryStore st mem')) mem = (fst (freeTelemetryStore st mem'), mem)"
proof -
  from buildTelemetryStore_Some[OF assms(2)] obtain arr
    where "build_sensors cd (ts_sensors snap) mem = Some (arr, mem')" "store_sensors st = Some arr" by metis
  with build_sensors_free[OF assms(1)] show ?thesis by (simp add: freeTelemetryStore_def)
qed

lemma store_memory_released_witness:
  "snd (freeTelemetryStore \<lparr>store_name = ''CPU'', store_vendor = ''INTEL'', store_hardware_type = ''CPU'',
      dev_sensors_size = 1, store_sensors = Some [Decoded (Some 4096)]\<rparr> (store_dto 4096 sample_dto Map.empty)) =
   Map.empty"
  using store_memory_released[OF fresh_pool sample_build] by blast

end
