(* ===== verification/Telemetry_Queue.thy ===== *)
theory Telemetry_Queue
  imports Sensors
begin

text \<open>
  \<open>OPC_UA/ClientQueue.cpp\<close>: the queue between the pipeline workers, which push snapshots, and the
  telemetry client, which drains it. Each critical section is one function; the condition variable
  is a step relation over the threads, in which a thread that has left its critical section
  has still to notify, and a waiting thread wakes by a notification or spuriously and then tests
  the predicate again.
\<close>

section \<open>The critical sections\<close>

record 'a client_queue =
  queue :: "'a list"
  shutting_down :: bool

definition empty_queue :: "'a client_queue" where
  "empty_queue = \<lparr>queue = [], shutting_down = False\<rparr>"

text \<open>\<open>push\<close> inside its lock: the result says whether \<open>notify_one\<close> follows.\<close>

definition push_section :: "'a \<Rightarrow> 'a client_queue \<Rightarrow> bool \<times> 'a client_queue" where
  "push_section x s =
     (if shutting_down s then (False, s) else (True, s\<lparr>queue := queue s @ [x]\<rparr>))"

text \<open>The predicate of \<open>cv_.wait\<close>.\<close>

definition ready :: "'a client_queue \<Rightarrow> bool" where
  "ready s \<longleftrightarrow> queue s \<noteq> [] \<or> shutting_down s"

text \<open>\<open>while (!queue_.empty()) { push_back(front); pop; }\<close>\<close>

fun move_all :: "'a list \<Rightarrow> 'a list \<Rightarrow> 'a list \<times> 'a list" where
  "move_all snapshots [] = (snapshots, [])"
| "move_all snapshots (x # q) = move_all (snapshots @ [x]) q"

text \<open>\<open>drain\<close> inside its lock: \<open>None\<close> is that the thread waits.\<close>

definition drain_section :: "'a client_queue \<Rightarrow> ('a list \<times> 'a client_queue) option" where
  "drain_section s =
     (if ready s
      then case move_all [] (queue s) of (snapshots, q) \<Rightarrow> Some (snapshots, s\<lparr>queue := q\<rparr>)
      else None)"

definition shutdown_section :: "'a client_queue \<Rightarrow> 'a client_queue" where
  "shutdown_section s = s\<lparr>shutting_down := True\<rparr>"

lemma move_all_eq: "move_all acc q = (acc @ q, [])"
  by (induction acc q rule: move_all.induct) auto

lemma drain_section_eq:
  "drain_section s = (if ready s then Some (queue s, s\<lparr>queue := []\<rparr>) else None)"
  by (simp add: drain_section_def move_all_eq)

section \<open>The interface: a queue that can be closed\<close>

text \<open>
  What the workers and the telemetry client rely on. \<open>pending\<close> is the abstract content, \<open>closed\<close>
  whether the queue still accepts.
\<close>

datatype 'a action = Push 'a | Drain | Shutdown

locale closable_queue =
  fixes push :: "'a \<Rightarrow> 's \<Rightarrow> bool \<times> 's"
    and drain :: "'s \<Rightarrow> ('a list \<times> 's) option"
    and shutdown :: "'s \<Rightarrow> 's"
    and pending :: "'s \<Rightarrow> 'a list"
    and closed :: "'s \<Rightarrow> bool"
  assumes push_open: "\<not> closed s \<Longrightarrow> \<exists>s'. push x s = (True, s') \<and> pending s' = pending s @ [x] \<and> \<not> closed s'"
    and push_closed: "closed s \<Longrightarrow> push x s = (False, s)"
    and drain_waits: "drain s = None \<longleftrightarrow> pending s = [] \<and> \<not> closed s"
    and drain_all: "drain s = Some (xs, s') \<Longrightarrow> xs = pending s \<and> pending s' = [] \<and> closed s' = closed s"
    and shutdown_closes: "pending (shutdown s) = pending s \<and> closed (shutdown s)"
begin

text \<open>What a sequence of operations accepts and delivers.\<close>

fun run :: "'a action list \<Rightarrow> 's \<Rightarrow> 'a list \<times> 'a list \<times> 's" where
  "run [] s = ([], [], s)"
| "run (Push x # as) s =
     (case push x s of (acc, s') \<Rightarrow> case run as s' of (i, out, s'') \<Rightarrow> (if acc then x # i else i, out, s''))"
| "run (Drain # as) s =
     (case drain s of
        None \<Rightarrow> run as s
      | Some (xs, s') \<Rightarrow> (case run as s' of (i, out, s'') \<Rightarrow> (i, xs @ out, s'')))"
| "run (Shutdown # as) s = run as (shutdown s)"

lemma run_fifo: "run as s = (i, out, s') \<Longrightarrow> pending s @ i = out @ pending s'"
proof (induction as s arbitrary: i out s' rule: run.induct)
  case (2 x as s)
  then show ?case
    using push_open[of s x] push_closed[of s x]
    by (cases "closed s") (auto split: prod.splits)
next
  case (3 as s)
  then show ?case
    using drain_waits[of s] drain_all[of s] by (auto split: option.splits prod.splits)
next
  case (4 as s)
  then show ?case using shutdown_closes[of s] by simp
qed simp

end

interpretation cq: closable_queue push_section drain_section shutdown_section queue shutting_down
  by unfold_locales
     (auto simp: push_section_def drain_section_eq shutdown_section_def ready_def split: if_splits)

section \<open>The threads\<close>

text \<open>
  Where a thread is: outside, behind the critical section of \<open>push\<close> or \<open>shutdown\<close> but before its
  notification, in the wait set, or woken and about to take the lock again.
\<close>

datatype pc = Outside | Notify_One | Notify_All | Waiting | Woken

record ('t, 'a) system =
  cq :: "'a client_queue"
  pc :: "'t \<Rightarrow> pc"
  accepted :: "'a list"
  delivered :: "'a list"

definition initial_system :: "('t, 'a) system" where
  "initial_system = \<lparr>cq = empty_queue, pc = (\<lambda>_. Outside), accepted = [], delivered = []\<rparr>"

inductive step :: "('t, 'a) system \<Rightarrow> ('t, 'a) system \<Rightarrow> bool" where
  push_accepted: "pc s t = Outside \<Longrightarrow> push_section x (cq s) = (True, q) \<Longrightarrow>
     step s (s\<lparr>cq := q, pc := (pc s)(t := Notify_One), accepted := accepted s @ [x]\<rparr>)"
| push_ignored: "pc s t = Outside \<Longrightarrow> push_section x (cq s) = (False, q) \<Longrightarrow> step s (s\<lparr>cq := q\<rparr>)"
| notify_one: "pc s t = Notify_One \<Longrightarrow> pc s u = Waiting \<Longrightarrow>
     step s (s\<lparr>pc := (pc s)(t := Outside, u := Woken)\<rparr>)"
| notify_nobody: "pc s t = Notify_One \<Longrightarrow> (\<forall>u. pc s u \<noteq> Waiting) \<Longrightarrow> step s (s\<lparr>pc := (pc s)(t := Outside)\<rparr>)"
| drain_returns: "pc s t \<in> {Outside, Woken} \<Longrightarrow> drain_section (cq s) = Some (xs, q) \<Longrightarrow>
     step s (s\<lparr>cq := q, pc := (pc s)(t := Outside), delivered := delivered s @ xs\<rparr>)"
| drain_blocks: "pc s t \<in> {Outside, Woken} \<Longrightarrow> drain_section (cq s) = None \<Longrightarrow>
     step s (s\<lparr>pc := (pc s)(t := Waiting)\<rparr>)"
| spurious: "pc s t = Waiting \<Longrightarrow> step s (s\<lparr>pc := (pc s)(t := Woken)\<rparr>)"
| shutdown: "pc s t = Outside \<Longrightarrow>
     step s (s\<lparr>cq := shutdown_section (cq s), pc := (pc s)(t := Notify_All)\<rparr>)"
| notify_all: "pc s t = Notify_All \<Longrightarrow>
     step s (s\<lparr>pc := (\<lambda>u. if u = t then Outside else if pc s u = Waiting then Woken else pc s u)\<rparr>)"

inductive_cases stepE: "step s s'"

inductive reachable :: "('t, 'a) system \<Rightarrow> bool" where
  init: "reachable initial_system"
| next_step: "reachable s \<Longrightarrow> step s s' \<Longrightarrow> reachable s'"

text \<open>
  The invariant: what was accepted is what was delivered and what is still queued, in this order; a
  thread waits although the predicate holds only while somebody is about to notify or has been
  woken; and behind a shutdown, only while the notification of all is due.
\<close>

definition queue_inv :: "('t, 'a) system \<Rightarrow> bool" where
  "queue_inv s \<longleftrightarrow>
     accepted s = delivered s @ queue (cq s) \<and>
     (queue (cq s) \<noteq> [] \<and> (\<exists>w. pc s w = Waiting) \<longrightarrow> (\<exists>t. pc s t \<in> {Notify_One, Notify_All, Woken})) \<and>
     (shutting_down (cq s) \<and> (\<exists>w. pc s w = Waiting) \<longrightarrow> (\<exists>t. pc s t = Notify_All))"

lemma queue_inv_init: "queue_inv initial_system"
  by (simp add: queue_inv_def initial_system_def empty_queue_def)

lemma push_section_True:
  "push_section x s = (True, q) \<longleftrightarrow> \<not> shutting_down s \<and> q = s\<lparr>queue := queue s @ [x]\<rparr>"
  "push_section x s = (False, q) \<longleftrightarrow> shutting_down s \<and> q = s"
  by (auto simp: push_section_def)

lemma drain_section_Some:
  "drain_section s = Some (xs, q) \<longleftrightarrow> ready s \<and> xs = queue s \<and> q = s\<lparr>queue := []\<rparr>"
  "drain_section s = None \<longleftrightarrow> \<not> ready s"
  by (auto simp: drain_section_eq)

lemma queue_invI:
  assumes "accepted s = delivered s @ queue (cq s)"
    and "\<And>w. queue (cq s) \<noteq> [] \<Longrightarrow> pc s w = Waiting \<Longrightarrow> \<exists>t. pc s t \<in> {Notify_One, Notify_All, Woken}"
    and "\<And>w. shutting_down (cq s) \<Longrightarrow> pc s w = Waiting \<Longrightarrow> \<exists>t. pc s t = Notify_All"
  shows "queue_inv s"
  using assms unfolding queue_inv_def by blast

lemma queue_inv_step: "step s s' \<Longrightarrow> queue_inv s \<Longrightarrow> queue_inv s'"
proof (induction rule: step.induct)
  case (push_accepted s t x q)
  then show ?case
    by (intro queue_invI) (auto simp: queue_inv_def push_section_True)
next
  case (push_ignored s t x q)
  then show ?case by (simp add: push_section_True)
next
  case (notify_one s t u)
  show ?case
  proof (rule queue_invI)
    fix w
    let ?s = "s\<lparr>pc := (pc s)(t := Outside, u := Woken)\<rparr>"
    assume "pc ?s w = Waiting" and "shutting_down (cq ?s)"
    then have "pc s w = Waiting" "shutting_down (cq s)" by (auto split: if_splits)
    with notify_one(3) obtain v where "pc s v = Notify_All" by (auto simp: queue_inv_def)
    with notify_one(1,2) show "\<exists>t. pc ?s t = Notify_All" by (intro exI[of _ v]) auto
  next
    show "\<exists>v. pc (s\<lparr>pc := (pc s)(t := Outside, u := Woken)\<rparr>) v \<in> {Notify_One, Notify_All, Woken}"
      by (rule exI[of _ u]) simp
  qed (use notify_one in \<open>simp add: queue_inv_def\<close>)
next
  case (notify_nobody s t)
  then show ?case by (intro queue_invI) (auto simp: queue_inv_def split: if_splits)
next
  case (drain_returns s t xs q)
  show ?case
  proof (rule queue_invI)
    fix w
    let ?s = "s\<lparr>cq := q, pc := (pc s)(t := Outside), delivered := delivered s @ xs\<rparr>"
    assume "pc ?s w = Waiting" and "shutting_down (cq ?s)"
    then have "pc s w = Waiting" "shutting_down (cq s)"
      using drain_returns(2) by (auto simp: drain_section_Some split: if_splits)
    with drain_returns(3) obtain v where "pc s v = Notify_All" by (auto simp: queue_inv_def)
    with drain_returns(1) show "\<exists>t. pc ?s t = Notify_All" by (intro exI[of _ v]) auto
  qed (use drain_returns in \<open>simp_all add: queue_inv_def drain_section_Some\<close>)
next
  case (drain_blocks s t)
  then show ?case
    by (intro queue_invI) (auto simp: queue_inv_def drain_section_Some ready_def)
next
  case (spurious s t)
  show ?case
  proof (rule queue_invI)
    fix w
    let ?s = "s\<lparr>pc := (pc s)(t := Woken)\<rparr>"
    assume "pc ?s w = Waiting" and "shutting_down (cq ?s)"
    then have "pc s w = Waiting" "shutting_down (cq s)" by (auto split: if_splits)
    with spurious(2) obtain v where "pc s v = Notify_All" by (auto simp: queue_inv_def)
    with spurious(1) show "\<exists>t. pc ?s t = Notify_All" by (intro exI[of _ v]) auto
  next
    show "\<exists>v. pc (s\<lparr>pc := (pc s)(t := Woken)\<rparr>) v \<in> {Notify_One, Notify_All, Woken}"
      by (rule exI[of _ t]) simp
  qed (use spurious in \<open>simp add: queue_inv_def\<close>)
next
  case (shutdown s t)
  show ?case
    by (rule queue_invI) (use shutdown in \<open>auto simp: queue_inv_def shutdown_section_def\<close>)
next
  case (notify_all s t)
  then show ?case by (intro queue_invI) (auto simp: queue_inv_def split: if_splits)
qed

lemma reachable_inv: "reachable s \<Longrightarrow> queue_inv s"
  by (induction rule: reachable.induct) (auto simp: queue_inv_init queue_inv_step)

text \<open>
  C7: Nothing is lost, duplicated or reordered between workers and client, however the threads
  interleave: what \<open>push\<close> accepted is what \<open>drain\<close> has returned followed by what is still queued.
\<close>

theorem queue_fifo:
  assumes "reachable s"
  shows "accepted s = delivered s @ queue (cq s)"
  using reachable_inv[OF assms] by (simp add: queue_inv_def)

text \<open>A consumer (thread 1) waits, a worker (thread 0) pushes, and has still to notify.\<close>

definition pushed_state :: "(nat, nat) system" where
  "pushed_state = \<lparr>cq = \<lparr>queue = [7], shutting_down = False\<rparr>, pc = (\<lambda>_. Outside)(1 := Waiting, 0 := Notify_One),
     accepted = [7], delivered = []\<rparr>"

lemma pushed_reachable: "reachable pushed_state"
proof -
  let ?i = "initial_system :: (nat, nat) system"
  let ?s = "?i\<lparr>pc := (pc ?i)(1 := Waiting)\<rparr>"
  have "step ?i ?s"
    by (rule step.drain_blocks) (simp_all add: initial_system_def empty_queue_def drain_section_Some ready_def)
  then have 1: "reachable ?s" by (rule reachable.next_step[OF reachable.init])
  have "step ?s (?s\<lparr>cq := \<lparr>queue = [7], shutting_down = False\<rparr>, pc := (pc ?s)(0 := Notify_One),
      accepted := accepted ?s @ [7]\<rparr>)"
    by (rule step.push_accepted) (simp_all add: initial_system_def empty_queue_def push_section_def)
  with 1 have "reachable (?s\<lparr>cq := \<lparr>queue = [7], shutting_down = False\<rparr>, pc := (pc ?s)(0 := Notify_One),
      accepted := accepted ?s @ [7]\<rparr>)"
    by (rule reachable.next_step)
  then show ?thesis by (simp add: pushed_state_def initial_system_def)
qed

lemma queue_fifo_witness: "accepted pushed_state = delivered pushed_state @ queue (cq pushed_state)"
  by (rule queue_fifo[OF pushed_reachable])

text \<open>
  C22: No wake-up is lost: while a thread waits although a snapshot is queued, some thread is about to
  notify or has been woken and will find it; and while one waits although the queue is shut down, the
  notification of all waiting threads is still due.
\<close>

theorem queue_wakeup:
  assumes "reachable s" and "pc s w = Waiting"
  shows "(if queue (cq s) \<noteq> [] then \<exists>t. pc s t \<in> {Notify_One, Notify_All, Woken} else True) \<and>
    (if shutting_down (cq s) then \<exists>t. pc s t = Notify_All else True)"
  using reachable_inv[OF assms(1)] assms(2) unfolding queue_inv_def by auto

lemma queue_wakeup_witness: "\<exists>t. pc pushed_state t \<in> {Notify_One, Notify_All, Woken}"
  using queue_wakeup[OF pushed_reachable, of 1] by (simp add: pushed_state_def)

text \<open>
  C25: Once a shutdown has notified, nobody waits: every thread's next \<open>drain\<close> returns at once with what is
  left, and no push adds to it.
\<close>

theorem queue_shutdown:
  assumes "reachable s" and "shutting_down (cq s)" and "\<And>t. pc s t \<noteq> Notify_All"
  shows "pc s w \<noteq> Waiting \<and> drain_section (cq s) = Some (queue (cq s), (cq s)\<lparr>queue := []\<rparr>) \<and>
    push_section x (cq s) = (False, cq s)"
  using reachable_inv[OF assms(1)] assms(2,3)
  by (auto simp: queue_inv_def drain_section_Some push_section_True ready_def)

definition closed_state :: "(nat, nat) system" where
  "closed_state = \<lparr>cq = \<lparr>queue = [], shutting_down = True\<rparr>, pc = (\<lambda>_. Outside), accepted = [], delivered = []\<rparr>"

lemma closed_reachable: "reachable closed_state"
proof -
  let ?i = "initial_system :: (nat, nat) system"
  let ?s = "?i\<lparr>cq := shutdown_section (cq ?i), pc := (pc ?i)(0 := Notify_All)\<rparr>"
  have "step ?i ?s" by (rule step.shutdown) (simp add: initial_system_def)
  then have 1: "reachable ?s" by (rule reachable.next_step[OF reachable.init])
  have "step ?s (?s\<lparr>pc := (\<lambda>u. if u = 0 then Outside else if pc ?s u = Waiting then Woken else pc ?s u)\<rparr>)"
    by (rule step.notify_all) simp
  with 1 have "reachable (?s\<lparr>pc := (\<lambda>u. if u = 0 then Outside else if pc ?s u = Waiting then Woken else pc ?s u)\<rparr>)"
    by (rule reachable.next_step)
  moreover have "?s\<lparr>pc := (\<lambda>u. if u = 0 then Outside else if pc ?s u = Waiting then Woken else pc ?s u)\<rparr> = closed_state"
    by (simp add: closed_state_def initial_system_def empty_queue_def shutdown_section_def fun_eq_iff)
  ultimately show ?thesis by simp
qed

lemma queue_shutdown_witness:
  "pc closed_state 3 \<noteq> Waiting \<and> drain_section (cq closed_state) = Some ([], cq closed_state)"
  using queue_shutdown[OF closed_reachable, of 3] by (simp add: closed_state_def)

text \<open>
  The queue implements the closable queue in a sequence of operations: for every sequence on an empty
  queue, the snapshots accepted are those delivered followed by those left.
\<close>

theorem queue_sequence:
  "(case cq.run ops empty_queue of (taken, given, s) \<Rightarrow> taken = given @ queue s)"
  using cq.run_fifo[of ops empty_queue] by (auto simp: empty_queue_def split: prod.splits)

end
