(* ===== verification/Opcua_Layout.thy ===== *)
theory Opcua_Layout
  imports Prelude "HOL-Library.Sublist"
begin

text \<open>
  The address space as client and server agree on it: node identifiers, the identifiers a device
  builds for its objects (\<open>shared_opc_ua_layout.h\<close>) and the test whether an identifier is one of a
  device (\<open>nodeIdBelongsToDevice\<close> of \<open>AccessControlCustom.cpp\<close>). Strings are their bytes.
\<close>

section \<open>Node identifiers\<close>

text \<open>The four identifier types of OPC UA; \<open>NodeId{}\<close> is the numeric identifier 0 of namespace 0.\<close>

datatype node_identifier = Numeric "32 word" | Str string | Guid "128 word" | Bytes string

record node_id =
  namespace_index :: "16 word"
  ident :: node_identifier

definition null_node_id :: node_id where
  "null_node_id = \<lparr>namespace_index = 0, ident = Numeric 0\<rparr>"

definition string_node_id :: "16 word \<Rightarrow> string \<Rightarrow> node_id" where
  "string_node_id ns s = \<lparr>namespace_index = ns, ident = Str s\<rparr>"

section \<open>The layout\<close>

definition kTelemetryNamespaceIndex :: "16 word" where
  "kTelemetryNamespaceIndex = 1"

definition kTelemetryClientsFolderName :: string where
  "kTelemetryClientsFolderName = ''TelemetryClients''"

definition clientFolderId :: "string \<Rightarrow> string" where
  "clientFolderId device_name = device_name"

definition snapshotObjectId :: "string \<Rightarrow> string \<Rightarrow> string" where
  "snapshotObjectId device_name device_key = device_name @ ''.'' @ device_key"

definition snapshotFieldId :: "string \<Rightarrow> string \<Rightarrow> string \<Rightarrow> string" where
  "snapshotFieldId device_name device_key field = device_name @ ''.'' @ device_key @ ''.'' @ field"

section \<open>Which identifiers belong to a device\<close>

text \<open>
  \<open>id_str.compare(0, prefix.size(), prefix) == 0\<close> compares the first \<open>prefix.size()\<close> bytes; the
  conjunct before it makes sure that there is at least one more.
\<close>

definition nodeIdBelongsToDevice :: "node_id \<Rightarrow> string \<Rightarrow> bool" where
  "nodeIdBelongsToDevice nid device_name =
     (case ident nid of
        Str id_str \<Rightarrow>
          (if id_str = device_name then True
           else let pre = device_name @ ''.''
                in length id_str > length pre \<and> take (length pre) id_str = pre)
      | _ \<Rightarrow> False)"

lemma belongs_iff:
  "nodeIdBelongsToDevice nid d \<longleftrightarrow>
     (\<exists>s. ident nid = Str s \<and> (s = d \<or> strict_prefix (d @ ''.'') s))"
proof (cases "ident nid")
  case (Str s)
  have "take (length p) s = p \<and> length p < length s \<longleftrightarrow> strict_prefix p s" for p :: string
    by (metis append_eq_conv_conj append_take_drop_id not_equal_is_parallel parallelD1 prefix_def
        prefix_length_less prefix_order.less_le strict_prefix_def take_all_iff order.irrefl linorder_not_less)
  from this[of "d @ ''.''"] Str show ?thesis
    by (auto simp: nodeIdBelongsToDevice_def Let_def)
qed (auto simp: nodeIdBelongsToDevice_def)

text \<open>Two devices can only share an identifier if the name of one is below the name of the other.\<close>

definition below :: "string \<Rightarrow> string \<Rightarrow> bool" where
  "below d d' \<longleftrightarrow> prefix (d @ ''.'') d'"

lemma belongs_both:
  assumes "nodeIdBelongsToDevice nid d" and "nodeIdBelongsToDevice nid d'"
  shows "d = d' \<or> below d d' \<or> below d' d"
proof -
  from assms(1) obtain s where "ident nid = Str s" "s = d \<or> strict_prefix (d @ ''.'') s"
    unfolding belongs_iff by blast
  with assms(2) have s: "s = d \<or> strict_prefix (d @ ''.'') s" "s = d' \<or> strict_prefix (d' @ ''.'') s"
    unfolding belongs_iff by simp_all
  have *: "a = b \<or> below a b \<or> below b a"
    if "prefix (a @ ''.'') s" and "prefix (b @ ''.'') s" for a b
  proof -
    have "prefix (a @ ''.'') (b @ ''.'') \<or> prefix (b @ ''.'') (a @ ''.'')"
      using prefix_same_cases[OF that] by auto
    then show ?thesis by (auto simp: below_def)
  qed
  from s show ?thesis
  proof (elim disjE)
    assume "strict_prefix (d @ ''.'') s" "strict_prefix (d' @ ''.'') s"
    then show ?thesis using *[of d d'] by (auto simp: strict_prefix_def)
  qed (auto simp: below_def strict_prefix_def)
qed

text \<open>Below a device every identifier of a sub-device is its own too.\<close>

lemma below_inherits: "below d d' \<Longrightarrow> nodeIdBelongsToDevice nid d' \<Longrightarrow> d' \<noteq> d @ ''.'' \<Longrightarrow> nodeIdBelongsToDevice nid d"
  by (auto simp: belongs_iff below_def strict_prefix_def prefix_def)

text \<open>What the telemetry client builds for its device.\<close>

lemma belongs_client: "nodeIdBelongsToDevice (string_node_id ns (clientFolderId d)) d"
  by (simp add: belongs_iff string_node_id_def clientFolderId_def)

lemma belongs_object: "nodeIdBelongsToDevice (string_node_id ns (snapshotObjectId d k)) d \<longleftrightarrow> k \<noteq> []"
  by (auto simp: belongs_iff string_node_id_def snapshotObjectId_def strict_prefix_def prefix_def)

lemma belongs_field: "nodeIdBelongsToDevice (string_node_id ns (snapshotFieldId d k f)) d"
  by (auto simp: belongs_iff string_node_id_def snapshotFieldId_def strict_prefix_def prefix_def)

lemma snapshotFieldId_object: "snapshotFieldId d k f = snapshotObjectId (snapshotObjectId d k) f"
  by (simp add: snapshotFieldId_def snapshotObjectId_def)

end
