(* ===== verification/Access_Control.thy ===== *)
theory Access_Control
  imports Opcua_Layout
begin

text \<open>
  The access control of the telemetry server, \<open>AccessControlCustom.cpp\<close>: activation of a session by
  certificate, the rights of a session, and the decisions about the changes to the address space
  that a client asks for. The state is the map of the session attributes and the identifier of the
  folder \<open>TelemetryClients\<close>. The file system (the directory \<open>pki/devices\<close>) is an argument of the
  activation; bit masks are sets of flags; a status code is named, not numbered. \<open>None\<close> is that an
  exception of the directory iterator leaves the operation.
\<close>

section \<open>Data\<close>

datatype access_level = CurrentRead | CurrentWrite
datatype write_mask = ValueForVariableType
datatype status_code = GOOD | BADIDENTITYTOKENINVALID | BADIDENTITYTOKENREJECTED | BADCERTIFICATEUNTRUSTED

definition X509_TOKEN_POLICY_ID :: string where
  "X509_TOKEN_POLICY_ID = ''open62541-certificate-policy#Basic256Sha256''"

record ClientAttributes =
  device_name :: string
  access_lvl :: "access_level set"
  can_browse :: bool
  can_execute_methods :: bool
  can_write_history :: bool
  device_folder_id :: node_id

record access_control =
  session_attributes :: "node_id \<rightharpoonup> ClientAttributes"
  telemetry_clients_folder :: node_id

definition new_AccessControl :: "node_id \<Rightarrow> access_control" where
  "new_AccessControl telemetryClientsFolder =
     \<lparr>session_attributes = (\<lambda>_. None), telemetry_clients_folder = telemetryClientsFolder\<rparr>"

record X509IdentityToken =
  policyId :: string
  certificateData :: string

text \<open>
  The directory \<open>pki/devices\<close> as its iterator delivers it. An entry has a name, whether it is a
  directory (\<open>None\<close> when asking throws), and the bytes of \<open><name>/<name>.crt\<close>: \<open>None\<close> when that is
  no regular file, the empty string when it cannot be opened. The iteration ends, or throws.
\<close>

record device_entry =
  entry_name :: string
  entry_is_directory :: "bool option"
  entry_crt :: "string option"

datatype listing = End | Entry device_entry listing | Throws

record pki =
  devices_is_directory :: bool
  devices_listing :: listing

section \<open>Activation\<close>

fun search_devices :: "string \<Rightarrow> string \<Rightarrow> listing \<Rightarrow> string option option" where
  "search_devices usr_tkn_cert channel_cert End = Some None"
| "search_devices usr_tkn_cert channel_cert Throws = None"
| "search_devices usr_tkn_cert channel_cert (Entry e rest) =
     (case entry_is_directory e of
        None \<Rightarrow> None
      | Some False \<Rightarrow> search_devices usr_tkn_cert channel_cert rest
      | Some True \<Rightarrow>
          if entry_name e = ''server'' then search_devices usr_tkn_cert channel_cert rest
          else case entry_crt e of
            None \<Rightarrow> search_devices usr_tkn_cert channel_cert rest
          | Some parsed \<Rightarrow>
              if parsed = [] then search_devices usr_tkn_cert channel_cert rest
              else if usr_tkn_cert = parsed \<and> parsed = channel_cert then Some (Some (entry_name e))
              else search_devices usr_tkn_cert channel_cert rest)"

definition findTrustedDevice :: "pki \<Rightarrow> string \<Rightarrow> string \<Rightarrow> string option option" where
  "findTrustedDevice P usr_tkn_cert channel_cert =
     (if \<not> devices_is_directory P then Some None
      else search_devices usr_tkn_cert channel_cert (devices_listing P))"

definition rejected_attributes :: ClientAttributes where
  "rejected_attributes =
     \<lparr>device_name = ''Unsupported Device'', access_lvl = {}, can_browse = False,
      can_execute_methods = False, can_write_history = False, device_folder_id = null_node_id\<rparr>"

definition trusted_attributes :: "string \<Rightarrow> ClientAttributes" where
  "trusted_attributes d =
     \<lparr>device_name = d, access_lvl = {CurrentRead, CurrentWrite}, can_browse = True,
      can_execute_methods = True, can_write_history = False, device_folder_id = null_node_id\<rparr>"

definition set_attributes :: "node_id \<Rightarrow> ClientAttributes \<Rightarrow> access_control \<Rightarrow> access_control" where
  "set_attributes sid a s = s\<lparr>session_attributes := (session_attributes s)(sid \<mapsto> a)\<rparr>"

definition rejectSession :: "node_id \<Rightarrow> status_code \<Rightarrow> access_control \<Rightarrow> status_code \<times> access_control" where
  "rejectSession sid code s = (code, set_attributes sid rejected_attributes s)"

definition activateSession ::
  "pki \<Rightarrow> node_id \<Rightarrow> string \<Rightarrow> X509IdentityToken option \<Rightarrow> access_control \<Rightarrow>
   (status_code \<times> access_control) option" where
  "activateSession P sid channel_cert decoded_data s =
     (case decoded_data of
        None \<Rightarrow> Some (rejectSession sid BADIDENTITYTOKENINVALID s)
      | Some tok \<Rightarrow>
          if policyId tok \<noteq> X509_TOKEN_POLICY_ID then Some (rejectSession sid BADIDENTITYTOKENREJECTED s)
          else case findTrustedDevice P (certificateData tok) channel_cert of
            None \<Rightarrow> None
          | Some None \<Rightarrow> Some (rejectSession sid BADCERTIFICATEUNTRUSTED s)
          | Some (Some matchedDevice) \<Rightarrow> Some (GOOD, set_attributes sid (trusted_attributes matchedDevice) s))"

definition closeSession :: "node_id \<Rightarrow> access_control \<Rightarrow> access_control" where
  "closeSession sid s = s"

section \<open>Rights\<close>

text \<open>\<open>session_attributes_[session.id()]\<close> inserts empty attributes for a session it does not know.\<close>

definition default_attributes :: ClientAttributes where
  "default_attributes =
     \<lparr>device_name = [], access_lvl = {}, can_browse = False, can_execute_methods = False,
      can_write_history = False, device_folder_id = null_node_id\<rparr>"

definition index_attributes :: "node_id \<Rightarrow> access_control \<Rightarrow> ClientAttributes \<times> access_control" where
  "index_attributes sid s =
     (case session_attributes s sid of
        Some a \<Rightarrow> (a, s)
      | None \<Rightarrow> (default_attributes, set_attributes sid default_attributes s))"

definition full_access :: "ClientAttributes \<Rightarrow> bool" where
  "full_access a \<longleftrightarrow> access_lvl a = {CurrentRead, CurrentWrite}"

definition getUserRightsMask :: "node_id \<Rightarrow> node_id \<Rightarrow> access_control \<Rightarrow> write_mask set \<times> access_control" where
  "getUserRightsMask sid nodeId s =
     (case index_attributes sid s of (a, s) \<Rightarrow> (if full_access a then {ValueForVariableType} else {}, s))"

definition getUserAccessLevel :: "node_id \<Rightarrow> node_id \<Rightarrow> access_control \<Rightarrow> access_level set \<times> access_control" where
  "getUserAccessLevel sid nodeId s = (case index_attributes sid s of (a, s) \<Rightarrow> (access_lvl a, s))"

definition getUserExecutable :: "node_id \<Rightarrow> node_id \<Rightarrow> bool" where
  "getUserExecutable sid methodId = False"

definition getUserExecutableOnObject :: "node_id \<Rightarrow> node_id \<Rightarrow> node_id \<Rightarrow> bool" where
  "getUserExecutableOnObject sid methodId objectId = False"

section \<open>Changes to the address space\<close>

record AddNodesItem =
  parentNodeId :: node_id
  requestedNewNodeId :: node_id

record AddReferencesItem =
  sourceNodeId :: node_id
  targetNodeId :: node_id
  referenceTypeId :: node_id

definition allowAddNode :: "node_id \<Rightarrow> AddNodesItem \<Rightarrow> access_control \<Rightarrow> bool \<times> access_control" where
  "allowAddNode sid item s =
     (case session_attributes s sid of
        None \<Rightarrow> (False, s)
      | Some attrs \<Rightarrow>
          if \<not> full_access attrs then (False, s)
          else let parent = parentNodeId item; requested = requestedNewNodeId item in
            if parent = telemetry_clients_folder s then
              if \<not> nodeIdBelongsToDevice requested (device_name attrs) then (False, s)
              else (True, set_attributes sid (attrs\<lparr>device_folder_id := requested\<rparr>) s)
            else if parent = device_folder_id attrs \<or> nodeIdBelongsToDevice parent (device_name attrs)
            then (nodeIdBelongsToDevice requested (device_name attrs), s)
            else (False, s))"

text \<open>\<open>opcua::ReferenceTypeId::HasTypeDefinition\<close> is node 40 of namespace 0 in the OPC UA standard.\<close>

definition HasTypeDefinition :: node_id where
  "HasTypeDefinition = \<lparr>namespace_index = 0, ident = Numeric 40\<rparr>"

definition allowAddReference :: "node_id \<Rightarrow> AddReferencesItem \<Rightarrow> access_control \<Rightarrow> bool" where
  "allowAddReference sid item s =
     (case session_attributes s sid of
        None \<Rightarrow> False
      | Some attrs \<Rightarrow>
          if \<not> full_access attrs then False
          else let source = sourceNodeId item; target = targetNodeId item;
                   source_ok = (source = device_folder_id attrs \<or> nodeIdBelongsToDevice source (device_name attrs)) in
            if referenceTypeId item = HasTypeDefinition then source_ok \<and> namespace_index target = 0
            else if \<not> source_ok then False
            else if target = telemetry_clients_folder s \<or> target = device_folder_id attrs \<or>
                    nodeIdBelongsToDevice target (device_name attrs) then True
            else if namespace_index target = 0 then True
            else False)"

definition allowDeleteNode :: "node_id \<Rightarrow> node_id \<Rightarrow> bool" where
  "allowDeleteNode sid item = False"

definition allowDeleteReference :: "node_id \<Rightarrow> node_id \<Rightarrow> bool" where
  "allowDeleteReference sid item = False"

definition allowBrowseNode :: "node_id \<Rightarrow> node_id \<Rightarrow> access_control \<Rightarrow> bool" where
  "allowBrowseNode sid nodeId s =
     (case session_attributes s sid of None \<Rightarrow> False | Some a \<Rightarrow> can_browse a)"

definition allowTransferSubscription :: "node_id \<Rightarrow> node_id \<Rightarrow> bool" where
  "allowTransferSubscription oldSession newSession = False"

definition allowHistoryUpdate :: "node_id \<Rightarrow> node_id \<Rightarrow> bool" where
  "allowHistoryUpdate sid nodeId = False"

definition allowHistoryDelete :: "node_id \<Rightarrow> node_id \<Rightarrow> bool" where
  "allowHistoryDelete sid nodeId = False"

section \<open>The server's calls as a sequence\<close>

text \<open>
  The server calls the operations one after the other; a request is one of these calls and the reply
  is what the operation returns. An activation that throws leaves the state as it was.
\<close>

datatype request =
    Activate pki node_id string "X509IdentityToken option"
  | Close node_id
  | RightsMask node_id node_id
  | AccessLevel node_id node_id
  | Execute node_id node_id
  | ExecuteOn node_id node_id node_id
  | AddNode node_id AddNodesItem
  | AddReference node_id AddReferencesItem
  | DeleteNode node_id node_id
  | DeleteReference node_id node_id
  | Browse node_id node_id
  | TransferSubscription node_id node_id
  | HistoryUpdate node_id node_id
  | HistoryDelete node_id node_id

datatype reply = Status status_code | Thrown | Mask "write_mask set" | Level "access_level set" | Decision bool | Done

fun serve :: "request \<Rightarrow> access_control \<Rightarrow> reply \<times> access_control" where
  "serve (Activate P sid ch tok) s =
     (case activateSession P sid ch tok s of None \<Rightarrow> (Thrown, s) | Some (c, s') \<Rightarrow> (Status c, s'))"
| "serve (Close sid) s = (Done, closeSession sid s)"
| "serve (RightsMask sid n) s = (case getUserRightsMask sid n s of (m, s') \<Rightarrow> (Mask m, s'))"
| "serve (AccessLevel sid n) s = (case getUserAccessLevel sid n s of (l, s') \<Rightarrow> (Level l, s'))"
| "serve (Execute sid m) s = (Decision (getUserExecutable sid m), s)"
| "serve (ExecuteOn sid m ob) s = (Decision (getUserExecutableOnObject sid m ob), s)"
| "serve (AddNode sid item) s = (case allowAddNode sid item s of (b, s') \<Rightarrow> (Decision b, s'))"
| "serve (AddReference sid item) s = (Decision (allowAddReference sid item s), s)"
| "serve (DeleteNode sid n) s = (Decision (allowDeleteNode sid n), s)"
| "serve (DeleteReference sid n) s = (Decision (allowDeleteReference sid n), s)"
| "serve (Browse sid n) s = (Decision (allowBrowseNode sid n s), s)"
| "serve (TransferSubscription sid sid') s = (Decision (allowTransferSubscription sid sid'), s)"
| "serve (HistoryUpdate sid n) s = (Decision (allowHistoryUpdate sid n), s)"
| "serve (HistoryDelete sid n) s = (Decision (allowHistoryDelete sid n), s)"

fun serve_all :: "request list \<Rightarrow> access_control \<Rightarrow> access_control" where
  "serve_all [] s = s"
| "serve_all (r # rs) s = serve_all rs (snd (serve r s))"

fun session_of :: "request \<Rightarrow> node_id" where
  "session_of (Activate P sid ch tok) = sid"
| "session_of (Close sid) = sid"
| "session_of (RightsMask sid n) = sid"
| "session_of (AccessLevel sid n) = sid"
| "session_of (Execute sid m) = sid"
| "session_of (ExecuteOn sid m ob) = sid"
| "session_of (AddNode sid item) = sid"
| "session_of (AddReference sid item) = sid"
| "session_of (DeleteNode sid n) = sid"
| "session_of (DeleteReference sid n) = sid"
| "session_of (Browse sid n) = sid"
| "session_of (TransferSubscription sid sid') = sid"
| "session_of (HistoryUpdate sid n) = sid"
| "session_of (HistoryDelete sid n) = sid"

fun permissive :: "reply \<Rightarrow> bool" where
  "permissive (Decision b) = b"
| "permissive (Mask m) = (m \<noteq> {})"
| "permissive (Level l) = (l \<noteq> {})"
| "permissive _ = False"

lemma serve_all_append: "serve_all (xs @ ys) s = serve_all ys (serve_all xs s)"
  by (induction xs arbitrary: s) auto

section \<open>Who is trusted\<close>

text \<open>The devices of a listing with the certificates the search compares, up to where it throws.\<close>

fun enrolled :: "listing \<Rightarrow> (string \<times> string) list" where
  "enrolled End = []"
| "enrolled Throws = []"
| "enrolled (Entry e rest) =
     (case (entry_is_directory e, entry_crt e) of
        (Some True, Some crt) \<Rightarrow>
          (if entry_name e \<noteq> ''server'' \<and> crt \<noteq> [] then [(entry_name e, crt)] else []) @ enrolled rest
      | (None, _) \<Rightarrow> []
      | _ \<Rightarrow> enrolled rest)"

text \<open>What an activation that succeeds has shown: the token and the channel carry the same enrolled certificate.\<close>

definition authenticates :: "pki \<Rightarrow> string \<Rightarrow> X509IdentityToken \<Rightarrow> string \<Rightarrow> bool" where
  "authenticates P ch tok d \<longleftrightarrow>
     policyId tok = X509_TOKEN_POLICY_ID \<and> certificateData tok = ch \<and> devices_is_directory P \<and>
     (d, ch) \<in> set (enrolled (devices_listing P))"

lemma search_devices_Some:
  "search_devices u c l = Some (Some d) \<Longrightarrow> u = c \<and> (d, c) \<in> set (enrolled l)"
  by (induction l) (auto split: option.splits bool.splits if_splits)

lemma activateSession_cases:
  assumes "activateSession P sid ch tok s = Some (c, s')"
  obtains (trusted) d t where "c = GOOD" "tok = Some t" "s' = set_attributes sid (trusted_attributes d) s"
      "authenticates P ch t d"
  | (rejected) "c \<noteq> GOOD" "s' = set_attributes sid rejected_attributes s"
  using assms
  by (auto simp: activateSession_def rejectSession_def findTrustedDevice_def authenticates_def
      dest: search_devices_Some split: option.splits if_splits)

section \<open>The invariant\<close>

text \<open>
  A session has all rights or none, and its folder, once it has one, is an identifier of its device.
\<close>

definition attributes_inv :: "ClientAttributes \<Rightarrow> bool" where
  "attributes_inv a \<longleftrightarrow>
     (access_lvl a = {} \<or> full_access a) \<and> can_browse a = full_access a \<and>
     (device_folder_id a = null_node_id \<or> nodeIdBelongsToDevice (device_folder_id a) (device_name a))"

definition ac_inv :: "access_control \<Rightarrow> bool" where
  "ac_inv s \<longleftrightarrow> (\<forall>a \<in> ran (session_attributes s). attributes_inv a)"

lemma ac_invD: "ac_inv s \<Longrightarrow> session_attributes s sid = Some a \<Longrightarrow> attributes_inv a"
  by (auto simp: ac_inv_def ran_def)

lemma attributes_inv_fixed [simp]:
  "attributes_inv rejected_attributes" "attributes_inv (trusted_attributes d)" "attributes_inv default_attributes"
  by (auto simp: attributes_inv_def rejected_attributes_def trusted_attributes_def default_attributes_def
      full_access_def)

lemma access_fixed [simp]:
  "\<not> full_access rejected_attributes" "full_access (trusted_attributes d)" "\<not> full_access default_attributes"
  by (auto simp: rejected_attributes_def trusted_attributes_def default_attributes_def full_access_def)

lemma session_attributes_set [simp]:
  "session_attributes (set_attributes sid a s) = (session_attributes s)(sid \<mapsto> a)"
  "telemetry_clients_folder (set_attributes sid a s) = telemetry_clients_folder s"
  by (simp_all add: set_attributes_def)

lemma ac_inv_set: "ac_inv s \<Longrightarrow> attributes_inv a \<Longrightarrow> ac_inv (set_attributes sid a s)"
  by (auto simp: ac_inv_def ran_def)

lemma index_attributes_eq:
  "index_attributes sid s = (a, s') \<Longrightarrow>
     (session_attributes s sid = Some a \<and> s' = s) \<or>
     (session_attributes s sid = None \<and> a = default_attributes \<and> s' = set_attributes sid a s)"
  by (auto simp: index_attributes_def split: option.splits)

lemma allowAddNode_cases:
  assumes "allowAddNode sid item s = (b, s')"
  obtains (denied) "\<not> b" "s' = s"
  | (folder) a where "session_attributes s sid = Some a" "full_access a" "b"
      "parentNodeId item = telemetry_clients_folder s"
      "nodeIdBelongsToDevice (requestedNewNodeId item) (device_name a)"
      "s' = set_attributes sid (a\<lparr>device_folder_id := requestedNewNodeId item\<rparr>) s"
  | (nested) a where "session_attributes s sid = Some a" "full_access a" "b" "s' = s"
      "parentNodeId item = device_folder_id a \<or> nodeIdBelongsToDevice (parentNodeId item) (device_name a)"
      "nodeIdBelongsToDevice (requestedNewNodeId item) (device_name a)"
  using assms unfolding allowAddNode_def Let_def
  by (cases "session_attributes s sid") (auto split: if_splits)

text \<open>How one call changes the attributes of a session.\<close>

lemma serve_attributes:
  assumes "serve r s = (rep, s')" and "session_attributes s' sid = Some a"
  obtains (trusted) P ch t d where "r = Activate P sid ch (Some t)" "rep = Status GOOD" "a = trusted_attributes d"
      "authenticates P ch t d"
  | (denied) "\<not> full_access a" "attributes_inv a"
  | (folder) a0 item where "r = AddNode sid item" "rep = Decision True" "session_attributes s sid = Some a0"
      "a = a0\<lparr>device_folder_id := requestedNewNodeId item\<rparr>"
      "nodeIdBelongsToDevice (requestedNewNodeId item) (device_name a0)"
  | (same) "session_attributes s sid = Some a" "(\<forall>P ch t. r \<noteq> Activate P sid ch t) \<or> rep = Thrown"
proof (cases r)
  case (Activate P sid' ch tok)
  show ?thesis
  proof (cases "activateSession P sid' ch tok s")
    case None
    with assms Activate show ?thesis by (intro same) auto
  next
    case (Some cs)
    with assms Activate have act: "activateSession P sid' ch tok s = Some (fst cs, s')" "rep = Status (fst cs)"
      by (auto split: prod.splits)
    show ?thesis
    proof (cases "sid' = sid")
      case True
      from act(1) show ?thesis
      proof (cases rule: activateSession_cases)
        case (trusted d t)
        with assms(2) Activate act True show ?thesis by (intro that(1)[of P ch t d]) auto
      next
        case rejected
        with assms(2) True show ?thesis by (intro denied) auto
      qed
    next
      case False
      with act(1) assms(2) Activate show ?thesis
        by (intro same) (auto elim!: activateSession_cases)
    qed
  qed
next
  case (AddNode sid' item)
  with assms(1) obtain b where b: "allowAddNode sid' item s = (b, s')" "rep = Decision b"
    by (auto split: prod.splits)
  from b(1) show ?thesis
  proof (cases rule: allowAddNode_cases)
    case (folder a0)
    with assms(2) AddNode b show ?thesis
      by (cases "sid' = sid") (auto intro: that(3) same)
  qed (use assms(2) AddNode in \<open>auto intro!: same\<close>)
next
  case (RightsMask sid' n)
  with assms(1) obtain a' where "index_attributes sid' s = (a', s')"
    by (auto simp: getUserRightsMask_def split: prod.splits)
  with assms(2) RightsMask show ?thesis
    using index_attributes_eq[of sid' s a' s']
    by (cases "sid' = sid") (auto intro: denied same)
next
  case (AccessLevel sid' n)
  with assms(1) obtain a' where "index_attributes sid' s = (a', s')"
    by (auto simp: getUserAccessLevel_def split: prod.splits)
  with assms(2) AccessLevel show ?thesis
    using index_attributes_eq[of sid' s a' s']
    by (cases "sid' = sid") (auto intro: denied same)
qed (use assms in \<open>auto intro: same simp: closeSession_def\<close>)

end
