(* ===== verification/Access_Properties.thy ===== *)
theory Access_Properties
  imports Access_Control
begin

text \<open>
  What the access control guarantees over every sequence of calls: who is granted anything has
  presented an enrolled certificate (authentication), a device changes its own part of the address
  space only (confinement), and unrelated devices never share an identifier (isolation).
\<close>

section \<open>The invariant over all calls\<close>

lemma attributes_inv_folder:
  "attributes_inv a \<Longrightarrow> nodeIdBelongsToDevice n (device_name a) \<Longrightarrow> attributes_inv (a\<lparr>device_folder_id := n\<rparr>)"
  by (auto simp: attributes_inv_def full_access_def)

lemma serve_inv:
  assumes "ac_inv s"
  shows "ac_inv (snd (serve r s))"
proof -
  have "attributes_inv a" if "session_attributes (snd (serve r s)) sid = Some a" for sid a
    using that
  proof (rule serve_attributes[of r s "fst (serve r s)", rotated])
    show "serve r s = (fst (serve r s), snd (serve r s))" by simp
  qed (use assms in \<open>auto dest: ac_invD intro: attributes_inv_folder\<close>)
  then show ?thesis by (auto simp: ac_inv_def ran_def)
qed

lemma serve_all_inv: "ac_inv s \<Longrightarrow> ac_inv (serve_all reqs s)"
  by (induction reqs arbitrary: s) (auto simp: serve_inv)

lemma new_inv [simp]: "ac_inv (new_AccessControl f)"
  by (simp add: ac_inv_def new_AccessControl_def)

lemma serve_folder: "telemetry_clients_folder (snd (serve r s)) = telemetry_clients_folder s"
  by (cases r)
     (auto simp: closeSession_def activateSession_def rejectSession_def getUserRightsMask_def getUserAccessLevel_def
       index_attributes_def allowAddNode_def Let_def split: option.splits prod.splits)

lemma serve_all_folder [simp]: "telemetry_clients_folder (serve_all reqs s) = telemetry_clients_folder s"
  by (induction reqs arbitrary: s) (auto simp: serve_folder)

lemma new_folder [simp]: "telemetry_clients_folder (new_AccessControl f) = f"
  by (simp add: new_AccessControl_def)

section \<open>Authentication\<close>

text \<open>An activation of the session that runs to its end, with success or with a rejection.\<close>

fun settles :: "node_id \<Rightarrow> request \<Rightarrow> bool" where
  "settles sid (Activate P sid' ch tok) \<longleftrightarrow> sid' = sid \<and>
     (case tok of None \<Rightarrow> True
      | Some t \<Rightarrow> policyId t \<noteq> X509_TOKEN_POLICY_ID \<or> findTrustedDevice P (certificateData t) ch \<noteq> None)"
| "settles sid _ \<longleftrightarrow> False"

lemma settles_reply: "settles sid r \<Longrightarrow> fst (serve r s) \<noteq> Thrown"
  by (cases r) (auto simp: activateSession_def rejectSession_def split: option.splits if_splits)

text \<open>The last activation of the session that has run to its end was by a trusted certificate of \<open>d\<close>.\<close>

definition authenticated :: "request list \<Rightarrow> node_id \<Rightarrow> string \<Rightarrow> bool" where
  "authenticated reqs sid d \<longleftrightarrow>
     (\<exists>pre P ch t post. reqs = pre @ Activate P sid ch (Some t) # post \<and> authenticates P ch t d \<and>
        list_all (\<lambda>r. \<not> settles sid r) post)"

lemma authenticated_snoc:
  "authenticated reqs sid d \<Longrightarrow> \<not> settles sid r \<Longrightarrow> authenticated (reqs @ [r]) sid d"
  unfolding authenticated_def
  by (elim exE conjE, rule_tac x = pre in exI, rule_tac x = P in exI, rule_tac x = ch in exI,
      rule_tac x = t in exI, rule_tac x = "post @ [r]" in exI) simp

lemma authenticated_last:
  "authenticates P ch t d \<Longrightarrow> authenticated (reqs @ [Activate P sid ch (Some t)]) sid d"
  unfolding authenticated_def by fastforce

lemma not_settles:
  "(\<forall>P ch t. r \<noteq> Activate P sid ch t) \<or> fst (serve r s) = Thrown \<Longrightarrow> \<not> settles sid r"
  using settles_reply[of sid r s] by (cases r) auto

lemma full_access_authenticated:
  assumes "session_attributes (serve_all reqs (new_AccessControl f)) sid = Some a" and "full_access a"
  shows "authenticated reqs sid (device_name a)"
  using assms
proof (induction reqs arbitrary: a rule: rev_induct)
  case Nil
  then show ?case by (simp add: new_AccessControl_def)
next
  case (snoc r reqs)
  let ?s = "serve_all reqs (new_AccessControl f)"
  have "serve r ?s = (fst (serve r ?s), snd (serve r ?s))" by simp
  moreover have "session_attributes (snd (serve r ?s)) sid = Some a"
    using snoc.prems(1) by (simp add: serve_all_append)
  ultimately show ?case
  proof (cases rule: serve_attributes)
    case (trusted P ch t d)
    then show ?thesis by (auto intro: authenticated_last simp: trusted_attributes_def)
  next
    case denied
    with snoc.prems(2) show ?thesis by simp
  next
    case (folder a0 item)
    with snoc show ?thesis by (auto intro!: authenticated_snoc simp: full_access_def)
  next
    case same
    with snoc show ?thesis by (auto intro!: authenticated_snoc not_settles)
  qed
qed

lemma default_access: "access_lvl default_attributes = {}"
  by (simp add: default_attributes_def)

lemma permissive_full_access:
  assumes "ac_inv s" and "permissive (fst (serve r s))"
  obtains a where "session_attributes s (session_of r) = Some a" and "full_access a"
proof -
  have "\<exists>a. session_attributes s (session_of r) = Some a \<and> full_access a"
    using assms
    by (cases r)
       (auto simp: getUserRightsMask_def getUserAccessLevel_def index_attributes_def allowAddReference_def
         allowBrowseNode_def getUserExecutable_def getUserExecutableOnObject_def allowDeleteNode_def
         allowDeleteReference_def allowTransferSubscription_def allowHistoryUpdate_def allowHistoryDelete_def
         attributes_inv_def default_access
         dest: ac_invD elim: allowAddNode_cases split: option.splits prod.splits if_splits)
  with that show ?thesis by blast
qed

lemma permissive_authenticated:
  assumes "permissive (fst (serve r (serve_all reqs (new_AccessControl f))))"
  obtains d where "authenticated reqs (session_of r) d"
  using permissive_full_access[OF serve_all_inv[OF new_inv] assms] full_access_authenticated by metis

text \<open>
  C6: Whoever is granted anything (a node, a reference, browsing, a right to read or write) has an
  activated session: the last activation of this session that ran to its end carried a certificate
  that is, byte for byte, the one enrolled for a device, in the token and on the secure channel.
\<close>

theorem access_authenticated:
  assumes "permissive (fst (serve r (serve_all reqs (new_AccessControl f))))"
  shows "\<exists>d. authenticated reqs (session_of r) d"
  using permissive_authenticated[OF assms] by metis

text \<open>A directory with one device, its certificate, and a session that presents it.\<close>

definition sample_entry :: "string \<Rightarrow> string \<Rightarrow> device_entry" where
  "sample_entry d crt = \<lparr>entry_name = d, entry_is_directory = Some True, entry_crt = Some crt\<rparr>"

definition sample_pki :: pki where
  "sample_pki = \<lparr>devices_is_directory = True,
     devices_listing = Entry (sample_entry ''server'' ''S'')
       (Entry (sample_entry ''pc'' ''A'') (Entry (sample_entry ''pc.lab'' ''B'') End))\<rparr>"

definition sample_token :: "string \<Rightarrow> X509IdentityToken" where
  "sample_token crt = \<lparr>policyId = X509_TOKEN_POLICY_ID, certificateData = crt\<rparr>"

definition sample_folder :: node_id where
  "sample_folder = string_node_id 1 kTelemetryClientsFolderName"

definition sample_login :: "node_id \<Rightarrow> string \<Rightarrow> request" where
  "sample_login sid crt = Activate sample_pki sid crt (Some (sample_token crt))"

definition sample_add :: "node_id \<Rightarrow> node_id \<Rightarrow> string \<Rightarrow> request" where
  "sample_add sid parent nm = AddNode sid \<lparr>parentNodeId = parent, requestedNewNodeId = string_node_id 1 nm\<rparr>"

lemmas sample_simps = sample_entry_def sample_pki_def sample_token_def sample_folder_def sample_login_def
  sample_add_def new_AccessControl_def activateSession_def findTrustedDevice_def set_attributes_def
  trusted_attributes_def allowAddNode_def full_access_def string_node_id_def nodeIdBelongsToDevice_def
  rejectSession_def

lemma access_authenticated_witness:
  "\<exists>d. authenticated [sample_login null_node_id ''A''] null_node_id d"
proof -
  have "permissive (fst (serve (sample_add null_node_id sample_folder ''pc'')
      (serve_all [sample_login null_node_id ''A''] (new_AccessControl sample_folder))))"
    by (simp add: sample_simps)
  from access_authenticated[OF this] show ?thesis by (simp add: sample_add_def)
qed

section \<open>Confinement\<close>

text \<open>
  C13: A node is only created for an authenticated device under an identifier of that device, and its
  parent is the folder of all clients, the null node or another node of the same device.
\<close>

theorem addNode_confined:
  assumes "serve (AddNode sid item) (serve_all reqs (new_AccessControl f)) = (Decision True, s')"
  shows "\<exists>d. authenticated reqs sid d \<and> nodeIdBelongsToDevice (requestedNewNodeId item) d \<and>
    parentNodeId item \<in> {f, null_node_id} \<union> {n. nodeIdBelongsToDevice n d}"
proof -
  let ?s = "serve_all reqs (new_AccessControl f)"
  have inv: "ac_inv ?s" by (simp add: serve_all_inv)
  from assms have "allowAddNode sid item ?s = (True, s')" by (auto split: prod.splits)
  then show ?thesis
  proof (cases rule: allowAddNode_cases)
    case (folder a)
    then show ?thesis using full_access_authenticated[OF folder(1,2)] by auto
  next
    case (nested a)
    then show ?thesis
      using full_access_authenticated[OF nested(1,2)] ac_invD[OF inv nested(1)]
      by (auto simp: attributes_inv_def)
  qed simp
qed

lemma addNode_confined_witness:
  "\<exists>d. authenticated [sample_login null_node_id ''A''] null_node_id d \<and>
     nodeIdBelongsToDevice (string_node_id 1 ''pc'') d"
proof -
  obtain s' where "serve (sample_add null_node_id sample_folder ''pc'')
      (serve_all [sample_login null_node_id ''A''] (new_AccessControl sample_folder)) = (Decision True, s')"
    by (simp add: sample_simps)
  from addNode_confined[OF this[unfolded sample_add_def]] show ?thesis by auto
qed

text \<open>
  A reference is only created for an authenticated device, from a node of that device (or the null
  node), to the folder of all clients, to the same device or into namespace 0.
\<close>

theorem addReference_confined:
  assumes "allowAddReference sid item (serve_all reqs (new_AccessControl f))"
  shows "\<exists>d. authenticated reqs sid d \<and>
    sourceNodeId item \<in> {null_node_id} \<union> {n. nodeIdBelongsToDevice n d} \<and>
    targetNodeId item \<in> {f} \<union> {n. namespace_index n = 0} \<union> {n. nodeIdBelongsToDevice n d}"
proof -
  let ?s = "serve_all reqs (new_AccessControl f)"
  have inv: "ac_inv ?s" by (simp add: serve_all_inv)
  obtain a where a: "session_attributes ?s sid = Some a" "full_access a"
    using assms by (auto simp: allowAddReference_def split: option.splits if_splits)
  have "attributes_inv a" using ac_invD[OF inv a(1)] .
  then have "device_folder_id a = null_node_id \<or> nodeIdBelongsToDevice (device_folder_id a) (device_name a)"
    by (simp add: attributes_inv_def)
  moreover have "namespace_index null_node_id = 0" by (simp add: null_node_id_def)
  ultimately have "sourceNodeId item \<in> {null_node_id} \<union> {n. nodeIdBelongsToDevice n (device_name a)} \<and>
      targetNodeId item \<in> {f} \<union> {n. namespace_index n = 0} \<union> {n. nodeIdBelongsToDevice n (device_name a)}"
    using assms a by (auto simp: allowAddReference_def Let_def split: if_splits)
  then show ?thesis using full_access_authenticated[OF a] by blast
qed

lemma addReference_confined_witness:
  "\<exists>d. authenticated [sample_login null_node_id ''A''] null_node_id d \<and>
     nodeIdBelongsToDevice (string_node_id 1 ''pc.gpu'') d"
proof -
  have "allowAddReference null_node_id
      \<lparr>sourceNodeId = string_node_id 1 ''pc.gpu'', targetNodeId = sample_folder, referenceTypeId = null_node_id\<rparr>
      (serve_all [sample_login null_node_id ''A''] (new_AccessControl sample_folder))"
    by (simp add: sample_simps allowAddReference_def HasTypeDefinition_def null_node_id_def)
  from addReference_confined[OF this] show ?thesis by (auto simp: string_node_id_def null_node_id_def)
qed

section \<open>Isolation\<close>

text \<open>
  The interface behind the layout: who may own a name. Two owners of one name are equal or related;
  what a sequence of grants gives to unrelated owners is disjoint.
\<close>

locale name_ownership =
  fixes owns :: "'n \<Rightarrow> 'd \<Rightarrow> bool"
    and related :: "'d \<Rightarrow> 'd \<Rightarrow> bool"
  assumes owns_both: "owns n d \<Longrightarrow> owns n d' \<Longrightarrow> d = d' \<or> related d d' \<or> related d' d"
begin

definition given :: "'d \<Rightarrow> ('d \<times> 'n) list \<Rightarrow> 'n set" where
  "given d gs = {n. (d, n) \<in> set gs}"

lemma given_disjoint:
  assumes "list_all (\<lambda>(d, n). owns n d) gs"
    and "d \<noteq> d'" "\<not> related d d'" "\<not> related d' d"
  shows "given d gs \<inter> given d' gs = {}"
  using assms owns_both by (fastforce simp: given_def list_all_iff)

end

interpretation devices: name_ownership nodeIdBelongsToDevice below
  by unfold_locales (rule belongs_both)

text \<open>The identifiers granted along a sequence of calls, each with the device it was granted to.\<close>

fun grant :: "request \<Rightarrow> access_control \<Rightarrow> (string \<times> node_id) list" where
  "grant (AddNode sid item) s =
     (case (session_attributes s sid, fst (allowAddNode sid item s)) of
        (Some a, True) \<Rightarrow> [(device_name a, requestedNewNodeId item)]
      | _ \<Rightarrow> [])"
| "grant _ s = []"

fun granted :: "request list \<Rightarrow> access_control \<Rightarrow> (string \<times> node_id) list" where
  "granted [] s = []"
| "granted (r # rs) s = grant r s @ granted rs (snd (serve r s))"

lemma grant_owned: "list_all (\<lambda>(d, n). nodeIdBelongsToDevice n d) (grant r s)"
proof (cases r)
  case (AddNode sid item)
  obtain b s' where b: "allowAddNode sid item s = (b, s')" by fastforce
  then show ?thesis
    by (cases rule: allowAddNode_cases) (auto simp: AddNode b split: option.splits)
qed auto

lemma granted_owned: "list_all (\<lambda>(d, n). nodeIdBelongsToDevice n d) (granted reqs s)"
  by (induction reqs arbitrary: s) (auto simp: grant_owned)

text \<open>
  C21: Two devices, neither of which is named below the other (as \<open>pc.lab\<close> is below \<open>pc\<close>), are never
  granted the same identifier, whatever calls are made.
\<close>

theorem devices_isolated:
  assumes "d \<noteq> d'" and "\<not> below d d'" and "\<not> below d' d"
  shows "{n. (d, n) \<in> set (granted reqs (new_AccessControl f))} \<inter>
    {n. (d', n) \<in> set (granted reqs (new_AccessControl f))} = {}"
  using devices.given_disjoint[OF granted_owned assms, of reqs "new_AccessControl f"]
  by (simp add: devices.given_def)

lemma devices_isolated_witness:
  "{n. (''pc'', n) \<in> set (granted [sample_login null_node_id ''A''] (new_AccessControl sample_folder))} \<inter>
   {n. (''nas'', n) \<in> set (granted [sample_login null_node_id ''A''] (new_AccessControl sample_folder))} = {}"
  by (rule devices_isolated) (simp_all add: below_def)

text \<open>
  Below its own name a device has no isolation: a device \<open>d\<close> is allowed every identifier
  of a device named below it, so it can take the folder and all objects of the other device first.
\<close>

theorem parent_device_may_create_below:
  assumes "activateSession P sid ch tok s = Some (GOOD, s')" and "session_attributes s' sid = Some a"
    and "below (device_name a) d'" and "d' \<noteq> device_name a @ ''.''" and "nodeIdBelongsToDevice n d'"
  shows "fst (serve (AddNode sid \<lparr>parentNodeId = telemetry_clients_folder s', requestedNewNodeId = n\<rparr>) s') =
    Decision True"
  using assms(1)
proof (cases rule: activateSession_cases)
  case (trusted d t)
  with assms(2) have a: "a = trusted_attributes d" by simp
  with below_inherits[OF assms(3,5,4)] assms(2) show ?thesis by (simp add: allowAddNode_def)
qed simp

lemma parent_device_may_create_below_witness:
  "fst (serve (AddNode null_node_id \<lparr>parentNodeId = sample_folder, requestedNewNodeId = string_node_id 1 ''pc.lab''\<rparr>)
     (set_attributes null_node_id (trusted_attributes ''pc'') (new_AccessControl sample_folder))) = Decision True"
proof -
  have "activateSession sample_pki null_node_id ''A'' (Some (sample_token ''A'')) (new_AccessControl sample_folder) =
      Some (GOOD, set_attributes null_node_id (trusted_attributes ''pc'') (new_AccessControl sample_folder))"
    by (simp add: activateSession_def findTrustedDevice_def sample_pki_def sample_entry_def sample_token_def)
  from parent_device_may_create_below[OF this, where d' = "''pc.lab''" and n = "string_node_id 1 ''pc.lab''"]
  show ?thesis
    by (simp add: trusted_attributes_def below_def string_node_id_def nodeIdBelongsToDevice_def)
qed

section \<open>Rights to write\<close>

text \<open>
  The right to write does not look at the node: a device that has been activated may read and write
  every node, the telemetry of all other devices included.
\<close>

theorem write_access_everywhere:
  assumes "activateSession P sid ch tok s = Some (GOOD, s')"
  shows "fst (serve (AccessLevel sid n) s') = Level {CurrentRead, CurrentWrite} \<and>
    fst (serve (RightsMask sid n) s') = Mask {ValueForVariableType}"
  using assms
proof (cases rule: activateSession_cases)
  case (trusted d t)
  then show ?thesis
    by (auto simp: getUserAccessLevel_def getUserRightsMask_def index_attributes_def trusted_attributes_def
        full_access_def)
qed simp

lemma write_access_everywhere_witness:
  "fst (serve (AccessLevel null_node_id (string_node_id 1 ''nas.gpu.name''))
     (set_attributes null_node_id (trusted_attributes ''pc'') (new_AccessControl sample_folder))) =
   Level {CurrentRead, CurrentWrite}"
proof -
  have "activateSession sample_pki null_node_id ''A'' (Some (sample_token ''A'')) (new_AccessControl sample_folder) =
      Some (GOOD, set_attributes null_node_id (trusted_attributes ''pc'') (new_AccessControl sample_folder))"
    by (simp add: activateSession_def findTrustedDevice_def sample_pki_def sample_entry_def sample_token_def)
  from write_access_everywhere[OF this] show ?thesis by blast
qed

end
