(* ===== verification/Telemetry_Client.thy ===== *)
theory Telemetry_Client
  imports Sensor_Dto Telemetry_Queue Access_Properties
begin

text \<open>
  The client that sends the telemetry of one machine: the functions of \<open>OPC_UA/utils.cpp\<close> that look up
  or create the nodes of a device and write a snapshot, and \<open>SystemInfoClient.cpp\<close>. The calls of the
  OPC UA stack are arguments over an arbitrary world; a call that throws \<open>BadStatus\<close> returns \<open>None\<close> and
  the world it leaves.
\<close>

section \<open>Calls that may throw\<close>

datatype browse_result = Found node_id | NoMatch | BadStatus

datatype node_class = FolderNode | ObjectNode | StringVariable | SensorVariable

datatype ua_value = StringValue string | SensorsValue "ext_object list option" nat

record 'w ua_env =
  ua_browse :: "node_id \<Rightarrow> 16 word \<Rightarrow> string \<Rightarrow> 'w \<Rightarrow> browse_result \<times> 'w"
  ua_add :: "node_class \<Rightarrow> node_id \<Rightarrow> node_id \<Rightarrow> string \<Rightarrow> 'w \<Rightarrow> node_id option \<times> 'w"
  ua_write :: "node_id \<Rightarrow> ua_value \<Rightarrow> 'w \<Rightarrow> unit option \<times> 'w"

type_synonym ('w, 'a) ua = "'w \<Rightarrow> 'a option \<times> 'w"

definition ua_return :: "'a \<Rightarrow> ('w, 'a) ua" where
  "ua_return x w = (Some x, w)"

definition ua_bind :: "('w, 'a) ua \<Rightarrow> ('a \<Rightarrow> ('w, 'b) ua) \<Rightarrow> ('w, 'b) ua" where
  "ua_bind m f w = (case m w of (None, w) \<Rightarrow> (None, w) | (Some x, w) \<Rightarrow> f x w)"

section \<open>Looking up and creating nodes\<close>

text \<open>\<open>BADNOMATCH\<close> is the answer that there is no such child; every other status is thrown on.\<close>

definition tryBrowseChild :: "'w ua_env \<Rightarrow> node_id \<Rightarrow> 16 word \<Rightarrow> string \<Rightarrow> ('w, node_id option) ua" where
  "tryBrowseChild E parent ns nm w =
     (case ua_browse E parent ns nm w of
        (Found n, w) \<Rightarrow> (Some (Some n), w)
      | (NoMatch, w) \<Rightarrow> (Some None, w)
      | (BadStatus, w) \<Rightarrow> (None, w))"

definition ensureClientFolder :: "'w ua_env \<Rightarrow> node_id \<Rightarrow> string \<Rightarrow> 16 word \<Rightarrow> ('w, node_id) ua" where
  "ensureClientFolder E clients_folder deviceName ns =
     ua_bind (tryBrowseChild E clients_folder ns deviceName) (\<lambda>existing.
       case existing of
         Some n \<Rightarrow> ua_return n
       | None \<Rightarrow> ua_add E FolderNode clients_folder (string_node_id ns (clientFolderId deviceName)) deviceName)"

definition ensureVar ::
  "'w ua_env \<Rightarrow> node_class \<Rightarrow> node_id \<Rightarrow> string \<Rightarrow> string \<Rightarrow> string \<Rightarrow> 16 word \<Rightarrow> ('w, node_id) ua" where
  "ensureVar E cl parent deviceName deviceKey field ns =
     ua_bind (tryBrowseChild E parent ns field) (\<lambda>existing.
       case existing of
         Some n \<Rightarrow> ua_return n
       | None \<Rightarrow> ua_add E cl parent (string_node_id ns (snapshotFieldId deviceName deviceKey field)) field)"

definition ensureStringVar ::
  "'w ua_env \<Rightarrow> node_id \<Rightarrow> string \<Rightarrow> string \<Rightarrow> string \<Rightarrow> 16 word \<Rightarrow> ('w, node_id) ua" where
  "ensureStringVar E = ensureVar E StringVariable"

record SnapshotNodeIds =
  id_object :: node_id
  id_name :: node_id
  id_vendor :: node_id
  id_hardware_type :: node_id
  id_sensors :: node_id

definition ensureSnapshotNode ::
  "'w ua_env \<Rightarrow> node_id \<Rightarrow> string \<Rightarrow> string \<Rightarrow> 16 word \<Rightarrow> ('w, SnapshotNodeIds) ua" where
  "ensureSnapshotNode E clientFolder deviceName deviceKey ns =
     ua_bind (tryBrowseChild E clientFolder ns deviceKey) (\<lambda>found.
     ua_bind (case found of
         Some n \<Rightarrow> ua_return n
       | None \<Rightarrow> ua_add E ObjectNode clientFolder
                   (string_node_id ns (snapshotObjectId deviceName deviceKey)) deviceKey) (\<lambda>obj.
     ua_bind (ensureStringVar E obj deviceName deviceKey ''name'' ns) (\<lambda>n.
     ua_bind (ensureStringVar E obj deviceName deviceKey ''vendor'' ns) (\<lambda>v.
     ua_bind (ensureStringVar E obj deviceName deviceKey ''hardware_type'' ns) (\<lambda>h.
     ua_bind (ensureVar E SensorVariable obj deviceName deviceKey ''sensors'' ns) (\<lambda>s.
     ua_return \<lparr>id_object = obj, id_name = n, id_vendor = v, id_hardware_type = h, id_sensors = s\<rparr>))))))"

definition writeSnapshot :: "'w ua_env \<Rightarrow> SnapshotNodeIds \<Rightarrow> TelemetryStore \<Rightarrow> ('w, unit) ua" where
  "writeSnapshot E ids store =
     ua_bind (ua_write E (id_name ids) (StringValue (store_name store))) (\<lambda>_.
     ua_bind (ua_write E (id_vendor ids) (StringValue (store_vendor store))) (\<lambda>_.
     ua_bind (ua_write E (id_hardware_type ids) (StringValue (store_hardware_type store))) (\<lambda>_.
     ua_write E (id_sensors ids) (SensorsValue (store_sensors store) (dev_sensors_size store)))))"

section \<open>The client\<close>

record 'w info_client =
  world :: 'w
  heap :: memory
  client_name :: string
  client_folder :: "node_id option"
  device_nodes :: "string \<rightharpoonup> SnapshotNodeIds"

definition on_world :: "('w, 'a) ua \<Rightarrow> ('w info_client, 'a) ua" where
  "on_world m s = (case m (world s) of (r, w) \<Rightarrow> (r, s\<lparr>world := w\<rparr>))"

text \<open>
  \<open>addNodes\<close>. The folder \<open>TelemetryClients\<close> is found by \<open>browseChild\<close>, which throws when it does not
  exist; its browse name is read to be printed, which may throw as well. \<open>ObjectsFolder\<close> is node 85
  of namespace 0 in the OPC UA standard.
\<close>

definition ObjectsFolder :: node_id where
  "ObjectsFolder = \<lparr>namespace_index = 0, ident = Numeric 85\<rparr>"

definition browseChild :: "'w ua_env \<Rightarrow> node_id \<Rightarrow> 16 word \<Rightarrow> string \<Rightarrow> ('w, node_id) ua" where
  "browseChild E parent ns nm w =
     (case ua_browse E parent ns nm w of (Found n, w) \<Rightarrow> (Some n, w) | (_, w) \<Rightarrow> (None, w))"

definition addNodes :: "'w ua_env \<Rightarrow> (node_id \<Rightarrow> ('w, unit) ua) \<Rightarrow> ('w info_client, unit) ua" where
  "addNodes E read_browse_name s =
     (case on_world (browseChild E ObjectsFolder kTelemetryNamespaceIndex kTelemetryClientsFolderName) s of
        (None, s) \<Rightarrow> (None, s)
      | (Some clients_folder, s) \<Rightarrow>
          (case on_world (read_browse_name clients_folder) s of
             (None, s) \<Rightarrow> (None, s)
           | (Some _, s) \<Rightarrow>
               (case on_world (ensureClientFolder E clients_folder (client_name s) kTelemetryNamespaceIndex) s of
                  (None, s) \<Rightarrow> (None, s)
                | (Some n, s) \<Rightarrow> (Some (), s\<lparr>client_folder := Some n\<rparr>))))"

text \<open>\<open>buildTelemetryPayload\<close> builds one store for each snapshot; \<open>None\<close> is a null pointer written to.\<close>

fun buildTelemetryPayload ::
  "codec \<Rightarrow> TelemetrySnapshot list \<Rightarrow> memory \<Rightarrow> (TelemetryStore list \<times> memory) option" where
  "buildTelemetryPayload cd [] mem = Some ([], mem)"
| "buildTelemetryPayload cd (snap # snaps) mem = do {
     (st, mem) \<leftarrow> buildTelemetryStore cd snap mem;
     (sts, mem) \<leftarrow> buildTelemetryPayload cd snaps mem;
     Some (st # sts, mem)
   }"

lemma payload_length: "buildTelemetryPayload cd snaps mem = Some (sts, mem') \<Longrightarrow> length sts = length snaps"
  by (induction snaps arbitrary: mem sts) (auto simp: bind_eq_Some_conv)

text \<open>The nodes of a device are looked up once; \<open>emplace\<close> keeps them.\<close>

definition nodes_for :: "'w ua_env \<Rightarrow> node_id \<Rightarrow> string \<Rightarrow> ('w info_client, SnapshotNodeIds) ua" where
  "nodes_for E folder device_key s =
     (case device_nodes s device_key of
        Some ids \<Rightarrow> (Some ids, s)
      | None \<Rightarrow>
          (case on_world (ensureSnapshotNode E folder (client_name s) device_key kTelemetryNamespaceIndex) s of
             (None, s) \<Rightarrow> (None, s)
           | (Some ids, s) \<Rightarrow> (Some ids, s\<lparr>device_nodes := (device_nodes s)(device_key \<mapsto> ids)\<rparr>)))"

fun send_all :: "'w ua_env \<Rightarrow> node_id \<Rightarrow> (TelemetrySnapshot \<times> TelemetryStore) list \<Rightarrow> ('w info_client, unit) ua" where
  "send_all E folder [] s = (Some (), s)"
| "send_all E folder ((snap, store) # rest) s =
     (case nodes_for E folder (ts_name snap) s of
        (None, s) \<Rightarrow> (None, s)
      | (Some ids, s) \<Rightarrow>
          (case on_world (writeSnapshot E ids store) s of
             (None, s) \<Rightarrow> (None, s)
           | (Some _, s) \<Rightarrow> send_all E folder rest s))"

fun free_all :: "TelemetryStore list \<Rightarrow> memory \<Rightarrow> memory" where
  "free_all [] mem = mem"
| "free_all (st # sts) mem = free_all sts (snd (freeTelemetryStore st mem))"

text \<open>
  \<open>sendTelemetryPayload\<close>: it returns \<open>Sent b\<close>, throws, writes through a null pointer, or waits for the
  queue. When it throws, the stores are not freed.
\<close>

datatype send_result = Sent bool | Threw | NullWrite | Waits

definition sendTelemetryPayload ::
  "'w ua_env \<Rightarrow> codec \<Rightarrow> TelemetrySnapshot client_queue \<Rightarrow> 'w info_client \<Rightarrow>
   send_result \<times> TelemetrySnapshot client_queue \<times> 'w info_client" where
  "sendTelemetryPayload E cd q s =
     (case client_folder s of
        None \<Rightarrow> (Sent False, q, s)
      | Some folder \<Rightarrow>
          (case drain_section q of
             None \<Rightarrow> (Waits, q, s)
           | Some (drained, q) \<Rightarrow>
               if drained = [] then (Sent True, q, s)
               else (case buildTelemetryPayload cd drained (heap s) of
                  None \<Rightarrow> (NullWrite, q, s)
                | Some (stores, mem) \<Rightarrow>
                    (case send_all E folder (zip drained stores) (s\<lparr>heap := mem\<rparr>) of
                       (None, s) \<Rightarrow> (Threw, q, s)
                     | (Some _, s) \<Rightarrow> (Sent True, q, s\<lparr>heap := free_all stores (heap s)\<rparr>)))))"

end
