(* ===== verification/Telemetry_Properties.thy ===== *)
theory Telemetry_Properties
  imports Telemetry_Client
begin

text \<open>
  What the telemetry client does: the values it writes and where, the memory it uses, what is lost when
  a call throws, and that the access control of the server admits everything it asks for.
\<close>

lemmas ua_simps = ua_bind_def ua_return_def on_world_def

section \<open>The stores of a payload\<close>

definition stores_snapshot :: "codec \<Rightarrow> memory \<Rightarrow> TelemetrySnapshot \<Rightarrow> TelemetryStore \<Rightarrow> bool" where
  "stores_snapshot cd mem snap st \<longleftrightarrow>
     store_name st = ts_name snap \<and> store_vendor st = ts_vendor snap \<and>
     store_hardware_type st = ts_hardware_type snap \<and>
     (\<exists>arr. store_sensors st = Some arr \<and> dev_sensors_size st = length arr \<and>
        variant_carries cd mem (ExtArray arr) (map dto_of (ts_sensors snap)))"

lemma store_carries:
  assumes "fresh_memory cd" and "build_sensors cd ss mem = Some (arr, mem1)"
    and later: "\<And>q d. holds_dto mem1 q d \<Longrightarrow> holds_dto mem' q d"
  shows "variant_carries cd mem' (ExtArray arr) (map dto_of ss)"
proof -
  have "list_all2 (\<lambda>e s. \<exists>p. e = Decoded (Some p) \<and> holds_dto mem1 p (dto_of s)) arr ss"
    using build_sensors_holds[OF assms(1,2)] by blast
  then have "list_all2 (\<lambda>e s. ext_carries cd mem' e (dto_of s)) arr ss"
    by (rule list_all2_mono) (auto dest: later)
  then show ?thesis by (simp add: list_all2_map2)
qed

lemma payload_stores:
  assumes "fresh_memory cd" and "buildTelemetryPayload cd snaps mem = Some (sts, mem')"
  shows "list_all2 (stores_snapshot cd mem') snaps sts \<and> (\<forall>q d. holds_dto mem q d \<longrightarrow> holds_dto mem' q d)"
  using assms(2)
proof (induction snaps arbitrary: mem sts)
  case (Cons snap snaps)
  then obtain st sts' mem1 where st: "buildTelemetryStore cd snap mem = Some (st, mem1)"
    and rest: "buildTelemetryPayload cd snaps mem1 = Some (sts', mem')" and sts: "sts = st # sts'"
    by (auto simp: bind_eq_Some_conv)
  from buildTelemetryStore_Some[OF st] obtain arr
    where b: "build_sensors cd (ts_sensors snap) mem = Some (arr, mem1)"
      and f: "store_sensors st = Some arr" "dev_sensors_size st = length (ts_sensors snap)"
        "store_name st = ts_name snap" "store_vendor st = ts_vendor snap"
        "store_hardware_type st = ts_hardware_type snap" .
  from Cons.IH[OF rest] have IH: "list_all2 (stores_snapshot cd mem') snaps sts'"
    and later: "\<And>q d. holds_dto mem1 q d \<Longrightarrow> holds_dto mem' q d" by blast+
  have "stores_snapshot cd mem' snap st"
    using store_carries[OF assms(1) b later] build_carries(2)[OF assms(1) b] f
    by (simp add: stores_snapshot_def)
  with IH sts build_sensors_holds[OF assms(1) b] later show ?case by auto
qed simp

lemma free_all_commute: "free_all sts (delete_ext es mem) = delete_ext es (free_all sts mem)"
proof (induction sts arbitrary: mem)
  case (Cons st sts)
  have "delete_ext xs (delete_ext es mem) = delete_ext es (delete_ext xs mem)" for xs
    by (induction xs mem rule: delete_ext.induct) (simp_all add: delete_ext_commute[symmetric])
  with Cons show ?case by (simp add: freeTelemetryStore_def split: option.split)
qed simp

lemma payload_free:
  assumes "fresh_memory cd" and "buildTelemetryPayload cd snaps mem = Some (sts, mem')"
  shows "free_all sts mem' = mem"
  using assms(2)
proof (induction snaps arbitrary: mem sts)
  case (Cons snap snaps)
  then obtain st sts' mem1 where st: "buildTelemetryStore cd snap mem = Some (st, mem1)"
    and rest: "buildTelemetryPayload cd snaps mem1 = Some (sts', mem')" and sts: "sts = st # sts'"
    by (auto simp: bind_eq_Some_conv)
  from buildTelemetryStore_Some[OF st] obtain arr
    where b: "build_sensors cd (ts_sensors snap) mem = Some (arr, mem1)" and f: "store_sensors st = Some arr" .
  from sts f have "free_all sts mem' = free_all sts' (delete_ext arr mem')"
    by (simp add: freeTelemetryStore_def)
  also have "\<dots> = delete_ext arr (free_all sts' mem')" by (rule free_all_commute)
  finally show ?case using Cons.IH[OF rest] build_sensors_free[OF assms(1) b] by simp
qed simp

definition generous :: "codec \<Rightarrow> bool" where
  "generous cd \<longleftrightarrow> (\<forall>mem. finite (dom mem) \<longrightarrow> ua_new cd mem \<noteq> None) \<and> (\<forall>n. ua_array_new cd n)"

lemma payload_total:
  assumes "generous cd" and "finite (dom mem)"
  shows "\<exists>sts mem'. buildTelemetryPayload cd snaps mem = Some (sts, mem')"
  using assms(2)
proof (induction snaps arbitrary: mem)
  case (Cons snap snaps)
  obtain arr mem1 where b: "build_sensors cd (ts_sensors snap) mem = Some (arr, mem1)" "finite (dom mem1)"
    using build_sensors_total[of cd mem] assms(1) Cons.prems unfolding generous_def by blast
  with assms(1) have "\<exists>st. buildTelemetryStore cd snap mem = Some (st, mem1)"
    by (simp add: buildTelemetryStore_def generous_def)
  moreover obtain sts mem' where "buildTelemetryPayload cd snaps mem1 = Some (sts, mem')" using Cons.IH b(2) by blast
  ultimately show ?case by auto
qed simp

section \<open>What is written\<close>

text \<open>The environment that notes every write that succeeds, and one whose calls do not throw.\<close>

definition recording :: "'w ua_env \<Rightarrow> ('w \<times> (node_id \<times> ua_value) list) ua_env" where
  "recording E =
     \<lparr>ua_browse = (\<lambda>p ns nm (w, l). case ua_browse E p ns nm w of (r, w) \<Rightarrow> (r, (w, l))),
      ua_add = (\<lambda>c p n nm (w, l). case ua_add E c p n nm w of (r, w) \<Rightarrow> (r, (w, l))),
      ua_write = (\<lambda>n v (w, l). case ua_write E n v w of
                                 (Some u, w) \<Rightarrow> (Some u, (w, l @ [(n, v)]))
                               | (None, w) \<Rightarrow> (None, (w, l)))\<rparr>"

definition obliging :: "'w ua_env \<Rightarrow> bool" where
  "obliging E \<longleftrightarrow> (\<forall>p ns nm w. fst (ua_browse E p ns nm w) \<noteq> BadStatus) \<and>
     (\<forall>c p n nm w. fst (ua_add E c p n nm w) \<noteq> None) \<and> (\<forall>n v w. fst (ua_write E n v w) \<noteq> None)"

definition writes :: "SnapshotNodeIds \<Rightarrow> TelemetryStore \<Rightarrow> (node_id \<times> ua_value) list" where
  "writes ids st =
     [(id_name ids, StringValue (store_name st)), (id_vendor ids, StringValue (store_vendor st)),
      (id_hardware_type ids, StringValue (store_hardware_type st)),
      (id_sensors ids, SensorsValue (store_sensors st) (dev_sensors_size st))]"

definition runs :: "('w \<times> 'l \<Rightarrow> 'a option \<times> ('w \<times> 'l)) \<Rightarrow> 'w \<Rightarrow> 'l \<Rightarrow> 'l \<Rightarrow> bool" where
  "runs m w l l' \<longleftrightarrow> (\<exists>x w'. m (w, l) = (Some x, (w', l')))"

lemma runs_bind:
  "runs m w l l1 \<Longrightarrow> (\<And>x w. runs (f x) w l1 l') \<Longrightarrow> runs (ua_bind m f) w l l'"
  by (fastforce simp: runs_def ua_bind_def)

lemma runs_return: "runs (ua_return x) w l l"
  by (simp add: runs_def ua_return_def)

lemma obliging_runs:
  assumes "obliging E"
  shows "runs (tryBrowseChild (recording E) p ns nm) w l l"
    and "runs (ua_add (recording E) c p n nm) w l l"
    and "runs (ua_write (recording E) n v) w l (l @ [(n, v)])"
proof -
  obtain r w' where "ua_browse E p ns nm w = (r, w')" by fastforce
  moreover have "r \<noteq> BadStatus" using assms calculation unfolding obliging_def by (metis fst_conv)
  ultimately show "runs (tryBrowseChild (recording E) p ns nm) w l l"
    by (cases r) (simp_all add: runs_def tryBrowseChild_def recording_def)
  obtain r w' where "ua_add E c p n nm w = (r, w')" by fastforce
  moreover have "r \<noteq> None" using assms calculation unfolding obliging_def by (metis fst_conv)
  ultimately show "runs (ua_add (recording E) c p n nm) w l l"
    by (auto simp: runs_def recording_def)
  obtain r w' where "ua_write E n v w = (r, w')" by fastforce
  moreover have "r \<noteq> None" using assms calculation unfolding obliging_def by (metis fst_conv)
  ultimately show "runs (ua_write (recording E) n v) w l (l @ [(n, v)])"
    by (auto simp: runs_def recording_def)
qed

lemma runs_write: "obliging E \<Longrightarrow> l' = l @ [(n, v)] \<Longrightarrow> runs (ua_write (recording E) n v) w l l'"
  by (simp add: obliging_runs(3))

lemma ensureVar_runs: "obliging E \<Longrightarrow> runs (ensureVar (recording E) c p d k f ns) w l l"
  unfolding ensureVar_def
  by (intro runs_bind[OF obliging_runs(1)]) (auto split: option.split intro: runs_return obliging_runs)

lemma ensureSnapshotNode_runs: "obliging E \<Longrightarrow> runs (ensureSnapshotNode (recording E) p d k ns) w l l"
  unfolding ensureSnapshotNode_def ensureStringVar_def
  by (intro runs_bind[OF obliging_runs(1)] runs_bind[of _ _ l l] ensureVar_runs runs_return)
     (auto split: option.split intro: runs_return obliging_runs)

lemma writeSnapshot_runs: "obliging E \<Longrightarrow> runs (writeSnapshot (recording E) ids st) w l (l @ writes ids st)"
  unfolding writeSnapshot_def writes_def
  by (rule runs_bind[OF obliging_runs(3)], assumption)+ (rule runs_write, assumption, simp)

text \<open>The writes of a payload, to the nodes that are known afterwards.\<close>

definition all_writes ::
  "(string \<rightharpoonup> SnapshotNodeIds) \<Rightarrow> (TelemetrySnapshot \<times> TelemetryStore) list \<Rightarrow> (node_id \<times> ua_value) list" where
  "all_writes ns xs = concat (map (\<lambda>(snap, st). writes (the (ns (ts_name snap))) st) xs)"

lemma nodes_for_runs:
  assumes "obliging E" and "world s = (w, l)"
  obtains ids s' w' where "nodes_for (recording E) folder k s = (Some ids, s')" "world s' = (w', l)"
    "heap s' = heap s" "client_name s' = client_name s" "client_folder s' = client_folder s"
    "device_nodes s' k = Some ids" "device_nodes s \<subseteq>\<^sub>m device_nodes s'"
    "dom (device_nodes s') = insert k (dom (device_nodes s))"
proof (cases "device_nodes s k")
  case None
  obtain ids w' where "ensureSnapshotNode (recording E) folder (client_name s) k kTelemetryNamespaceIndex (w, l) =
      (Some ids, (w', l))"
    using ensureSnapshotNode_runs[OF assms(1)] unfolding runs_def by blast
  with None assms(2) show ?thesis
    by (intro that[of ids "s\<lparr>world := (w', l), device_nodes := (device_nodes s)(k \<mapsto> ids)\<rparr>" w'])
       (auto simp: nodes_for_def on_world_def map_le_def)
next
  case (Some ids)
  with assms(2) show ?thesis
    by (intro that[of ids s w]) (auto simp: nodes_for_def)
qed

lemma writeSnapshot_on_world:
  assumes "obliging E" and "world s = (w, l)"
  obtains w' where "on_world (writeSnapshot (recording E) ids st) s = (Some (), s\<lparr>world := (w', l @ writes ids st)\<rparr>)"
proof -
  obtain u :: unit and w' where "writeSnapshot (recording E) ids st (w, l) = (Some u, (w', l @ writes ids st))"
    using writeSnapshot_runs[OF assms(1)] unfolding runs_def by blast
  with assms(2) show ?thesis by (intro that[of w']) (simp add: on_world_def)
qed

lemma send_all_writes:
  assumes "obliging E" and "world s = (w, l)"
  shows "\<exists>s' w'. send_all (recording E) folder xs s = (Some (), s') \<and>
    world s' = (w', l @ all_writes (device_nodes s') xs) \<and> heap s' = heap s \<and>
    device_nodes s \<subseteq>\<^sub>m device_nodes s' \<and>
    dom (device_nodes s') = dom (device_nodes s) \<union> (\<lambda>(snap, _). ts_name snap) ` set xs"
  using assms(2)
proof (induction xs arbitrary: s w l)
  case Nil
  then show ?case by (simp add: all_writes_def)
next
  case (Cons x xs)
  obtain snap st where x: "x = (snap, st)" by fastforce
  from nodes_for_runs[OF assms(1) Cons.prems] obtain ids s1 w1
    where n: "nodes_for (recording E) folder (ts_name snap) s = (Some ids, s1)" "world s1 = (w1, l)"
      and s1: "heap s1 = heap s" "device_nodes s1 (ts_name snap) = Some ids" "device_nodes s \<subseteq>\<^sub>m device_nodes s1"
        "dom (device_nodes s1) = insert (ts_name snap) (dom (device_nodes s))" .
  from writeSnapshot_on_world[OF assms(1) n(2)] obtain w2
    where wr: "on_world (writeSnapshot (recording E) ids st) s1 = (Some (), s1\<lparr>world := (w2, l @ writes ids st)\<rparr>)" .
  from Cons.IH[of "s1\<lparr>world := (w2, l @ writes ids st)\<rparr>"] obtain s' w'
    where IH: "send_all (recording E) folder xs (s1\<lparr>world := (w2, l @ writes ids st)\<rparr>) = (Some (), s')"
      "world s' = (w', (l @ writes ids st) @ all_writes (device_nodes s') xs)" "heap s' = heap s1"
      "device_nodes s1 \<subseteq>\<^sub>m device_nodes s'"
      "dom (device_nodes s') = dom (device_nodes s1) \<union> (\<lambda>(snap, _). ts_name snap) ` set xs"
    by auto
  from IH(4) s1(2) have "device_nodes s' (ts_name snap) = Some ids"
    by (metis domI map_le_def)
  then have "all_writes (device_nodes s') (x # xs) = writes ids st @ all_writes (device_nodes s') xs"
    by (simp add: all_writes_def x)
  with IH s1 x n(1) wr show ?case by (auto intro: map_le_trans)
qed

lemma zip_image: "length xs = length ys \<Longrightarrow> (\<lambda>(x, _). f x) ` set (zip xs ys) = f ` set xs"
  by (induction rule: list_induct2) auto

lemma sent_all:
  assumes "obliging E" and "generous cd" and "fresh_memory cd"
    and "client_folder s = Some folder" and "world s = (w, l)" and "queue q \<noteq> []" and "finite (dom (heap s))"
  shows "\<exists>s' w' stores mem.
    sendTelemetryPayload (recording E) cd q s = (Sent True, q\<lparr>queue := []\<rparr>, s') \<and>
    world s' = (w', l @ all_writes (device_nodes s') (zip (queue q) stores)) \<and>
    buildTelemetryPayload cd (queue q) (heap s) = Some (stores, mem) \<and>
    list_all2 (stores_snapshot cd mem) (queue q) stores \<and>
    device_nodes s \<subseteq>\<^sub>m device_nodes s' \<and> ts_name ` set (queue q) \<subseteq> dom (device_nodes s') \<and>
    heap s' = heap s"
proof -
  obtain stores mem where b: "buildTelemetryPayload cd (queue q) (heap s) = Some (stores, mem)"
    using payload_total[OF assms(2,7)] by blast
  have st: "list_all2 (stores_snapshot cd mem) (queue q) stores"
    using payload_stores[OF assms(3) b] by blast
  have "world (s\<lparr>heap := mem\<rparr>) = (w, l)" using assms(5) by simp
  from send_all_writes[OF assms(1) this, of folder "zip (queue q) stores"] obtain s' w'
    where s': "send_all (recording E) folder (zip (queue q) stores) (s\<lparr>heap := mem\<rparr>) = (Some (), s')"
      "world s' = (w', l @ all_writes (device_nodes s') (zip (queue q) stores))" "heap s' = mem"
      "device_nodes s \<subseteq>\<^sub>m device_nodes s'"
      "dom (device_nodes s') = dom (device_nodes s) \<union> (\<lambda>(snap, _). ts_name snap) ` set (zip (queue q) stores)"
    by auto
  have "ts_name ` set (queue q) \<subseteq> dom (device_nodes s')"
    unfolding s'(5) zip_image[OF list_all2_lengthD[OF st], of ts_name] by blast
  moreover have "sendTelemetryPayload (recording E) cd q s = (Sent True, q\<lparr>queue := []\<rparr>, s'\<lparr>heap := heap s\<rparr>)"
    using s'(1,3) b assms(4,6) payload_free[OF assms(3) b]
    by (simp add: sendTelemetryPayload_def drain_section_eq ready_def)
  ultimately show ?thesis
    using s'(2,4) st b
    by (intro exI[of _ "s'\<lparr>heap := heap s\<rparr>"] exI[of _ w'] exI[of _ stores] exI[of _ mem]) simp
qed

text \<open>
  C17: When the stack does not throw and memory does not run out, \<open>sendTelemetryPayload\<close> takes everything from
  the queue and writes, for each snapshot in order, its name, vendor, hardware type and sensors to the
  nodes of its device; the sensors in memory decode to those of the snapshot. Nodes found before are
  kept, and all the memory is given back.
\<close>

theorem telemetry_sent:
  assumes "obliging E" and "generous cd" and "fresh_memory cd"
    and "client_folder s = Some folder" and "world s = (w, l)" and "queue q \<noteq> []" and "finite (dom (heap s))"
  shows "\<exists>s' w' stores mem.
    sendTelemetryPayload (recording E) cd q s = (Sent True, q\<lparr>queue := []\<rparr>, s') \<and>
    world s' = (w', l @ all_writes (device_nodes s') (zip (queue q) stores)) \<and>
    buildTelemetryPayload cd (queue q) (heap s) = Some (stores, mem) \<and>
    list_all2 (stores_snapshot cd mem) (queue q) stores \<and>
    device_nodes s \<subseteq>\<^sub>m device_nodes s' \<and> ts_name ` set (queue q) \<subseteq> dom (device_nodes s') \<and>
    heap s' = heap s"
  by (rule sent_all[OF assms])

text \<open>An allocator that never runs out, a stack that never throws, and a client with one snapshot queued.\<close>

definition heap_codec :: codec where
  "heap_codec =
     \<lparr>ua_new = (\<lambda>mem. if finite (dom mem) then Some (Suc (Max (insert 0 (dom mem)))) else None),
      ua_array_new = (\<lambda>_. True), decodeBinary = (\<lambda>_. None)\<rparr>"

lemma heap_codec_fresh: "fresh_memory heap_codec"
proof -
  have "mem a = None" if "finite (dom mem)" and "Suc (Max (insert 0 (dom mem))) \<le> a" for mem :: memory and a
  proof (rule ccontr)
    assume "mem a \<noteq> None"
    then have "a \<in> insert 0 (dom mem)" by (simp add: domIff)
    with that(1) have "a \<le> Max (insert 0 (dom mem))" by (intro Max_ge) simp_all
    with that(2) show False by simp
  qed
  then show ?thesis by (auto simp: fresh_memory_def heap_codec_def unused_def split: if_splits)
qed

lemma heap_codec_generous: "generous heap_codec"
  by (simp add: generous_def heap_codec_def)

definition plain_env :: "unit ua_env" where
  "plain_env = \<lparr>ua_browse = (\<lambda>_ _ _ w. (NoMatch, w)), ua_add = (\<lambda>_ _ n _ w. (Some n, w)),
                ua_write = (\<lambda>_ _ w. (Some (), w))\<rparr>"

definition sample_client :: "'w \<Rightarrow> 'w info_client" where
  "sample_client w = \<lparr>world = w, heap = Map.empty, client_name = ''pc'',
     client_folder = Some (string_node_id 1 ''pc''), device_nodes = Map.empty\<rparr>"

definition sample_queue :: "TelemetrySnapshot client_queue" where
  "sample_queue = \<lparr>queue = [sample_snapshot], shutting_down = False\<rparr>"

lemma telemetry_sent_witness:
  "\<exists>s'. sendTelemetryPayload (recording plain_env) heap_codec sample_queue (sample_client ((), [])) =
     (Sent True, sample_queue\<lparr>queue := []\<rparr>, s')"
proof -
  have "obliging plain_env" by (simp add: obliging_def plain_env_def)
  from telemetry_sent[OF this heap_codec_generous heap_codec_fresh,
      of "sample_client ((), [])" "string_node_id 1 ''pc''" "()" "[]" sample_queue]
  show ?thesis by (auto simp: sample_client_def sample_queue_def)
qed

section \<open>Nodes that are known\<close>

lemma nodes_for_known: "k \<in> dom (device_nodes s) \<Longrightarrow> nodes_for E folder k s = (device_nodes s k, s)"
  by (auto simp: nodes_for_def)

lemma send_all_known:
  "(\<lambda>(snap, _). ts_name snap) ` set xs \<subseteq> dom (device_nodes s) \<Longrightarrow>
   send_all (E\<lparr>ua_browse := b, ua_add := a\<rparr>) folder xs s = send_all E folder xs s"
proof (induction xs arbitrary: s)
  case (Cons x xs)
  obtain snap st where x: "x = (snap, st)" by fastforce
  have w: "writeSnapshot (E\<lparr>ua_browse := b, ua_add := a\<rparr>) ids st = writeSnapshot E ids st" for ids
    by (simp add: writeSnapshot_def)
  obtain ids where ids: "device_nodes s (ts_name snap) = Some ids" using Cons.prems x by auto
  have "device_nodes (snd (on_world (writeSnapshot E ids st) s)) = device_nodes s"
    by (simp add: on_world_def split: prod.split)
  with Cons ids show ?case
    by (auto simp: x w nodes_for_known[OF domI] split: prod.split option.split)
qed simp

text \<open>
  The server is asked for the nodes of a device only once: when all devices of a payload are known, what is
  sent does not depend on browsing or on the creation of nodes.
\<close>

theorem nodes_looked_up_once:
  assumes "ts_name ` set (queue q) \<subseteq> dom (device_nodes s)"
  shows "sendTelemetryPayload (E\<lparr>ua_browse := b, ua_add := a\<rparr>) cd q s = sendTelemetryPayload E cd q s"
proof -
  have "(\<lambda>(snap, _). ts_name snap) ` set (zip (queue q) sts) \<subseteq> dom (device_nodes s)" for sts :: "TelemetryStore list"
    using assms by (auto dest: set_zip_leftD)
  then show ?thesis
    by (simp add: sendTelemetryPayload_def drain_section_eq send_all_known split: option.split)
qed

lemma nodes_looked_up_once_witness:
  "sendTelemetryPayload (plain_env\<lparr>ua_browse := \<lambda>_ _ _ w. (BadStatus, w), ua_add := \<lambda>_ _ _ _ w. (None, w)\<rparr>)
     heap_codec sample_queue
     ((sample_client ())\<lparr>device_nodes := [''CPU'' \<mapsto> \<lparr>id_object = null_node_id, id_name = null_node_id,
        id_vendor = null_node_id, id_hardware_type = null_node_id, id_sensors = null_node_id\<rparr>]\<rparr>) =
   sendTelemetryPayload plain_env heap_codec sample_queue
     ((sample_client ())\<lparr>device_nodes := [''CPU'' \<mapsto> \<lparr>id_object = null_node_id, id_name = null_node_id,
        id_vendor = null_node_id, id_hardware_type = null_node_id, id_sensors = null_node_id\<rparr>]\<rparr>)"
  by (rule nodes_looked_up_once) (simp add: sample_queue_def sample_snapshot_def)

section \<open>What is lost when a call throws\<close>

lemma send_all_heap: "send_all E folder xs s = (r, s') \<Longrightarrow> heap s' = heap s"
proof (induction xs arbitrary: s)
  case (Cons x xs)
  have h: "heap (snd (nodes_for E folder k s)) = heap s" "heap (snd (on_world m s)) = heap s"
    for k s and m :: "('a, 'b) ua"
    by (auto simp: nodes_for_def on_world_def split: option.split prod.split)
  obtain snap st where "x = (snap, st)" by fastforce
  with Cons h show ?case
    by (fastforce split: prod.splits option.splits simp: on_world_def nodes_for_def)
qed simp

text \<open>
  C32: When a call of the stack throws, the snapshots drained are gone from the queue, and the structures built
  for them stay allocated: the heap is the one behind the payload.
\<close>

theorem telemetry_lost_when_thrown:
  assumes "sendTelemetryPayload E cd q s = (Threw, q', s')"
  shows "queue q' = [] \<and> (\<exists>stores. buildTelemetryPayload cd (queue q) (heap s) = Some (stores, heap s'))"
proof -
  from assms obtain folder stores mem where
    "buildTelemetryPayload cd (queue q) (heap s) = Some (stores, mem)" "q' = q\<lparr>queue := []\<rparr>"
    "send_all E folder (zip (queue q) stores) (s\<lparr>heap := mem\<rparr>) = (None, s')"
    by (auto simp: sendTelemetryPayload_def drain_section_eq split: option.splits if_splits prod.splits)
  with send_all_heap[of E folder _ "s\<lparr>heap := mem\<rparr>" None s'] show ?thesis by auto
qed

definition throwing_env :: "unit ua_env" where
  "throwing_env = plain_env\<lparr>ua_write := \<lambda>_ _ w. (None, w)\<rparr>"

lemma telemetry_lost_when_thrown_witness:
  "\<exists>q' s'. sendTelemetryPayload throwing_env pool_codec sample_queue (sample_client ()) = (Threw, q', s') \<and>
     queue q' = [] \<and> heap s' = store_dto 4096 sample_dto Map.empty"
proof -
  have "\<exists>q' s'. sendTelemetryPayload throwing_env pool_codec sample_queue (sample_client ()) = (Threw, q', s')"
    by (simp add: sendTelemetryPayload_def sample_client_def sample_queue_def drain_section_eq ready_def sample_build
        throwing_env_def plain_env_def nodes_for_def ensureSnapshotNode_def ensureStringVar_def ensureVar_def
        tryBrowseChild_def ua_simps writeSnapshot_def)
  then obtain q' s' where t: "sendTelemetryPayload throwing_env pool_codec sample_queue (sample_client ()) = (Threw, q', s')"
    by blast
  from telemetry_lost_when_thrown[OF t] t show ?thesis
    by (auto simp: sample_queue_def sample_client_def sample_build)
qed

end
