(* ===== verification/Client_Admission.thy ===== *)
theory Client_Admission
  imports Telemetry_Properties
begin

text \<open>
  Client and access control together: everything the telemetry client asks for is admitted, so a client
  with a trusted certificate whose device has the name it uses sets up all its nodes and sends its snapshots.
\<close>

section \<open>A server that asks the access control\<close>

text \<open>
  The plugin interface of the stack. Browsing asks \<open>allowBrowseNode\<close> for the node browsed. The creation of a node asks
  \<open>allowAddNode\<close>, then \<open>allowAddReference\<close> for the two references of the new node: to its type, and to its parent. Writing a
  value asks \<open>getUserAccessLevel\<close>. What is refused is thrown by the client. The types of the nodes and of the reference
  to the parent are those the stack uses for a class of nodes.
\<close>

record node_types =
  node_type :: "node_class \<Rightarrow> node_id"
  parent_link :: "node_class \<Rightarrow> node_id"

definition may_link :: "node_types \<Rightarrow> node_id \<Rightarrow> node_class \<Rightarrow> node_id \<Rightarrow> node_id \<Rightarrow> access_control \<Rightarrow> bool" where
  "may_link T sid c p n ac \<longleftrightarrow>
     allowAddReference sid \<lparr>sourceNodeId = n, targetNodeId = node_type T c, referenceTypeId = HasTypeDefinition\<rparr> ac \<and>
     allowAddReference sid \<lparr>sourceNodeId = n, targetNodeId = p, referenceTypeId = parent_link T c\<rparr> ac"

definition guarded :: "node_types \<Rightarrow> node_id \<Rightarrow> 'w ua_env \<Rightarrow> ('w \<times> access_control) ua_env" where
  "guarded T sid E =
     \<lparr>ua_browse = (\<lambda>p ns nm (w, ac).
        if allowBrowseNode sid p ac then (case ua_browse E p ns nm w of (r, w) \<Rightarrow> (r, (w, ac)))
        else (BadStatus, (w, ac))),
      ua_add = (\<lambda>c p n nm (w, ac).
        case allowAddNode sid \<lparr>parentNodeId = p, requestedNewNodeId = n\<rparr> ac of
          (False, ac) \<Rightarrow> (None, (w, ac))
        | (True, ac) \<Rightarrow>
            if may_link T sid c p n ac then (case ua_add E c p n nm w of (r, w) \<Rightarrow> (r, (w, ac)))
            else (None, (w, ac))),
      ua_write = (\<lambda>n v (w, ac).
        case getUserAccessLevel sid n ac of
          (level, ac) \<Rightarrow>
            if CurrentWrite \<in> level then (case ua_write E n v w of (r, w) \<Rightarrow> (r, (w, ac)))
            else (None, (w, ac)))\<rparr>"

text \<open>The types are nodes of the standard, and the reference to the parent is not the one to the type.\<close>

definition standard_types :: "node_types \<Rightarrow> bool" where
  "standard_types T \<longleftrightarrow> (\<forall>c. namespace_index (node_type T c) = 0 \<and> parent_link T c \<noteq> HasTypeDefinition)"

text \<open>
  What the client relies on in the server behind the access control: it does not fail by itself, the folder \<open>TelemetryClients\<close>
  is there, browsing finds below the nodes of the device (and under its name below \<open>TelemetryClients\<close>) only nodes of
  the device, and a node is created under the identifier that is asked for.
\<close>

definition reliable :: "node_id \<Rightarrow> string \<Rightarrow> 'w ua_env \<Rightarrow> bool" where
  "reliable f d E \<longleftrightarrow>
     (\<forall>p ns nm w. fst (ua_browse E p ns nm w) \<noteq> BadStatus) \<and>
     (\<forall>w. fst (ua_browse E ObjectsFolder kTelemetryNamespaceIndex kTelemetryClientsFolderName w) = Found f) \<and>
     (\<forall>p ns nm w n. nodeIdBelongsToDevice p d \<or> p = f \<and> nm = d \<longrightarrow>
        fst (ua_browse E p ns nm w) = Found n \<longrightarrow> nodeIdBelongsToDevice n d) \<and>
     (\<forall>c p n nm w. fst (ua_add E c p n nm w) = Some n) \<and> (\<forall>n v w. fst (ua_write E n v w) \<noteq> None)"

definition logged_in :: "node_id \<Rightarrow> node_id \<Rightarrow> string \<Rightarrow> access_control \<Rightarrow> bool" where
  "logged_in sid f d ac \<longleftrightarrow> telemetry_clients_folder ac = f \<and>
     (\<exists>a. session_attributes ac sid = Some a \<and> full_access a \<and> can_browse a \<and> device_name a = d)"

lemma logged_in_activated:
  assumes "activateSession P sid ch tok ac0 = Some (GOOD, ac)"
  shows "\<exists>d. logged_in sid (telemetry_clients_folder ac0) d ac"
  using assms
  by (cases rule: activateSession_cases) (auto simp: logged_in_def trusted_attributes_def full_access_def)

lemma allowAddNode_admits:
  assumes "logged_in sid f d ac" and "p = f \<or> nodeIdBelongsToDevice p d" and "nodeIdBelongsToDevice n d"
  obtains ac' where "allowAddNode sid \<lparr>parentNodeId = p, requestedNewNodeId = n\<rparr> ac = (True, ac')"
    and "logged_in sid f d ac'"
proof -
  from assms(1) obtain a where a: "session_attributes ac sid = Some a" "full_access a" "can_browse a" "device_name a = d"
    and f: "telemetry_clients_folder ac = f" by (auto simp: logged_in_def)
  show ?thesis
  proof (cases "p = f")
    case True
    with a f assms(3) show ?thesis
      by (intro that[of "set_attributes sid (a\<lparr>device_folder_id := n\<rparr>) ac"])
         (auto simp: allowAddNode_def logged_in_def full_access_def)
  next
    case False
    with a f assms show ?thesis by (intro that[of ac]) (auto simp: allowAddNode_def Let_def)
  qed
qed

lemma may_link_admits:
  assumes "logged_in sid f d ac" and "standard_types T" and "p = f \<or> nodeIdBelongsToDevice p d" and "nodeIdBelongsToDevice n d"
  shows "may_link T sid c p n ac"
  using assms by (auto simp: may_link_def logged_in_def standard_types_def allowAddReference_def Let_def)

lemma level_admits: "logged_in sid f d ac \<Longrightarrow> getUserAccessLevel sid n ac = ({CurrentRead, CurrentWrite}, ac)"
  by (auto simp: logged_in_def getUserAccessLevel_def index_attributes_def full_access_def)

lemma browse_admits: "logged_in sid f d ac \<Longrightarrow> allowBrowseNode sid n ac"
  by (auto simp: logged_in_def allowBrowseNode_def)

text \<open>A computation that succeeds, stays logged in and delivers a result with a property.\<close>

definition admits ::
  "node_id \<Rightarrow> node_id \<Rightarrow> string \<Rightarrow> ('w \<times> access_control, 'a) ua \<Rightarrow> ('a \<Rightarrow> bool) \<Rightarrow> bool" where
  "admits sid f d m Q \<longleftrightarrow>
     (\<forall>w ac. logged_in sid f d ac \<longrightarrow> (\<exists>x w' ac'. m (w, ac) = (Some x, (w', ac')) \<and> logged_in sid f d ac' \<and> Q x))"

lemma admits_bind:
  "admits sid f d m Q \<Longrightarrow> (\<And>x. Q x \<Longrightarrow> admits sid f d (g x) R) \<Longrightarrow> admits sid f d (ua_bind m g) R"
  unfolding admits_def ua_bind_def by (metis (no_types, lifting) case_prod_conv option.simps(5))

lemma admits_return: "Q x \<Longrightarrow> admits sid f d (ua_return x) Q"
  by (simp add: admits_def ua_return_def)

lemma admits_browse:
  assumes "reliable f d E" and "nodeIdBelongsToDevice p d \<or> p = f \<and> nm = d"
  shows "admits sid f d (tryBrowseChild (guarded T sid E) p ns nm) (\<lambda>r. \<forall>n. r = Some n \<longrightarrow> nodeIdBelongsToDevice n d)"
proof -
  have "\<exists>x w'. tryBrowseChild (guarded T sid E) p ns nm (w, ac) = (Some x, (w', ac)) \<and>
      (\<forall>n. x = Some n \<longrightarrow> nodeIdBelongsToDevice n d)" if "logged_in sid f d ac" for w ac
  proof -
    obtain r w' where r: "ua_browse E p ns nm w = (r, w')" by fastforce
    with assms(1) have "r \<noteq> BadStatus" unfolding reliable_def by (metis fst_conv)
    moreover have "nodeIdBelongsToDevice n d" if "r = Found n" for n
      using assms r that unfolding reliable_def by (metis fst_conv)
    ultimately show ?thesis using r browse_admits[OF that] by (cases r) (simp_all add: tryBrowseChild_def guarded_def)
  qed
  then show ?thesis unfolding admits_def by blast
qed

lemma admits_add:
  assumes "reliable f d E" and "standard_types T" and "p = f \<or> nodeIdBelongsToDevice p d" and "nodeIdBelongsToDevice n d"
  shows "admits sid f d (ua_add (guarded T sid E) c p n nm) (\<lambda>r. nodeIdBelongsToDevice r d)"
  unfolding admits_def
proof (intro allI impI)
  fix w ac
  assume "logged_in sid f d ac"
  from allowAddNode_admits[OF this assms(3,4)] obtain ac'
    where ac': "allowAddNode sid \<lparr>parentNodeId = p, requestedNewNodeId = n\<rparr> ac = (True, ac')" "logged_in sid f d ac'" .
  obtain r w' where r: "ua_add E c p n nm w = (r, w')" by fastforce
  with assms(1) have "r = Some n" unfolding reliable_def by (metis fst_conv)
  with ac' r assms(4) may_link_admits[OF ac'(2) assms(2-4)]
  show "\<exists>x w' ac'. ua_add (guarded T sid E) c p n nm (w, ac) = (Some x, (w', ac')) \<and>
      logged_in sid f d ac' \<and> nodeIdBelongsToDevice x d"
    by (simp add: guarded_def)
qed

lemma admits_write:
  assumes "reliable f d E"
  shows "admits sid f d (ua_write (guarded T sid E) n v) (\<lambda>_. True)"
  unfolding admits_def
proof (intro allI impI)
  fix w ac
  assume l: "logged_in sid f d ac"
  obtain r w' where r: "ua_write E n v w = (r, w')" by fastforce
  with assms have "r \<noteq> None" unfolding reliable_def by (metis fst_conv)
  with r l show "\<exists>x w' ac'. ua_write (guarded T sid E) n v (w, ac) = (Some x, (w', ac')) \<and> logged_in sid f d ac' \<and> True"
    by (auto simp: guarded_def level_admits[OF l])
qed

lemma admits_folder:
  assumes "reliable f d E" and "standard_types T"
  shows "admits sid f d (ensureClientFolder (guarded T sid E) f d ns) (\<lambda>r. nodeIdBelongsToDevice r d)"
  unfolding ensureClientFolder_def
  by (rule admits_bind[OF admits_browse[OF assms(1)]])
     (auto split: option.split intro: admits_return admits_add[OF assms] simp: belongs_client)

lemma admits_var:
  assumes "reliable f d E" and "standard_types T" and "nodeIdBelongsToDevice p d"
  shows "admits sid f d (ensureVar (guarded T sid E) c p d k fld ns) (\<lambda>r. nodeIdBelongsToDevice r d)"
  unfolding ensureVar_def
  by (rule admits_bind[OF admits_browse[OF assms(1)]])
     (use assms in \<open>auto split: option.split intro: admits_return admits_add[OF assms(1,2)] simp: belongs_field\<close>)

definition ids_belong :: "SnapshotNodeIds \<Rightarrow> string \<Rightarrow> bool" where
  "ids_belong ids d \<longleftrightarrow>
     list_all (\<lambda>n. nodeIdBelongsToDevice n d) [id_object ids, id_name ids, id_vendor ids, id_hardware_type ids, id_sensors ids]"

lemma admits_snapshot:
  assumes "reliable f d E" and "standard_types T" and "nodeIdBelongsToDevice folder d" and "k \<noteq> []"
  shows "admits sid f d (ensureSnapshotNode (guarded T sid E) folder d k ns) (\<lambda>ids. ids_belong ids d)"
  unfolding ensureSnapshotNode_def ensureStringVar_def
proof (rule admits_bind[OF admits_browse[OF assms(1)]])
  show "nodeIdBelongsToDevice folder d \<or> folder = f \<and> k = d" using assms(3) by simp
next
  fix found
  assume found: "\<forall>n. found = Some n \<longrightarrow> nodeIdBelongsToDevice n d"
  have "admits sid f d (case found of
         Some n \<Rightarrow> ua_return n
       | None \<Rightarrow> ua_add (guarded T sid E) ObjectNode folder (string_node_id ns (snapshotObjectId d k)) k)
       (\<lambda>r. nodeIdBelongsToDevice r d)"
    using found assms
    by (auto split: option.split intro: admits_return admits_add[OF assms(1,2)] simp: belongs_object)
  then show "admits sid f d
     (ua_bind (case found of
         Some n \<Rightarrow> ua_return n
       | None \<Rightarrow> ua_add (guarded T sid E) ObjectNode folder (string_node_id ns (snapshotObjectId d k)) k) (\<lambda>obj.
      ua_bind (ensureVar (guarded T sid E) StringVariable obj d k ''name'' ns) (\<lambda>n.
      ua_bind (ensureVar (guarded T sid E) StringVariable obj d k ''vendor'' ns) (\<lambda>v.
      ua_bind (ensureVar (guarded T sid E) StringVariable obj d k ''hardware_type'' ns) (\<lambda>h.
      ua_bind (ensureVar (guarded T sid E) SensorVariable obj d k ''sensors'' ns) (\<lambda>s.
      ua_return \<lparr>id_object = obj, id_name = n, id_vendor = v, id_hardware_type = h, id_sensors = s\<rparr>))))))
     (\<lambda>ids. ids_belong ids d)"
    by (rule admits_bind) ((rule admits_bind[OF admits_var[OF assms(1,2)]], assumption)+,
        rule admits_return, simp add: ids_belong_def)
qed

lemma admits_writes:
  assumes "reliable f d E"
  shows "admits sid f d (writeSnapshot (guarded T sid E) ids st) (\<lambda>_. True)"
  unfolding writeSnapshot_def by (rule admits_bind[OF admits_write[OF assms]])+ (rule admits_write[OF assms])

section \<open>The client on that server\<close>

text \<open>A client that is logged in and knows only nodes of its own.\<close>

definition at_home :: "node_id \<Rightarrow> node_id \<Rightarrow> string \<Rightarrow> ('w \<times> access_control) info_client \<Rightarrow> bool" where
  "at_home sid f d s \<longleftrightarrow> client_name s = d \<and> logged_in sid f d (snd (info_client.world s)) \<and>
     (\<forall>k ids. device_nodes s k = Some ids \<longrightarrow> ids_belong ids d)"

lemma on_world_admits:
  assumes "admits sid f d m Q" and "at_home sid f d s"
  obtains x w where "on_world m s = (Some x, s\<lparr>info_client.world := w\<rparr>)" "at_home sid f d (s\<lparr>info_client.world := w\<rparr>)" "Q x"
proof -
  obtain w ac where w: "info_client.world s = (w, ac)" by fastforce
  with assms(2) have "logged_in sid f d ac" by (simp add: at_home_def)
  with assms(1) obtain x w' ac' where "m (w, ac) = (Some x, (w', ac'))" "logged_in sid f d ac'" "Q x"
    unfolding admits_def by blast
  with assms(2) w show ?thesis by (intro that[of x "(w', ac')"]) (simp_all add: on_world_def at_home_def)
qed

lemma nodes_for_admits:
  assumes "reliable f d E" and "standard_types T" and "nodeIdBelongsToDevice folder d" and "k \<noteq> []" and "at_home sid f d s"
  obtains ids s' where "nodes_for (guarded T sid E) folder k s = (Some ids, s')" "at_home sid f d s'" "ids_belong ids d"
    "device_nodes s' k = Some ids" "device_nodes s \<subseteq>\<^sub>m device_nodes s'"
proof (cases "device_nodes s k")
  case None
  have d: "client_name s = d" using assms(5) by (simp add: at_home_def)
  from on_world_admits[OF admits_snapshot[OF assms(1-4)] assms(5)] obtain ids w
    where w: "on_world (ensureSnapshotNode (guarded T sid E) folder d k kTelemetryNamespaceIndex) s =
        (Some ids, s\<lparr>info_client.world := w\<rparr>)" "at_home sid f d (s\<lparr>info_client.world := w\<rparr>)" "ids_belong ids d" .
  with None d show ?thesis
    by (intro that[of ids "s\<lparr>info_client.world := w, device_nodes := (device_nodes s)(k \<mapsto> ids)\<rparr>"])
       (auto simp: nodes_for_def at_home_def map_le_def)
next
  case (Some ids)
  with assms(5) show ?thesis by (intro that[of ids s]) (auto simp: nodes_for_def at_home_def)
qed

lemma send_all_admits:
  assumes "reliable f d E" and "standard_types T" and "nodeIdBelongsToDevice folder d"
  shows "\<forall>(snap, st) \<in> set xs. ts_name snap \<noteq> [] \<Longrightarrow> at_home sid f d s \<Longrightarrow>
    \<exists>s'. send_all (guarded T sid E) folder xs s = (Some (), s') \<and> at_home sid f d s' \<and>
      device_nodes s \<subseteq>\<^sub>m device_nodes s' \<and> (\<lambda>(snap, st). ts_name snap) ` set xs \<subseteq> dom (device_nodes s')"
proof (induction xs arbitrary: s)
  case (Cons x xs)
  obtain snap st where x: "x = (snap, st)" by fastforce
  with Cons.prems(1) have "ts_name snap \<noteq> []" by simp
  from nodes_for_admits[OF assms this Cons.prems(2)] obtain ids s1 where
    n: "nodes_for (guarded T sid E) folder (ts_name snap) s = (Some ids, s1)" "at_home sid f d s1"
      "device_nodes s1 (ts_name snap) = Some ids" "device_nodes s \<subseteq>\<^sub>m device_nodes s1" by blast
  from on_world_admits[OF admits_writes[OF assms(1)] n(2)] obtain u w where
    w: "on_world (writeSnapshot (guarded T sid E) ids st) s1 = (Some u, s1\<lparr>info_client.world := w\<rparr>)"
      "at_home sid f d (s1\<lparr>info_client.world := w\<rparr>)" by blast
  from Cons.IH[OF _ w(2)] Cons.prems(1) obtain s' where
    r: "send_all (guarded T sid E) folder xs (s1\<lparr>info_client.world := w\<rparr>) = (Some (), s')" "at_home sid f d s'"
      "device_nodes s1 \<subseteq>\<^sub>m device_nodes s'" "(\<lambda>(snap, st). ts_name snap) ` set xs \<subseteq> dom (device_nodes s')" by auto
  have "ts_name snap \<in> dom (device_nodes s')" using n(3) r(3) by (metis domI map_le_def)
  with r n w x map_le_trans[OF n(4) r(3)] show ?case by auto
qed simp

text \<open>Reading the browse name, which is only printed, asks nothing.\<close>

definition reading :: "(node_id \<Rightarrow> ('w, unit) ua) \<Rightarrow> node_id \<Rightarrow> ('w \<times> access_control, unit) ua" where
  "reading rd n = (\<lambda>(w, ac). case rd n w of (r, w) \<Rightarrow> (r, (w, ac)))"

lemma addNodes_admits:
  assumes "reliable f d E" and "standard_types T" and "\<And>n w. fst (rd n w) \<noteq> None" and "at_home sid f d s"
  obtains folder s' where "addNodes (guarded T sid E) (reading rd) s = (Some (), s')" "at_home sid f d s'"
    "client_folder s' = Some folder" "nodeIdBelongsToDevice folder d" "heap s' = heap s"
proof -
  have d: "client_name s = d" using assms(4) by (simp add: at_home_def)
  have "admits sid f d (browseChild (guarded T sid E) ObjectsFolder kTelemetryNamespaceIndex kTelemetryClientsFolderName)
      (\<lambda>n. n = f)"
    unfolding admits_def
  proof (intro allI impI)
    fix w ac
    assume l: "logged_in sid f d ac"
    obtain r w' where r: "ua_browse E ObjectsFolder kTelemetryNamespaceIndex kTelemetryClientsFolderName w = (r, w')" by fastforce
    with assms(1) have "r = Found f" unfolding reliable_def by (metis fst_conv)
    with r l show "\<exists>x w' ac'. browseChild (guarded T sid E) ObjectsFolder kTelemetryNamespaceIndex kTelemetryClientsFolderName
        (w, ac) = (Some x, (w', ac')) \<and> logged_in sid f d ac' \<and> x = f"
      by (simp add: browseChild_def guarded_def browse_admits[OF l])
  qed
  from on_world_admits[OF this assms(4)] obtain w1 where
    1: "on_world (browseChild (guarded T sid E) ObjectsFolder kTelemetryNamespaceIndex kTelemetryClientsFolderName) s =
      (Some f, s\<lparr>info_client.world := w1\<rparr>)" "at_home sid f d (s\<lparr>info_client.world := w1\<rparr>)" by metis
  have "admits sid f d (reading rd f) (\<lambda>_. True)"
    unfolding admits_def
  proof (intro allI impI)
    fix w ac
    assume l: "logged_in sid f d ac"
    obtain r w' where r: "rd f w = (r, w')" by fastforce
    with assms(3)[of f w] l show "\<exists>x w' ac'. reading rd f (w, ac) = (Some x, (w', ac')) \<and> logged_in sid f d ac' \<and> True"
      by (auto simp: reading_def)
  qed
  from on_world_admits[OF this 1(2)] obtain u w2 where
    2: "on_world (reading rd f) (s\<lparr>info_client.world := w1\<rparr>) = (Some u, s\<lparr>info_client.world := w2\<rparr>)"
      "at_home sid f d (s\<lparr>info_client.world := w2\<rparr>)" by auto
  from on_world_admits[OF admits_folder[OF assms(1,2), where ns = kTelemetryNamespaceIndex] 2(2)] obtain folder w3 where
    3: "on_world (ensureClientFolder (guarded T sid E) f d kTelemetryNamespaceIndex) (s\<lparr>info_client.world := w2\<rparr>) =
      (Some folder, s\<lparr>info_client.world := w3\<rparr>)" "at_home sid f d (s\<lparr>info_client.world := w3\<rparr>)"
      "nodeIdBelongsToDevice folder d" by auto
  show ?thesis
    by (rule that[of "s\<lparr>info_client.world := w3, client_folder := Some folder\<rparr>" folder])
       (use 1(1) 2(1) 3 d in \<open>simp_all add: addNodes_def at_home_def\<close>)
qed

text \<open>
  C10: Under an activated session whose device is \<open>d\<close>, a telemetry client that calls itself \<open>d\<close> is never refused, although the
  access control is asked for everything it does, browsing, nodes, both references of each new node and the
  values it writes: \<open>addNodes\<close> delivers its folder, and \<open>sendTelemetryPayload\<close> sends any snapshots of devices whose names are not
  empty. All nodes it then knows have identifiers that belong to \<open>d\<close>.
\<close>

theorem telemetry_client_admitted:
  assumes "activateSession P sid ch tok ac0 = Some (GOOD, ac)"
    and "session_attributes ac sid = Some a" and "d = device_name a"
    and "reliable (telemetry_clients_folder ac0) d E" and "standard_types T" and "\<And>n w. fst (rd n w) \<noteq> None"
    and "client_name s = d" and "info_client.world s = (w, ac)" and "device_nodes s = Map.empty"
    and "queue q \<noteq> []" and "\<forall>snap \<in> set (queue q). ts_name snap \<noteq> []" and "buildTelemetryPayload cd (queue q) (heap s) \<noteq> None"
  shows "\<exists>s1 folder s2. addNodes (guarded T sid E) (reading rd) s = (Some (), s1) \<and>
    client_folder s1 = Some folder \<and> nodeIdBelongsToDevice folder d \<and>
    sendTelemetryPayload (guarded T sid E) cd q s1 = (Sent True, q\<lparr>queue := []\<rparr>, s2) \<and>
    ts_name ` set (queue q) \<subseteq> dom (device_nodes s2) \<and> (\<forall>k ids. device_nodes s2 k = Some ids \<longrightarrow> ids_belong ids d)"
proof -
  let ?f = "telemetry_clients_folder ac0"
  have "at_home sid ?f d s"
    using logged_in_activated[OF assms(1)] assms(2,3,7-9) by (auto simp: logged_in_def at_home_def)
  from addNodes_admits[OF assms(4-6) this] obtain folder s1 where
    1: "addNodes (guarded T sid E) (reading rd) s = (Some (), s1)" "at_home sid ?f d s1" "client_folder s1 = Some folder"
      "nodeIdBelongsToDevice folder d" "heap s1 = heap s" .
  from assms(12) obtain stores mem where b: "buildTelemetryPayload cd (queue q) (heap s) = Some (stores, mem)" by auto
  have len: "length (queue q) = length stores"
    by (rule payload_length[OF b, symmetric])
  have "at_home sid ?f d (s1\<lparr>heap := mem\<rparr>)" using 1(2) by (simp add: at_home_def)
  moreover have "\<forall>(snap, st) \<in> set (zip (queue q) stores). ts_name snap \<noteq> []" using assms(11) by (auto dest: set_zip_leftD)
  ultimately obtain s2 where
    2: "send_all (guarded T sid E) folder (zip (queue q) stores) (s1\<lparr>heap := mem\<rparr>) = (Some (), s2)" "at_home sid ?f d s2"
      "(\<lambda>(snap, st). ts_name snap) ` set (zip (queue q) stores) \<subseteq> dom (device_nodes s2)"
    using send_all_admits[OF assms(4,5) 1(4)] by blast
  have "sendTelemetryPayload (guarded T sid E) cd q s1 = (Sent True, q\<lparr>queue := []\<rparr>, s2\<lparr>heap := free_all stores (heap s2)\<rparr>)"
    using 1(3,5) b 2(1) assms(10) by (simp add: sendTelemetryPayload_def drain_section_eq ready_def)
  with 1 2(2,3) zip_image[OF len, of ts_name] show ?thesis by (auto simp: at_home_def)
qed

definition standard_nodes :: node_types where
  "standard_nodes = \<lparr>node_type = (\<lambda>c. \<lparr>namespace_index = 0, ident = Numeric 58\<rparr>),
     parent_link = (\<lambda>c. \<lparr>namespace_index = 0, ident = Numeric 47\<rparr>)\<rparr>"

text \<open>A server that has nothing but the folder of all clients.\<close>

definition fresh_server :: "unit ua_env" where
  "fresh_server = plain_env\<lparr>ua_browse := (\<lambda>p ns nm w. (if p = ObjectsFolder then Found sample_folder else NoMatch, w))\<rparr>"

lemma telemetry_client_admitted_witness:
  "\<exists>s1 s2. addNodes (guarded standard_nodes null_node_id fresh_server) (reading (\<lambda>_ w. (Some (), w)))
       ((sample_client ((), set_attributes null_node_id (trusted_attributes ''pc'') (new_AccessControl sample_folder)))) =
       (Some (), s1) \<and>
     sendTelemetryPayload (guarded standard_nodes null_node_id fresh_server) heap_codec sample_queue s1 =
       (Sent True, sample_queue\<lparr>queue := []\<rparr>, s2) \<and> ''CPU'' \<in> dom (device_nodes s2)"
proof -
  let ?ac = "set_attributes null_node_id (trusted_attributes ''pc'') (new_AccessControl sample_folder)"
  have a: "activateSession sample_pki null_node_id ''A'' (Some (sample_token ''A'')) (new_AccessControl sample_folder) =
      Some (GOOD, ?ac)"
    by (simp add: activateSession_def findTrustedDevice_def sample_pki_def sample_entry_def sample_token_def)
  have r: "reliable (telemetry_clients_folder (new_AccessControl sample_folder)) ''pc'' fresh_server"
    by (auto simp: reliable_def fresh_server_def plain_env_def nodeIdBelongsToDevice_def ObjectsFolder_def sample_folder_def
        string_node_id_def)
  have t: "standard_types standard_nodes" by (simp add: standard_types_def standard_nodes_def HasTypeDefinition_def)
  have b: "buildTelemetryPayload heap_codec (queue sample_queue) (heap (sample_client ((), ?ac))) \<noteq> None"
    using payload_total[OF heap_codec_generous, of Map.empty "queue sample_queue"] by (auto simp: sample_client_def)
  show ?thesis
    using telemetry_client_admitted[OF a, where a = "trusted_attributes ''pc''" and T = standard_nodes and E = fresh_server
        and s = "sample_client ((), ?ac)" and q = sample_queue and cd = heap_codec and rd = "\<lambda>_ w. (Some (), w)" and w = "()"] r t b
    by (auto simp: trusted_attributes_def sample_client_def sample_queue_def sample_snapshot_def)
qed

end
