(* ===== verification/Display_Grid.thy ===== *)
theory Display_Grid
  imports Sensors "HOL-Library.Char_ord" "HOL-Library.List_Lexorder"
begin

text \<open>
  The terminal display of the control centre, \<open>DisplayGrid.cpp\<close>: rows by client and device, kept in
  ordered maps, a flag that they have changed, and the frame drawn from them. A \<open>std::map\<close> is an
  association list in the order of its keys (strings compare byte by byte).
\<close>

section \<open>Ordered maps\<close>

fun map_put :: "'k::linorder \<Rightarrow> 'v \<Rightarrow> ('k \<times> 'v) list \<Rightarrow> ('k \<times> 'v) list" where
  "map_put k v [] = [(k, v)]"
| "map_put k v ((k', v') # m) =
     (if k < k' then (k, v) # (k', v') # m
      else if k = k' then (k, v) # m
      else (k', v') # map_put k v m)"

lemma map_of_put: "map_of (map_put k v m) = (map_of m)(k \<mapsto> v)"
  by (induction k v m rule: map_put.induct) (auto simp: fun_eq_iff)

lemma map_put_keys: "set (map fst (map_put k v m)) = insert k (set (map fst m))"
  by (induction k v m rule: map_put.induct) auto

lemma map_put_sorted: "sorted_wrt (<) (map fst m) \<Longrightarrow> sorted_wrt (<) (map fst (map_put k v m))"
proof (induction k v m rule: map_put.induct)
  case (2 k v k' v' m)
  then show ?case
    using map_put_keys[of k v m] by (auto simp: not_less_iff_gr_or_eq dest: order.strict_trans)
qed simp

lemma map_put_nonempty [simp]: "map_put k v m \<noteq> []"
  by (induction k v m rule: map_put.induct) auto

section \<open>The grid\<close>

type_synonym client_row = "(string \<times> string) list"

record display_grid =
  grid_rows :: "(string \<times> (string \<times> client_row) list) list"
  dirty :: bool

definition new_DisplayGrid :: display_grid where
  "new_DisplayGrid = \<lparr>grid_rows = [], dirty = False\<rparr>"

text \<open>\<open>rows_[client]\<close> inserts an empty map for a client that has none.\<close>

definition devices_of :: "string \<Rightarrow> display_grid \<Rightarrow> (string \<times> client_row) list" where
  "devices_of client g = (case map_of (grid_rows g) client of Some m \<Rightarrow> m | None \<Rightarrow> [])"

definition grid_update :: "string \<Rightarrow> string \<Rightarrow> client_row \<Rightarrow> display_grid \<Rightarrow> display_grid" where
  "grid_update client_nm device_key row g =
     g\<lparr>grid_rows := map_put client_nm (map_put device_key row (devices_of client_nm g)) (grid_rows g), dirty := True\<rparr>"

section \<open>The frame\<close>

definition kColumnPadding :: nat where "kColumnPadding = 3"
definition kMinColumnWidth :: nat where "kMinColumnWidth = 14"

definition newline :: string where
  "newline = [CHR 0x0A]"

definition kCursorHomeAndClear :: string where
  "kCursorHomeAndClear = [CHR 0x1B, CHR ''['', CHR ''H'', CHR 0x1B, CHR ''['', CHR ''0'', CHR ''J'']"

text \<open>The fields of a client: those of its devices, with an empty field between two devices.\<close>

fun flatten_devices :: "bool \<Rightarrow> (string \<times> client_row) list \<Rightarrow> client_row" where
  "flatten_devices first_device [] = []"
| "flatten_devices first_device ((k, row) # devices) =
     (if first_device then [] else [([], [])]) @ row @ flatten_devices False devices"

definition columns_of :: "(string \<times> (string \<times> client_row) list) list \<Rightarrow> (string \<times> client_row) list" where
  "columns_of rows = map (\<lambda>(client, devices). (client, flatten_devices True devices)) rows"

definition width_of :: "string \<times> client_row \<Rightarrow> nat" where
  "width_of col =
     (let width = fold (\<lambda>(label, val) w. max w (length label + 2 + length val)) (snd col) (length (fst col))
      in max (width + kColumnPadding) kMinColumnWidth)"

definition max_rows_of :: "(string \<times> client_row) list \<Rightarrow> nat" where
  "max_rows_of cols = fold (\<lambda>col n. max n (length (snd col))) cols 0"

definition header_cell :: "string \<times> client_row \<Rightarrow> string" where
  "header_cell col = fst col @ replicate (width_of col - length (fst col)) CHR '' ''"

definition dash_cell :: "string \<times> client_row \<Rightarrow> string" where
  "dash_cell col = replicate (min (width_of col - kColumnPadding) (width_of col)) CHR ''-'' @
     replicate kColumnPadding CHR '' ''"

definition cell_text :: "client_row \<Rightarrow> nat \<Rightarrow> string" where
  "cell_text fs r =
     (if r < length fs
      then (if snd (fs ! r) = [] then fst (fs ! r) else fst (fs ! r) @ '': '' @ snd (fs ! r))
      else [])"

definition data_cell :: "nat \<Rightarrow> string \<times> client_row \<Rightarrow> string" where
  "data_cell r col =
     (let cell = cell_text (snd col) r
      in cell @ replicate (if width_of col > length cell then width_of col - length cell else 1) CHR '' '')"

definition frame_lines :: "(string \<times> client_row) list \<Rightarrow> string list" where
  "frame_lines cols =
     concat (map header_cell cols) # concat (map dash_cell cols) #
     map (\<lambda>r. concat (map (data_cell r) cols)) [0 ..< max_rows_of cols]"

definition buildFrame :: "display_grid \<Rightarrow> string" where
  "buildFrame g =
     (if grid_rows g = [] then ''Waiting for telemetry clients...'' @ newline
      else concat (map (\<lambda>l. l @ newline) (frame_lines (columns_of (grid_rows g)))))"

text \<open>\<open>renderIfDirty\<close>: what is printed, if anything. \<open>fputs\<close> stops at a NUL.\<close>

definition renderIfDirty :: "display_grid \<Rightarrow> string option \<times> display_grid" where
  "renderIfDirty g =
     (if \<not> dirty g then (None, g)
      else (Some (kCursorHomeAndClear @ cstr (buildFrame g)), g\<lparr>dirty := False\<rparr>))"

section \<open>The store\<close>

definition grid_lookup :: "display_grid \<Rightarrow> string \<times> string \<Rightarrow> client_row option" where
  "grid_lookup g k = map_of (devices_of (fst k) g) (snd k)"

definition grid_upsert :: "string \<times> string \<Rightarrow> client_row \<Rightarrow> display_grid \<Rightarrow> display_grid" where
  "grid_upsert k row = grid_update (fst k) (snd k) row"

interpretation grid: key_value grid_upsert grid_lookup
proof
  show "grid_lookup (grid_upsert k v s) = (grid_lookup s)(k \<mapsto> v)" for k v s
    by (cases k) (auto simp: fun_eq_iff grid_lookup_def grid_upsert_def grid_update_def devices_of_def map_of_put)
qed

definition grid_wf :: "display_grid \<Rightarrow> bool" where
  "grid_wf g \<longleftrightarrow> sorted_wrt (<) (map fst (grid_rows g)) \<and>
     list_all (\<lambda>(_, m). sorted_wrt (<) (map fst m)) (grid_rows g)"

lemma map_put_all: "list_all P m \<Longrightarrow> P (k, v) \<Longrightarrow> list_all P (map_put k v m)"
  by (induction k v m rule: map_put.induct) auto

lemma grid_update_wf:
  assumes "grid_wf g"
  shows "grid_wf (grid_update c k row g)"
proof -
  have "sorted_wrt (<) (map fst (devices_of c g))"
    using assms by (auto simp: devices_of_def grid_wf_def list_all_iff dest!: map_of_SomeD split: option.split)
  with assms show ?thesis
    by (simp add: grid_wf_def grid_update_def map_put_sorted map_put_all)
qed

section \<open>The layout of a frame\<close>

lemma fold_max_ge: "(n :: nat) \<le> fold (\<lambda>x w. max w (f x)) xs n"
proof (induction xs arbitrary: n)
  case (Cons x xs)
  from Cons[of "max n (f x)"] show ?case by simp
qed simp

lemma fold_max_member: "x \<in> set xs \<Longrightarrow> (f x :: nat) \<le> fold (\<lambda>x w. max w (f x)) xs n"
proof (induction xs arbitrary: n)
  case (Cons y xs)
  from fold_max_ge[of "max n (f y)" f xs] Cons show ?case by auto
qed simp

lemma width_bounds:
  "length (fst col) + 3 \<le> width_of col" "14 \<le> width_of col"
  "(l, v) \<in> set (snd col) \<Longrightarrow> length l + 2 + length v + 3 \<le> width_of col"
proof -
  let ?f = "\<lambda>(l, v). length l + 2 + length v :: nat"
  have w: "width_of col = max (fold (\<lambda>x w. max w (?f x)) (snd col) (length (fst col)) + 3) 14"
    by (simp add: width_of_def Let_def kColumnPadding_def kMinColumnWidth_def case_prod_beta')
  show "length (fst col) + 3 \<le> width_of col" "14 \<le> width_of col"
    using fold_max_ge[of "length (fst col)" ?f "snd col"] by (simp_all add: w)
  show "length l + 2 + length v + 3 \<le> width_of col" if "(l, v) \<in> set (snd col)"
    using fold_max_member[OF that, of ?f "length (fst col)"] by (simp add: w)
qed

lemma cell_text_fits: "length (cell_text (snd col) r) + 3 \<le> width_of col"
proof (cases "r < length (snd col)")
  case True
  then have "snd col ! r \<in> set (snd col)" by simp
  with width_bounds(3)[of "fst (snd col ! r)" "snd (snd col ! r)" col] True show ?thesis
    by (auto simp: cell_text_def)
qed (use width_bounds(2)[of col] in \<open>simp add: cell_text_def\<close>)

lemma cell_lengths:
  "length (header_cell col) = width_of col" "length (dash_cell col) = width_of col"
  "length (data_cell r col) = width_of col"
  using width_bounds(1)[of col] cell_text_fits[of col r]
  by (simp_all add: header_cell_def dash_cell_def data_cell_def Let_def kColumnPadding_def)

lemma data_cell_eq:
  "data_cell r col = cell_text (snd col) r @ replicate (width_of col - length (cell_text (snd col) r)) CHR '' ''"
  using cell_text_fits[of col r] by (simp add: data_cell_def Let_def)

text \<open>A row of cells of known widths: the cell of a column starts behind the widths of those before it.\<close>

lemma row_cell:
  assumes "\<And>x. length (f x) = w x" and "c < length xs"
  shows "take (w (xs ! c)) (drop (sum_list (map w (take c xs))) (concat (map f xs))) = f (xs ! c)"
  using assms(2)
proof (induction xs arbitrary: c)
  case (Cons x xs)
  then show ?case by (cases c) (simp_all add: assms(1)[symmetric])
qed simp

lemma row_length: "(\<And>x. length (f x) = w x) \<Longrightarrow> length (concat (map f xs)) = sum_list (map w xs)"
  by (induction xs) auto

text \<open>
  C27: The frame is a rectangle: a header, a rule and one line for each field of the longest column, all
  lines equally long, and the cell of row \<open>r\<close> in column \<open>c\<close> starts behind the widths of the columns
  before it, shows the label and the value of the field, and ends with at least three blanks.
\<close>

theorem frame_aligned:
  fixes g :: display_grid
  defines "cols \<equiv> columns_of (grid_rows g)"
  assumes "grid_rows g \<noteq> []"
  shows "\<exists>ls. buildFrame g = concat (map (\<lambda>l. l @ newline) ls) \<and> length ls = 2 + max_rows_of cols \<and>
    (\<forall>l \<in> set ls. length l = sum_list (map width_of cols)) \<and>
    (\<forall>r < max_rows_of cols. \<forall>c < length cols.
       take (width_of (cols ! c)) (drop (sum_list (map width_of (take c cols))) (ls ! (2 + r))) =
         cell_text (snd (cols ! c)) r @
         replicate (width_of (cols ! c) - length (cell_text (snd (cols ! c)) r)) CHR '' '') \<and>
    (\<forall>r < max_rows_of cols. \<forall>c < length cols. length (cell_text (snd (cols ! c)) r) + 3 \<le> width_of (cols ! c))"
proof (intro exI[of _ "frame_lines cols"] conjI allI impI ballI)
  show "buildFrame g = concat (map (\<lambda>l. l @ newline) (frame_lines cols))"
    using assms by (simp add: buildFrame_def cols_def)
  show "length (frame_lines cols) = 2 + max_rows_of cols" by (simp add: frame_lines_def)
  fix l assume "l \<in> set (frame_lines cols)"
  then show "length l = sum_list (map width_of cols)"
    by (auto simp: frame_lines_def row_length[OF cell_lengths(1)] row_length[OF cell_lengths(2)]
        row_length[OF cell_lengths(3)])
next
  fix r c assume "r < max_rows_of cols" and c: "c < length cols"
  then have "frame_lines cols ! (2 + r) = concat (map (data_cell r) cols)" by (simp add: frame_lines_def)
  then show "take (width_of (cols ! c)) (drop (sum_list (map width_of (take c cols))) (frame_lines cols ! (2 + r))) =
      cell_text (snd (cols ! c)) r @
      replicate (width_of (cols ! c) - length (cell_text (snd (cols ! c)) r)) CHR '' ''"
    using row_cell[of "data_cell r" width_of, OF cell_lengths(3) c] by (simp add: data_cell_eq)
  show "length (cell_text (snd (cols ! c)) r) + 3 \<le> width_of (cols ! c)" by (rule cell_text_fits)
qed

lemma frame_aligned_witness:
  "\<exists>ls. buildFrame (grid_update ''pc'' ''CPU'' [(''Load'', ''42.0 %'')] new_DisplayGrid) =
     concat (map (\<lambda>l. l @ newline) ls) \<and> length ls = 3"
proof -
  have "grid_rows (grid_update ''pc'' ''CPU'' [(''Load'', ''42.0 %'')] new_DisplayGrid) =
      [(''pc'', [(''CPU'', [(''Load'', ''42.0 %'')])])]"
    by (simp add: grid_update_def new_DisplayGrid_def devices_of_def)
  then show ?thesis
    using frame_aligned[of "grid_update ''pc'' ''CPU'' [(''Load'', ''42.0 %'')] new_DisplayGrid"]
    by (auto simp: columns_of_def max_rows_of_def)
qed

section \<open>Sequences of updates and renderings\<close>

datatype grid_op = Update string string client_row | Render

text \<open>The state, and what the terminal shows: the last thing printed.\<close>

fun grid_run :: "grid_op list \<Rightarrow> display_grid \<times> string \<Rightarrow> display_grid \<times> string" where
  "grid_run [] st = st"
| "grid_run (Update c k row # ops) (g, scr) = grid_run ops (grid_update c k row g, scr)"
| "grid_run (Render # ops) (g, scr) =
     (case renderIfDirty g of (None, g) \<Rightarrow> grid_run ops (g, scr) | (Some out, g) \<Rightarrow> grid_run ops (g, out))"

fun grid_updates :: "grid_op list \<Rightarrow> ((string \<times> string) \<times> client_row) list" where
  "grid_updates [] = []"
| "grid_updates (Update c k row # ops) = ((c, k), row) # grid_updates ops"
| "grid_updates (Render # ops) = grid_updates ops"

lemma frame_dirty [simp]: "buildFrame (g\<lparr>dirty := b\<rparr>) = buildFrame g" "grid_lookup (g\<lparr>dirty := b\<rparr>) = grid_lookup g"
  "grid_wf (g\<lparr>dirty := b\<rparr>) = grid_wf g"
  by (simp_all add: buildFrame_def grid_lookup_def devices_of_def grid_wf_def fun_eq_iff)

definition shown :: "display_grid \<Rightarrow> string" where
  "shown g = kCursorHomeAndClear @ cstr (buildFrame g)"

lemma shown_dirty [simp]: "shown (g\<lparr>dirty := b\<rparr>) = shown g"
  by (simp add: shown_def)

lemma grid_run_lookup:
  "grid_lookup (fst (grid_run ops (g, scr))) = grid_lookup g ++ map_of (rev (grid_updates ops))"
proof (induction ops arbitrary: g scr)
  case (Cons x ops)
  show ?case
  proof (cases x)
    case (Update c k row)
    have "grid_lookup (grid_update c k row g) = (grid_lookup g)((c, k) \<mapsto> row)"
      using grid.lookup_upsert[of "(c, k)" row g] by (simp add: grid_upsert_def)
    with Cons Update show ?thesis by (simp add: map_add_upd_left map_add_def fun_eq_iff split: option.split)
  next
    case Render
    with Cons show ?thesis by (auto simp: renderIfDirty_def)
  qed
qed simp

lemma grid_run_shown:
  assumes "\<not> dirty g \<longrightarrow> scr = shown g" and "grid_wf g" and "grid_run ops (g, scr) = (g', scr')"
  shows "(\<not> dirty g' \<longrightarrow> scr' = shown g') \<and> grid_wf g'"
  using assms
proof (induction ops arbitrary: g scr)
  case (Cons x ops)
  show ?case
  proof (cases x)
    case (Update c k row)
    have "dirty (grid_update c k row g)" by (simp add: grid_update_def)
    with Cons.IH[of "grid_update c k row g" scr] Cons.prems Update show ?thesis by (simp add: grid_update_wf)
  next
    case Render
    show ?thesis
    proof (cases "dirty g")
      case True
      with Render Cons.prems(3) have "grid_run ops (g\<lparr>dirty := False\<rparr>, shown g) = (g', scr')"
        by (simp add: renderIfDirty_def shown_def)
      with Cons.IH[of "g\<lparr>dirty := False\<rparr>" "shown g"] Cons.prems(2) show ?thesis by simp
    next
      case False
      with Render Cons.prems Cons.IH[of g scr] show ?thesis by (simp add: renderIfDirty_def)
    qed
  qed
qed simp

text \<open>
  C26: Whatever updates and renderings happen after the first update, a rendering leaves on the terminal
  the frame of the current rows; the row shown for a client and device key is the last one given for
  them, and clients and devices are in the order of their names.
\<close>

theorem grid_shows_last:
  assumes "grid_run (Update c k row # ops @ [Render]) (new_DisplayGrid, scr) = (g, scr')"
  shows "scr' = kCursorHomeAndClear @ cstr (buildFrame g) \<and>
    grid_lookup g = map_of (rev (((c, k), row) # grid_updates ops)) \<and> grid_wf g"
proof -
  have app: "grid_run (xs @ ys) st = grid_run ys (grid_run xs st)" for xs ys st
    by (induction xs st rule: grid_run.induct) (auto simp: renderIfDirty_def)
  have upd: "grid_updates (xs @ ys) = grid_updates xs @ grid_updates ys" for xs ys
    by (induction xs rule: grid_updates.induct) auto
  let ?g1 = "grid_update c k row new_DisplayGrid"
  have run: "grid_run (ops @ [Render]) (?g1, scr) = (g, scr')" using assms by simp
  obtain g2 scr2 where mid: "grid_run ops (?g1, scr) = (g2, scr2)" by fastforce
  have "grid_wf new_DisplayGrid" by (simp add: grid_wf_def new_DisplayGrid_def)
  then have wf: "grid_wf ?g1" by (rule grid_update_wf)
  have d: "dirty ?g1" by (simp add: grid_update_def)
  have "(\<not> dirty g2 \<longrightarrow> scr2 = shown g2) \<and> grid_wf g2"
    using grid_run_shown[OF _ wf mid] d by blast
  moreover have "grid_run [Render] (g2, scr2) = (g, scr')" using run mid by (simp add: app)
  ultimately have "scr' = shown g \<and> grid_wf g"
    by (cases "dirty g2") (auto simp: renderIfDirty_def shown_def)
  moreover have "grid_lookup g = map_of (rev (((c, k), row) # grid_updates ops))"
    using grid_run_lookup[of "Update c k row # ops @ [Render]" new_DisplayGrid scr] assms
    by (simp add: upd) (simp add: grid_lookup_def devices_of_def new_DisplayGrid_def map_add_def fun_eq_iff split: option.split)
  ultimately show ?thesis by (simp add: shown_def)
qed

lemma grid_shows_last_witness:
  "\<exists>g scr'. grid_run [Update ''pc'' ''CPU'' [(''Load'', ''42.0 %'')], Render] (new_DisplayGrid, []) = (g, scr') \<and>
     grid_lookup g (''pc'', ''CPU'') = Some [(''Load'', ''42.0 %'')] \<and>
     scr' = kCursorHomeAndClear @ cstr (buildFrame g)"
proof -
  obtain g scr' where r: "grid_run (Update ''pc'' ''CPU'' [(''Load'', ''42.0 %'')] # [] @ [Render]) (new_DisplayGrid, []) = (g, scr')"
    by fastforce
  from grid_shows_last[OF r] r show ?thesis by auto
qed

end
