(* ===== verification/Control_Center.thy ===== *)
theory Control_Center
  imports Telemetry_Client Display_Grid
begin

text \<open>
  The control centre: \<open>ControlCenterClient.cpp\<close>, which discovers the devices on the server, subscribes to their
  sensors and turns each update into a row, the functions of \<open>utils.h\<close> it uses, and the schedule of
  the loop of \<open>control_center/main.cpp\<close>. Calls of the stack may throw, as in the telemetry client.
\<close>

section \<open>State\<close>

record DecodedDevice =
  dd_name :: string
  dd_vendor :: string
  dd_hardware_type :: string

record DeviceCache =
  client_folder_name :: string
  cache_info :: DecodedDevice

record 'w cc_env =
  cc_browse :: "node_id \<Rightarrow> 16 word \<Rightarrow> string \<Rightarrow> ('w, node_id) ua"
  cc_children :: "node_id \<Rightarrow> ('w, node_id list) ua"
  cc_browse_name :: "node_id \<Rightarrow> ('w, string) ua"
  cc_read :: "node_id \<Rightarrow> ('w, ua_string option) ua"
  cc_subscribe :: "node_id \<Rightarrow> ('w, unit) ua"
  cc_node_string :: "node_id \<Rightarrow> string"

record 'w control_center =
  cc_world :: 'w
  device_cache :: "string \<rightharpoonup> DeviceCache"
  subscriptions :: "(node_id \<times> string) list"
  last_poll :: int

definition on_cc :: "('w, 'a) ua \<Rightarrow> ('w control_center, 'a) ua" where
  "on_cc m s = (case m (cc_world s) of (r, w) \<Rightarrow> (r, s\<lparr>cc_world := w\<rparr>))"

section \<open>Reading a device\<close>

definition readStringNode :: "'w cc_env \<Rightarrow> node_id \<Rightarrow> ('w, string) ua" where
  "readStringNode E n =
     ua_bind (cc_read E n) (\<lambda>val. ua_return (case val of Some u \<Rightarrow> from_ua u | None \<Rightarrow> []))"

definition readDeviceInfo :: "'w cc_env \<Rightarrow> SnapshotNodeIds \<Rightarrow> ('w, DecodedDevice) ua" where
  "readDeviceInfo E ids =
     ua_bind (readStringNode E (id_name ids)) (\<lambda>n.
     ua_bind (readStringNode E (id_vendor ids)) (\<lambda>v.
     ua_bind (readStringNode E (id_hardware_type ids)) (\<lambda>h.
     ua_return \<lparr>dd_name = n, dd_vendor = v, dd_hardware_type = h\<rparr>)))"

section \<open>Discovery\<close>

text \<open>The children of a device node by their names, and whether \<open>sensors\<close> is among them.\<close>

fun scan_children :: "'w cc_env \<Rightarrow> node_id list \<Rightarrow> SnapshotNodeIds \<Rightarrow> bool \<Rightarrow> ('w, SnapshotNodeIds \<times> bool) ua" where
  "scan_children E [] ids found_sensors = ua_return (ids, found_sensors)"
| "scan_children E (child # cs) ids found_sensors =
     ua_bind (cc_browse_name E child) (\<lambda>child_name.
       if child_name = ''name'' then scan_children E cs (ids\<lparr>id_name := child\<rparr>) found_sensors
       else if child_name = ''vendor'' then scan_children E cs (ids\<lparr>id_vendor := child\<rparr>) found_sensors
       else if child_name = ''hardware_type'' then scan_children E cs (ids\<lparr>id_hardware_type := child\<rparr>) found_sensors
       else if child_name = ''sensors'' then scan_children E cs (ids\<lparr>id_sensors := child\<rparr>) True
       else scan_children E cs ids found_sensors)"

definition no_ids :: "node_id \<Rightarrow> SnapshotNodeIds" where
  "no_ids n = \<lparr>id_object = n, id_name = null_node_id, id_vendor = null_node_id,
               id_hardware_type = null_node_id, id_sensors = null_node_id\<rparr>"

text \<open>The cache entry is made before the subscription, which may throw.\<close>

definition add_device :: "'w cc_env \<Rightarrow> string \<Rightarrow> node_id \<Rightarrow> SnapshotNodeIds \<Rightarrow> ('w control_center, unit) ua" where
  "add_device E folder_name device ids s =
     (case on_cc (readDeviceInfo E ids) s of
        (None, s) \<Rightarrow> (None, s)
      | (Some info, s) \<Rightarrow>
          (let nm = cc_node_string E device;
               s = s\<lparr>device_cache := (device_cache s)(nm \<mapsto> \<lparr>client_folder_name = folder_name, cache_info = info\<rparr>)\<rparr>
           in case on_cc (cc_subscribe E (id_sensors ids)) s of
                (None, s) \<Rightarrow> (None, s)
              | (Some _, s) \<Rightarrow> (Some (), s\<lparr>subscriptions := subscriptions s @ [(id_sensors ids, nm)]\<rparr>)))"

definition discover_device :: "'w cc_env \<Rightarrow> string \<Rightarrow> node_id \<Rightarrow> ('w control_center, unit) ua" where
  "discover_device E folder_name device s =
     (if device_cache s (cc_node_string E device) \<noteq> None then (Some (), s)
      else case on_cc (ua_bind (cc_children E device) (\<lambda>cs. scan_children E cs (no_ids device) False)) s of
        (None, s) \<Rightarrow> (None, s)
      | (Some (ids, found_sensors), s) \<Rightarrow>
          if \<not> found_sensors then (Some (), s) else add_device E folder_name device ids s)"

fun discover_devices :: "'w cc_env \<Rightarrow> string \<Rightarrow> node_id list \<Rightarrow> ('w control_center, unit) ua" where
  "discover_devices E folder_name [] = ua_return ()"
| "discover_devices E folder_name (d # ds) =
     ua_bind (discover_device E folder_name d) (\<lambda>_. discover_devices E folder_name ds)"

fun discover_clients :: "'w cc_env \<Rightarrow> node_id list \<Rightarrow> ('w control_center, unit) ua" where
  "discover_clients E [] = ua_return ()"
| "discover_clients E (c # cs) =
     ua_bind (on_cc (cc_browse_name E c)) (\<lambda>folder_name.
     ua_bind (on_cc (cc_children E c)) (\<lambda>ds.
     ua_bind (discover_devices E folder_name ds) (\<lambda>_. discover_clients E cs)))"

definition discoverAndSubscribe :: "'w cc_env \<Rightarrow> ('w control_center, unit) ua" where
  "discoverAndSubscribe E =
     ua_bind (on_cc (cc_browse E ObjectsFolder kTelemetryNamespaceIndex kTelemetryClientsFolderName)) (\<lambda>clients_folder.
       if clients_folder = null_node_id then ua_return ()
       else ua_bind (on_cc (cc_children E clients_folder)) (discover_clients E))"

section \<open>Updates\<close>

text \<open>\<open>snprintf(buf, 32, "%.1f", value)\<close> keeps at most 31 characters.\<close>

definition format_value :: "DecodedSensor \<Rightarrow> string" where
  "format_value sensor =
     (let val_str = take 31 (show_fixed 1 (ds_value sensor))
      in if ds_unit sensor \<noteq> [] then val_str @ '' '' @ ds_unit sensor else val_str)"

definition row_header :: "DecodedDevice \<Rightarrow> string \<times> string" where
  "row_header info = (dd_name info @ '' ('' @ dd_hardware_type info @ '')'', [])"

definition make_row :: "DecodedDevice \<Rightarrow> DecodedSensor list \<Rightarrow> client_row" where
  "make_row info sensors =
     row_header info # map (\<lambda>sensor. (''  '' @ ds_name sensor, format_value sensor)) sensors"

text \<open>
  \<open>handleSensorUpdate\<close>: the call of the sink (client, device key, row), none for a device that is not known.
  The outer \<open>None\<close> is a read outside the structures.
\<close>

definition handleSensorUpdate ::
  "codec \<Rightarrow> memory \<Rightarrow> (string \<rightharpoonup> DeviceCache) \<Rightarrow> string \<Rightarrow> variant \<Rightarrow> (string \<times> string \<times> client_row) option option" where
  "handleSensorUpdate cd mem cache nm val =
     (case cache nm of
        None \<Rightarrow> Some None
      | Some c \<Rightarrow>
          (case decodeSensorDtos cd buildSensorDtoType mem val of
             None \<Rightarrow> None
           | Some sensors \<Rightarrow>
               Some (Some (client_folder_name c, dd_hardware_type (cache_info c), make_row (cache_info c) sensors))))"

text \<open>The sink that \<open>main\<close> installs, and the updates one call of \<open>runIterate\<close> delivers.\<close>

fun deliver ::
  "codec \<Rightarrow> memory \<Rightarrow> (string \<rightharpoonup> DeviceCache) \<Rightarrow> (string \<times> variant) list \<Rightarrow> display_grid \<Rightarrow> display_grid option" where
  "deliver cd mem cache [] g = Some g"
| "deliver cd mem cache ((nm, val) # us) g =
     (case handleSensorUpdate cd mem cache nm val of
        None \<Rightarrow> None
      | Some None \<Rightarrow> deliver cd mem cache us g
      | Some (Some (client, key, row)) \<Rightarrow> deliver cd mem cache us (grid_update client key row g))"

text \<open>The second half of \<open>tick\<close>: discovery when the interval has passed.\<close>

definition poll :: "'w cc_env \<Rightarrow> int \<Rightarrow> int \<Rightarrow> ('w control_center, unit) ua" where
  "poll E now poll_interval s =
     (if now - last_poll s \<ge> poll_interval
      then (case discoverAndSubscribe E s of (None, s) \<Rightarrow> (None, s) | (Some _, s) \<Rightarrow> (Some (), s\<lparr>last_poll := now\<rparr>))
      else (Some (), s))"

section \<open>The loop of \<open>main\<close>\<close>

text \<open>Times in milliseconds. One turn: the time read behind \<open>tick\<close>, whether the grid is rendered, and the new schedule.\<close>

definition kTickCadence :: int where "kTickCadence = 100"
definition kRenderInterval :: int where "kRenderInterval = 2000"

record schedule =
  next_tick :: int
  next_render :: int

definition loop_turn :: "int \<Rightarrow> schedule \<Rightarrow> bool \<times> schedule" where
  "loop_turn now sc =
     (let nt = next_tick sc + kTickCadence;
          rendered = (now \<ge> next_render sc);
          nr = next_render sc + kRenderInterval;
          nr = (if nr \<le> now then now + kRenderInterval else nr)
      in (rendered, \<lparr>next_tick = (if nt > now then nt else now),
                     next_render = (if rendered then nr else next_render sc)\<rparr>))"

fun loop_turns :: "int list \<Rightarrow> schedule \<Rightarrow> nat \<times> schedule" where
  "loop_turns [] sc = (0, sc)"
| "loop_turns (now # ts) sc =
     (case loop_turn now sc of (r, sc) \<Rightarrow> case loop_turns ts sc of (n, sc) \<Rightarrow> ((if r then Suc n else n), sc))"

end
