(* ===== verification/Control_Center_Properties.thy ===== *)
theory Control_Center_Properties
  imports Control_Center Telemetry_Properties
begin

text \<open>
  What the control centre shows: every device is subscribed once, what it knows of a device is what it read first,
  and a row shows the sensors of the snapshot that was sent.
\<close>

section \<open>Discovery\<close>

text \<open>The invariant: subscriptions are for known devices, one for each.\<close>

definition cc_inv :: "'w control_center \<Rightarrow> bool" where
  "cc_inv s \<longleftrightarrow> distinct (map snd (subscriptions s)) \<and> snd ` set (subscriptions s) \<subseteq> dom (device_cache s)"

text \<open>
  What every step of a discovery does, whether it ends or throws: entries stay as they are, subscriptions
  are only added, for devices that were not known.
\<close>

definition grows :: "'w control_center \<Rightarrow> 'w control_center \<Rightarrow> bool" where
  "grows s s' \<longleftrightarrow> device_cache s \<subseteq>\<^sub>m device_cache s' \<and>
     (\<exists>new. subscriptions s' = subscriptions s @ new \<and> distinct (map snd new) \<and>
        snd ` set new \<subseteq> dom (device_cache s') - dom (device_cache s))"

lemma grows_refl [simp]: "grows s s"
  by (auto simp: grows_def)

lemma grows_same: "device_cache s' = device_cache s \<Longrightarrow> subscriptions s' = subscriptions s \<Longrightarrow> grows s s'"
  by (auto simp: grows_def)

lemma map_le_dom: "m \<subseteq>\<^sub>m m' \<Longrightarrow> dom m \<subseteq> dom m'"
  by (rule map_le_implies_dom_le)

lemma diff_chain: "A \<subseteq> E - D \<Longrightarrow> B \<subseteq> F - E \<Longrightarrow> D \<subseteq> E \<Longrightarrow> E \<subseteq> F \<Longrightarrow> A \<union> B \<subseteq> F - D"
  by blast

lemma grows_trans: "grows s s' \<Longrightarrow> grows s' s'' \<Longrightarrow> grows s s''"
proof -
  assume a: "grows s s'" and b: "grows s' s''"
  from a obtain n1 where n1: "device_cache s \<subseteq>\<^sub>m device_cache s'" "subscriptions s' = subscriptions s @ n1"
    "distinct (map snd n1)" "snd ` set n1 \<subseteq> dom (device_cache s') - dom (device_cache s)"
    by (auto simp: grows_def)
  from b obtain n2 where n2: "device_cache s' \<subseteq>\<^sub>m device_cache s''" "subscriptions s'' = subscriptions s' @ n2"
    "distinct (map snd n2)" "snd ` set n2 \<subseteq> dom (device_cache s'') - dom (device_cache s')"
    by (auto simp: grows_def)
  have "snd ` set n1 \<inter> snd ` set n2 = {}" using n1(4) n2(4) by blast
  moreover have "dom (device_cache s) \<subseteq> dom (device_cache s')" "dom (device_cache s') \<subseteq> dom (device_cache s'')"
    using map_le_dom[OF n1(1)] map_le_dom[OF n2(1)] .
  ultimately have "snd ` set (n1 @ n2) \<subseteq> dom (device_cache s'') - dom (device_cache s)"
    unfolding set_append image_Un by (intro diff_chain[OF n1(4) n2(4)])
  moreover have "distinct (map snd (n1 @ n2))"
    using n1(3) n2(3) \<open>snd ` set n1 \<inter> snd ` set n2 = {}\<close> by simp
  ultimately show ?thesis
    unfolding grows_def using n1(2) n2(2) map_le_trans[OF n1(1) n2(1)]
    by (intro conjI exI[of _ "n1 @ n2"]) simp_all
qed

lemma grows_inv: "grows s s' \<Longrightarrow> cc_inv s \<Longrightarrow> cc_inv s'"
proof -
  assume g: "grows s s'" and i: "cc_inv s"
  from g obtain n where n: "device_cache s \<subseteq>\<^sub>m device_cache s'" "subscriptions s' = subscriptions s @ n"
    "distinct (map snd n)" "snd ` set n \<subseteq> dom (device_cache s') - dom (device_cache s)"
    by (auto simp: grows_def)
  have "snd ` set (subscriptions s) \<inter> snd ` set n = {}" using i n(4) unfolding cc_inv_def by blast
  moreover have "snd ` set (subscriptions s) \<union> snd ` set n \<subseteq> dom (device_cache s')"
    using i n(4) map_le_dom[OF n(1)] unfolding cc_inv_def by blast
  ultimately show ?thesis using i n(2,3) by (simp add: cc_inv_def image_Un)
qed

definition grower :: "('w control_center, 'a) ua \<Rightarrow> bool" where
  "grower m \<longleftrightarrow> (\<forall>s. grows s (snd (m s)))"

lemma grower_bind: "grower m \<Longrightarrow> (\<And>x. grower (f x)) \<Longrightarrow> grower (ua_bind m f)"
  unfolding grower_def
proof (intro allI)
  fix s assume m: "\<forall>s. grows s (snd (m s))" and f: "\<And>x. \<forall>s. grows s (snd (f x s))"
  obtain r s1 where r: "m s = (r, s1)" by fastforce
  with m have g: "grows s s1" by (metis snd_conv)
  show "grows s (snd (ua_bind m f s))"
    using r g f grows_trans[OF g] by (cases r) (auto simp: ua_bind_def)
qed

lemma grower_return [simp]: "grower (ua_return x)"
  by (simp add: grower_def ua_return_def)

lemma on_cc_fields: "on_cc m s = (r, s') \<Longrightarrow> device_cache s' = device_cache s \<and> subscriptions s' = subscriptions s"
  by (auto simp: on_cc_def split: prod.splits)

lemma grower_on_cc [simp]: "grower (on_cc m)"
  unfolding grower_def using on_cc_fields by (metis grows_same prod.collapse)

lemma add_device_grows:
  assumes "device_cache s (cc_node_string E device) = None"
  shows "grows s (snd (add_device E folder_name device ids s))"
proof -
  obtain r s1 where r: "on_cc (readDeviceInfo E ids) s = (r, s1)" by fastforce
  show ?thesis
  proof (cases r)
    case None
    with r on_cc_fields[OF r] show ?thesis by (simp add: add_device_def grows_same)
  next
    case (Some info)
    let ?nm = "cc_node_string E device"
    let ?s2 = "s1\<lparr>device_cache := (device_cache s1)(?nm \<mapsto> \<lparr>client_folder_name = folder_name, cache_info = info\<rparr>)\<rparr>"
    obtain r3 s3 where s3: "on_cc (cc_subscribe E (id_sensors ids)) ?s2 = (r3, s3)" by fastforce
    have le: "device_cache s \<subseteq>\<^sub>m device_cache s3" "?nm \<in> dom (device_cache s3)" "subscriptions s3 = subscriptions s"
      using on_cc_fields[OF r] on_cc_fields[OF s3] assms by (auto simp: map_le_def)
    with r s3 Some assms show ?thesis
      by (cases r3) (auto simp: add_device_def Let_def grows_def)
  qed
qed

lemma grower_device: "grower (discover_device E folder_name device)"
  unfolding grower_def
proof
  fix s
  obtain r s1 where r: "on_cc (ua_bind (cc_children E device) (\<lambda>cs. scan_children E cs (no_ids device) False)) s = (r, s1)"
    by fastforce
  have g: "grows s s1" using on_cc_fields[OF r] by (simp add: grows_same)
  show "grows s (snd (discover_device E folder_name device s))"
  proof (cases "device_cache s (cc_node_string E device) = None \<and> (\<exists>ids. r = Some (ids, True))")
    case True
    then obtain ids where ids: "r = Some (ids, True)" "device_cache s (cc_node_string E device) = None" by blast
    with on_cc_fields[OF r] have "device_cache s1 (cc_node_string E device) = None" by simp
    from grows_trans[OF g add_device_grows[where E = E, OF this]] ids r show ?thesis by (simp add: discover_device_def)
  next
    case False
    with r g show ?thesis by (auto simp: discover_device_def split: option.splits)
  qed
qed

lemma grower_devices: "grower (discover_devices E folder_name ds)"
  by (induction ds) (simp_all add: grower_bind grower_device)

lemma grower_clients: "grower (discover_clients E cs)"
  by (induction cs) (simp_all add: grower_bind grower_devices)

lemma grower_discover: "grower (discoverAndSubscribe E)"
  unfolding discoverAndSubscribe_def
  by (intro grower_bind grower_on_cc) (auto intro!: grower_bind grower_clients)

text \<open>
  Whether every device it knows is being watched. \<open>items\<close> is what the server watches for this client, one
  item for each \<open>subscribeDataChange\<close> that returned; no other call adds or removes one.
\<close>

definition same_items :: "('w \<Rightarrow> node_id list) \<Rightarrow> ('w, 'a) ua \<Rightarrow> bool" where
  "same_items items m \<longleftrightarrow> (\<forall>w. items (snd (m w)) = items w)"

definition monitored :: "('w \<Rightarrow> node_id list) \<Rightarrow> 'w cc_env \<Rightarrow> bool" where
  "monitored items E \<longleftrightarrow>
     (\<forall>n i nm. same_items items (cc_browse E n i nm)) \<and> (\<forall>n. same_items items (cc_children E n)) \<and>
     (\<forall>n. same_items items (cc_browse_name E n)) \<and> (\<forall>n. same_items items (cc_read E n)) \<and>
     (\<forall>n w w'. cc_subscribe E n w = (Some (), w') \<longrightarrow> items w' = items w @ [n])"

definition subscribed_all :: "('w \<Rightarrow> node_id list) \<Rightarrow> 'w control_center \<Rightarrow> bool" where
  "subscribed_all items s \<longleftrightarrow>
     snd ` set (subscriptions s) = dom (device_cache s) \<and> items (cc_world s) = map fst (subscriptions s)"

definition keeps_all :: "('w \<Rightarrow> node_id list) \<Rightarrow> ('w control_center, 'a) ua \<Rightarrow> bool" where
  "keeps_all items m \<longleftrightarrow> (\<forall>s x s'. m s = (Some x, s') \<longrightarrow> subscribed_all items s \<longrightarrow> subscribed_all items s')"

lemma same_items_bind: "same_items items m \<Longrightarrow> (\<And>x. same_items items (f x)) \<Longrightarrow> same_items items (ua_bind m f)"
  unfolding same_items_def ua_bind_def by (auto split: prod.splits option.splits) (metis snd_conv)+

lemma same_items_return [simp]: "same_items items (ua_return x)"
  by (simp add: same_items_def ua_return_def)

lemma same_items_readDeviceInfo: "monitored items E \<Longrightarrow> same_items items (readDeviceInfo E ids)"
  unfolding readDeviceInfo_def readStringNode_def
  by (intro same_items_bind same_items_return) (simp_all add: monitored_def)

lemma same_items_scan_children: "monitored items E \<Longrightarrow> same_items items (scan_children E cs ids found)"
proof (induction cs arbitrary: ids found)
  case (Cons c cs)
  then have "same_items items (cc_browse_name E c)" by (simp add: monitored_def)
  with Cons show ?case by (auto intro!: same_items_bind)
qed simp

lemma keeps_bind: "keeps_all items m \<Longrightarrow> (\<And>x. keeps_all items (f x)) \<Longrightarrow> keeps_all items (ua_bind m f)"
  unfolding keeps_all_def ua_bind_def by (auto split: prod.splits option.splits)

lemma keeps_return [simp]: "keeps_all items (ua_return x)"
  by (simp add: keeps_all_def ua_return_def)

lemma on_cc_same_items: "on_cc m s = (r, s') \<Longrightarrow> same_items items m \<Longrightarrow> items (cc_world s') = items (cc_world s)"
  unfolding same_items_def on_cc_def by (auto split: prod.splits) (metis snd_conv)

lemma keeps_on_cc: "same_items items m \<Longrightarrow> keeps_all items (on_cc m)"
  unfolding keeps_all_def subscribed_all_def using on_cc_fields on_cc_same_items by metis

text \<open>The entry in the cache and the subscription go together, unless the subscription throws.\<close>

lemma add_device_all:
  assumes "monitored items E" and "add_device E folder_name device ids s = (Some x, s')" and "subscribed_all items s"
  shows "subscribed_all items s'"
proof -
  let ?nm = "cc_node_string E device"
  from assms(2) obtain info s1 u s3 where r: "on_cc (readDeviceInfo E ids) s = (Some info, s1)"
      and t: "on_cc (cc_subscribe E (id_sensors ids))
        (s1\<lparr>device_cache := (device_cache s1)(?nm \<mapsto> \<lparr>client_folder_name = folder_name, cache_info = info\<rparr>)\<rparr>) = (Some u, s3)"
      and s': "s' = s3\<lparr>subscriptions := subscriptions s3 @ [(id_sensors ids, ?nm)]\<rparr>"
    by (auto simp: add_device_def Let_def split: prod.splits option.splits)
  from t assms(1) have "items (cc_world s3) = items (cc_world s1) @ [id_sensors ids]"
    by (auto simp: on_cc_def monitored_def split: prod.splits)
  with on_cc_fields[OF r] on_cc_fields[OF t] on_cc_same_items[OF r same_items_readDeviceInfo[OF assms(1)]] assms(3)
  show ?thesis by (simp add: s' subscribed_all_def)
qed

lemma keeps_device: "monitored items E \<Longrightarrow> keeps_all items (discover_device E folder_name device)"
  unfolding keeps_all_def
proof (intro allI impI)
  fix s x s' assume a: "monitored items E" "discover_device E folder_name device s = (Some x, s')" "subscribed_all items s"
  let ?scan = "ua_bind (cc_children E device) (\<lambda>cs. scan_children E cs (no_ids device) False)"
  obtain r s1 where r: "on_cc ?scan s = (r, s1)" by fastforce
  have "same_items items ?scan" using a(1) by (intro same_items_bind same_items_scan_children) (simp_all add: monitored_def)
  from keeps_on_cc[OF this] r a(3) have s1: "r \<noteq> None \<Longrightarrow> subscribed_all items s1" by (auto simp: keeps_all_def)
  show "subscribed_all items s'"
    using a r s1 add_device_all[OF a(1), of folder_name device _ s1 x s']
    by (auto simp: discover_device_def split: if_splits option.splits)
qed

lemma keeps_devices: "monitored items E \<Longrightarrow> keeps_all items (discover_devices E folder_name ds)"
  by (induction ds) (simp_all add: keeps_bind keeps_device)

lemma keeps_clients: "monitored items E \<Longrightarrow> keeps_all items (discover_clients E cs)"
proof (induction cs)
  case (Cons c cs)
  then have "same_items items (cc_browse_name E c)" "same_items items (cc_children E c)" by (simp_all add: monitored_def)
  with Cons show ?case by (simp add: keeps_bind keeps_on_cc keeps_devices)
qed simp

lemma keeps_discover: "monitored items E \<Longrightarrow> keeps_all items (discoverAndSubscribe E)"
  unfolding discoverAndSubscribe_def
  by (intro keeps_bind keeps_on_cc) (auto simp: monitored_def intro!: keeps_bind keeps_on_cc keeps_clients)

lemma keeps_poll: "monitored items E \<Longrightarrow> keeps_all items (poll E now i)"
  using keeps_discover[of items E] unfolding keeps_all_def poll_def
  by (auto simp: subscribed_all_def split: prod.splits option.splits if_splits)

text \<open>Any number of discoveries, each seeing another server, ended or thrown.\<close>

fun discoveries :: "'w cc_env list \<Rightarrow> 'w control_center \<Rightarrow> 'w control_center" where
  "discoveries [] s = s"
| "discoveries (E # Es) s = discoveries Es (snd (discoverAndSubscribe E s))"

lemma discoveries_grow: "grows s (discoveries Es s)"
proof (induction Es arbitrary: s)
  case (Cons E Es)
  have "grows s (snd (discoverAndSubscribe E s))" using grower_discover[of E] unfolding grower_def by blast
  from grows_trans[OF this Cons] show ?case by simp
qed simp

definition new_control_center :: "'w \<Rightarrow> 'w control_center" where
  "new_control_center w = \<lparr>cc_world = w, device_cache = Map.empty, subscriptions = [], last_poll = 0\<rparr>"

text \<open>
  However often the control centre polls, and whatever the server answers or throws, each device has at
  most one subscription, so that an update is never delivered twice.
\<close>

theorem subscribed_once:
  "distinct (map snd (subscriptions (discoveries Es (new_control_center w))))"
proof -
  have "cc_inv (new_control_center w)" by (simp add: cc_inv_def new_control_center_def)
  from grows_inv[OF discoveries_grow this] show ?thesis by (simp add: cc_inv_def)
qed

text \<open>
  What the control centre knows of a device is what it read when it found the device: name and
  hardware type are never read again, and a device whose subscription threw is never subscribed again.
\<close>

theorem device_info_frozen:
  assumes "device_cache s nm = Some c"
  shows "device_cache (discoveries Es s) nm = Some c \<and>
    filter (\<lambda>x. snd x = nm) (subscriptions (discoveries Es s)) = filter (\<lambda>x. snd x = nm) (subscriptions s)"
proof -
  from discoveries_grow[of s Es] obtain n where n: "device_cache s \<subseteq>\<^sub>m device_cache (discoveries Es s)"
    "subscriptions (discoveries Es s) = subscriptions s @ n" "snd ` set n \<inter> dom (device_cache s) = {}"
    by (auto simp: grows_def)
  have "filter (\<lambda>x. snd x = nm) n = []" using n(3) assms by (force simp: filter_empty_conv)
  with n assms show ?thesis by (auto simp: map_le_def dom_def)
qed

text \<open>A device found between the creation of its nodes and the first write: its strings are still empty.\<close>

definition early_cache :: "string \<rightharpoonup> DeviceCache" where
  "early_cache = [''ns=1;s=pc.CPU'' \<mapsto> \<lparr>client_folder_name = ''pc'',
     cache_info = \<lparr>dd_name = [], dd_vendor = [], dd_hardware_type = []\<rparr>\<rparr>]"

text \<open>A server that finds nothing.\<close>

definition silent_env :: "unit cc_env" where
  "silent_env = \<lparr>cc_browse = (\<lambda>_ _ _ w. (None, w)), cc_children = (\<lambda>_ w. (Some [], w)),
     cc_browse_name = (\<lambda>_ w. (None, w)), cc_read = (\<lambda>_ w. (None, w)), cc_subscribe = (\<lambda>_ w. (None, w)),
     cc_node_string = (\<lambda>_. [])\<rparr>"

lemma device_info_frozen_witness:
  "device_cache (discoveries [silent_env, silent_env] ((new_control_center ())\<lparr>device_cache := early_cache\<rparr>))
     ''ns=1;s=pc.CPU'' =
   Some \<lparr>client_folder_name = ''pc'', cache_info = \<lparr>dd_name = [], dd_vendor = [], dd_hardware_type = []\<rparr>\<rparr>"
  using device_info_frozen[of "(new_control_center ())\<lparr>device_cache := early_cache\<rparr>" "''ns=1;s=pc.CPU''" _
      "[silent_env, silent_env]"]
  by (simp add: early_cache_def)

section \<open>Rows\<close>

lemma deliver_one:
  assumes "cache nm = Some c" and "decodeSensorDtos cd buildSensorDtoType mem v = Some sensors"
  shows "deliver cd mem cache ((nm, v) # us) g =
    deliver cd mem cache us (grid_update (client_folder_name c) (dd_hardware_type (cache_info c))
      (make_row (cache_info c) sensors) g)"
  using assms by (simp add: handleSensorUpdate_def)

lemma grid_lookup_update: "grid_lookup (grid_update c k row g) = (grid_lookup g)((c, k) \<mapsto> row)"
  using grid.lookup_upsert[of "(c, k)" row g] by (simp add: grid_upsert_def)

definition shown_field :: "SensorSnapshot \<Rightarrow> string \<times> string" where
  "shown_field s = (''  '' @ ss_name s, format_value (as_decoded s))"

definition shown_row :: "DeviceCache \<Rightarrow> 'a TelemetrySnapshot_scheme \<Rightarrow> client_row" where
  "shown_row c snap = row_header (cache_info c) # map shown_field (ts_sensors snap)"

lemma deliver_step:
  assumes "cache nm = Some c" and "variant_carries cd mem v (map dto_of (ts_sensors snap))"
  shows "deliver cd mem cache ((nm, v) # us) g =
    deliver cd mem cache us (grid_update (client_folder_name c) (dd_hardware_type (cache_info c)) (shown_row c snap) g)"
proof -
  have d: "decodeSensorDtos cd buildSensorDtoType mem v = Some (map as_decoded (ts_sensors snap))"
    using decodeSensorDtos_carries[OF assms(2)] by (simp add: comp_def decoded_dto_of)
  have "make_row (cache_info c) (map as_decoded (ts_sensors snap)) = shown_row c snap"
    by (simp add: make_row_def shown_field_def as_decoded_def shown_row_def)
  with deliver_one[where cache = cache, OF assms(1) d] show ?thesis by simp
qed

lemma deliver_snapshot:
  assumes "cache nm = Some c" and "variant_carries cd mem v (map dto_of (ts_sensors snap))"
  shows "\<exists>g'. deliver cd mem cache [(nm, v)] g = Some g' \<and>
    grid_lookup g' = (grid_lookup g)((client_folder_name c, dd_hardware_type (cache_info c)) \<mapsto>
      row_header (cache_info c) # map shown_field (ts_sensors snap))"
  using deliver_step[where cache = cache, OF assms] by (simp add: grid_lookup_update shown_row_def)

text \<open>
  When an update carries the sensors of a snapshot, in whatever encoding, the grid gets the row of the
  device under its client and hardware type: the header and one field for each sensor of the snapshot, in
  order; all other rows stay.
\<close>

theorem snapshot_shown:
  assumes "device_cache s nm = Some c" and "variant_carries cd mem v (map dto_of (ts_sensors snap))"
  shows "\<exists>g'. deliver cd mem (device_cache s) [(nm, v)] g = Some g' \<and>
    grid_lookup g' = (grid_lookup g)((client_folder_name c, dd_hardware_type (cache_info c)) \<mapsto>
      row_header (cache_info c) # map shown_field (ts_sensors snap))"
  by (rule deliver_snapshot[where cache = "device_cache s", OF assms])

definition pc_cache :: "string \<rightharpoonup> DeviceCache" where
  "pc_cache = [''ns=1;s=pc.CPU'' \<mapsto> \<lparr>client_folder_name = ''pc'',
     cache_info = \<lparr>dd_name = ''CPU'', dd_vendor = ''INTEL'', dd_hardware_type = ''CPU''\<rparr>\<rparr>]"

lemma digit_chars: "digit_char 4 = CHR ''4''" "digit_char 2 = CHR ''2''" "digit_char 0 = CHR ''0''"
  by code_simp+

lemma snapshot_shown_witness:
  "\<exists>g'. deliver pool_codec (store_dto 4096 sample_dto Map.empty) pc_cache
     [(''ns=1;s=pc.CPU'', ExtArray [Decoded (Some 4096)])] new_DisplayGrid = Some g' \<and>
   grid_lookup g' (''pc'', ''CPU'') = Some [(''CPU (CPU)'', []), (''  Core 0 Load'', ''42.0 %'')]"
proof -
  let ?s = "(new_control_center ())\<lparr>device_cache := pc_cache\<rparr>"
  let ?v = "ExtArray [Decoded (Some 4096)]"
  have "variant_carries pool_codec (store_dto 4096 sample_dto Map.empty) ?v (map dto_of (ts_sensors sample_snapshot))"
    by (simp add: sample_snapshot_def sample_dto_def holds_store)
  from snapshot_shown[OF _ this, of ?s "''ns=1;s=pc.CPU''" _ new_DisplayGrid]
  have "\<exists>g'. deliver pool_codec (store_dto 4096 sample_dto Map.empty) pc_cache [(''ns=1;s=pc.CPU'', ?v)] new_DisplayGrid =
      Some g' \<and> grid_lookup g' (''pc'', ''CPU'') = Some ((''CPU (CPU)'', []) # map shown_field (ts_sensors sample_snapshot))"
    by (auto simp: pc_cache_def row_header_def)
  moreover have "map shown_field (ts_sensors sample_snapshot) = [(''  Core 0 Load'', ''42.0 %'')]"
    by (simp add: sample_snapshot_def shown_field_def as_decoded_def format_value_def show_fixed_def Let_def
        round_half_even_def show_nat_small show_nat_big pad_left_def digit_chars)
  ultimately show ?thesis by simp
qed

text \<open>
  The rows of two devices of one client with the same hardware type have one key: of two graphics cards only
  the one that was updated last is shown.
\<close>

theorem same_type_overwritten:
  assumes "device_cache s n1 = Some c1" and "device_cache s n2 = Some c2"
    and "client_folder_name c1 = client_folder_name c2"
    and "dd_hardware_type (cache_info c1) = dd_hardware_type (cache_info c2)"
    and "variant_carries cd mem v1 ds1" and "variant_carries cd mem v2 ds2"
  shows "\<exists>g'. deliver cd mem (device_cache s) [(n1, v1), (n2, v2)] g = Some g' \<and>
    grid_lookup g' = (grid_lookup g)((client_folder_name c1, dd_hardware_type (cache_info c1)) \<mapsto>
      make_row (cache_info c2) (map decoded ds2))"
  using deliver_one[where cache = "device_cache s", OF assms(1) decodeSensorDtos_carries[OF assms(5)], of "[(n2, v2)]" g]
    deliver_one[where cache = "device_cache s", OF assms(2) decodeSensorDtos_carries[OF assms(6)], of "[]"] assms(3,4)
  by (simp add: grid_lookup_update)

definition gpu_cache :: "string \<rightharpoonup> DeviceCache" where
  "gpu_cache = [''a'' \<mapsto> \<lparr>client_folder_name = ''pc'',
       cache_info = \<lparr>dd_name = ''RX 7900'', dd_vendor = ''AMD'', dd_hardware_type = ''GPU''\<rparr>\<rparr>,
     ''b'' \<mapsto> \<lparr>client_folder_name = ''pc'',
       cache_info = \<lparr>dd_name = ''RTX 4090'', dd_vendor = ''NVIDIA'', dd_hardware_type = ''GPU''\<rparr>\<rparr>]"

lemma same_type_overwritten_witness:
  "\<exists>g'. deliver pool_codec Map.empty gpu_cache [(''a'', NullVariant), (''b'', NullVariant)] new_DisplayGrid = Some g' \<and>
     grid_lookup g' (''pc'', ''GPU'') = Some [(''RTX 4090 (GPU)'', [])]"
  using same_type_overwritten[of "(new_control_center ())\<lparr>device_cache := gpu_cache\<rparr>" "''a''" "the (gpu_cache ''a'')"
      "''b''" "the (gpu_cache ''b'')" pool_codec Map.empty NullVariant "[]" NullVariant "[]" new_DisplayGrid]
  by (simp only: control_center.simps) (simp add: gpu_cache_def make_row_def row_header_def del: deliver.simps, metis fun_upd_same)

section \<open>The schedule of the loop\<close>

lemma loop_turns_rate:
  assumes "loop_turns ts sc = (n, sc')" and "\<And>t. t \<in> set ts \<Longrightarrow> t \<le> T" and "n > 0"
  shows "next_render sc + kRenderInterval * (int n - 1) \<le> T"
  using assms
proof (induction ts arbitrary: sc n)
  case (Cons now ts)
  obtain r sc1 where turn: "loop_turn now sc = (r, sc1)" by fastforce
  obtain n1 sc2 where rest: "loop_turns ts sc1 = (n1, sc2)" by fastforce
  have n: "n = (if r then Suc n1 else n1)" and sc2: "sc2 = sc'" using Cons.prems(1) turn rest by auto
  have IH: "n1 > 0 \<Longrightarrow> next_render sc1 + kRenderInterval * (int n1 - 1) \<le> T"
    using Cons.IH[OF rest[unfolded sc2]] Cons.prems(2) by simp
  have r: "r \<Longrightarrow> next_render sc \<le> now \<and> next_render sc + kRenderInterval \<le> next_render sc1"
    "\<not> r \<Longrightarrow> next_render sc1 = next_render sc"
    using turn by (auto simp: loop_turn_def Let_def split: if_splits)
  have "now \<le> T" using Cons.prems(2) by simp
  with n IH r Cons.prems(3) show ?case
    by (cases r; cases n1) (auto simp: kRenderInterval_def algebra_simps)
qed simp

text \<open>
  The display is drawn at most once in two seconds on average, however late the turns of the loop are
  (there is no burst to catch up), and after each turn the next drawing is due in the future, at most two
  seconds away when the turn has drawn.
\<close>

theorem render_rate:
  assumes "loop_turns ts sc = (n, sc')" and "list_all (\<lambda>t. t \<le> T) ts"
  shows "kRenderInterval * int n \<le> max 0 (T - next_render sc + kRenderInterval) \<and>
    (case loop_turn now sc' of (r, sc'') \<Rightarrow>
       now < next_render sc'' \<and> (if r then next_render sc'' \<le> now + kRenderInterval else True) \<and> now \<le> next_tick sc'')"
proof
  show "kRenderInterval * int n \<le> max 0 (T - next_render sc + kRenderInterval)"
  proof (cases "n > 0")
    case True
    have "\<And>t. t \<in> set ts \<Longrightarrow> t \<le> T" using assms(2) by (simp add: list_all_iff)
    from loop_turns_rate[OF assms(1) this True] show ?thesis by (simp add: algebra_simps)
  qed simp
  show "case loop_turn now sc' of (r, sc'') \<Rightarrow>
       now < next_render sc'' \<and> (if r then next_render sc'' \<le> now + kRenderInterval else True) \<and> now \<le> next_tick sc''"
    by (auto simp: loop_turn_def Let_def kRenderInterval_def)
qed

lemma render_rate_witness:
  "kRenderInterval * int 2 \<le> max 0 (5200 - 0 + kRenderInterval)"
proof -
  have t: "loop_turns [0, 100, 5200] \<lparr>next_tick = 0, next_render = 0\<rparr> = (2, \<lparr>next_tick = 5200, next_render = 7200\<rparr>)"
    by (simp add: loop_turn_def kTickCadence_def kRenderInterval_def)
  from render_rate[OF t, where T = 5200] show ?thesis by simp
qed

end
