(* ===== verification/Pki_Config.thy ===== *)
theory Pki_Config
  imports Access_Properties
begin

text \<open>
  How both ends of the OPC UA connection are configured from the files under \<open>pki\<close>: the client base
  class (\<open>CustomClient.cpp\<close>), the server (\<open>server.cpp\<close>) and what both read. The files, the environment
  variable and the calls of the stack that may fail are arguments. The stack's structures hold what the
  code assigns to them; everything else of them is the stack's own.
\<close>

section \<open>Files\<close>

type_synonym path = "string list"

text \<open>What opening a file, asking for its size and reading it gives; \<open>tellg\<close> is -1 when it fails.\<close>

record pki_file =
  file_opens :: bool
  tellg :: int
  content :: "string option"

text \<open>
  \<open>alloc_buffer\<close>: whether \<open>UA_ByteString_allocBuffer\<close> succeeds; else \<open>throwIfBad\<close> throws \<open>BadStatus\<close>,
  which may or may not be a \<open>std::runtime_error\<close>.
\<close>

record disk =
  file_at :: "path \<Rightarrow> pki_file"
  alloc_buffer :: "int \<Rightarrow> bool"
  status_is_runtime_error :: bool

datatype read_error = Not_Opened | Empty_Or_Unreadable | Bad_Status | Read_Failed

definition readBytesFromFile :: "disk \<Rightarrow> path \<Rightarrow> read_error + string" where
  "readBytesFromFile D p =
     (let f = file_at D p in
      if \<not> file_opens f then Inl Not_Opened
      else if tellg f \<le> 0 then Inl Empty_Or_Unreadable
      else if \<not> alloc_buffer D (tellg f) then Inl Bad_Status
      else case content f of None \<Rightarrow> Inl Read_Failed | Some b \<Rightarrow> Inr b)"

text \<open>\<open>AccessControlCustom::parsePki\<close>, the other reader of these files, gives an empty string for what it cannot read.\<close>

definition parsePki :: "disk \<Rightarrow> path \<Rightarrow> string" where
  "parsePki D file =
     (let f = file_at D file in
      if \<not> file_opens f then [] else (case content f of None \<Rightarrow> [] | Some contents \<Rightarrow> contents))"

lemma parsePki_reads: "readBytesFromFile D p = Inr b \<Longrightarrow> parsePki D p = b"
  by (auto simp: readBytesFromFile_def parsePki_def Let_def split: if_splits option.splits)

text \<open>Which errors \<open>catch (const std::runtime_error&)\<close> stops.\<close>

definition caught :: "disk \<Rightarrow> read_error \<Rightarrow> bool" where
  "caught D e \<longleftrightarrow> (e = Bad_Status \<longrightarrow> status_is_runtime_error D)"

text \<open>A list of certificates that keeps what can be read, or the error that is not caught.\<close>

definition read_or_skip :: "disk \<Rightarrow> path \<Rightarrow> read_error + string list" where
  "read_or_skip D p =
     (case readBytesFromFile D p of
        Inr b \<Rightarrow> Inr [b]
      | Inl e \<Rightarrow> if caught D e then Inr [] else Inl e)"

section \<open>The attributes of a client\<close>

text \<open>
  A \<open>UA_ByteString\<close> is a pointer to a block and its bytes. Each block is allocated once, so it is named
  by what it was allocated for; copies of the structure share the block.
\<close>

datatype block = Certificate_Block | Key_Block | Trust_Block nat | Issuer_Block nat

record ua_bytes =
  block_of :: block
  bytes_of :: string

record ClientConfigAttributes =
  certificate :: ua_bytes
  private_key :: ua_bytes
  trust_list :: "ua_bytes list"
  issuer_list :: "ua_bytes list"

definition own_blocks :: "(nat \<Rightarrow> block) \<Rightarrow> string list \<Rightarrow> ua_bytes list" where
  "own_blocks f bs = map (\<lambda>(i, b). \<lparr>block_of = f i, bytes_of = b\<rparr>) (enumerate 0 bs)"

definition device_file :: "path \<Rightarrow> string \<Rightarrow> string \<Rightarrow> path" where
  "device_file project_root nm ext = project_root @ [''pki'', ''devices'', nm, nm @ ext]"

definition getClientConfigAttributes :: "disk \<Rightarrow> path \<Rightarrow> string \<Rightarrow> read_error + ClientConfigAttributes" where
  "getClientConfigAttributes D project_root client_name =
     (case readBytesFromFile D (device_file project_root client_name ''.crt'') of
        Inl e \<Rightarrow> Inl e
      | Inr crt \<Rightarrow>
     (case readBytesFromFile D (device_file project_root client_name ''.key'') of
        Inl e \<Rightarrow> Inl e
      | Inr key \<Rightarrow>
     (case read_or_skip D (device_file project_root ''server'' ''.crt'') of
        Inl e \<Rightarrow> Inl e
      | Inr trust_list_storage \<Rightarrow>
     (case read_or_skip D (project_root @ [''pki'', ''ca'', ''ca.crt'']) of
        Inl e \<Rightarrow> Inl e
      | Inr issuer_list_storage \<Rightarrow>
          Inr \<lparr>certificate = \<lparr>block_of = Certificate_Block, bytes_of = crt\<rparr>,
               private_key = \<lparr>block_of = Key_Block, bytes_of = key\<rparr>,
               trust_list = own_blocks Trust_Block trust_list_storage,
               issuer_list = own_blocks Issuer_Block issuer_list_storage\<rparr>))))"

section \<open>The configuration of a client\<close>

definition SECURITY_POLICY_URI :: string where
  "SECURITY_POLICY_URI = ''http://opcfoundation.org/UA/SecurityPolicy#Basic256Sha256''"

definition TRANSPORT_PROFILE_URI :: string where
  "TRANSPORT_PROFILE_URI = ''http://opcfoundation.org/UA-Profile/Transport/uatcp-uasc-uabinary''"

datatype token_type = Anonymous_Token | Certificate_Token
datatype security_mode = Mode_None | Mode_Sign | Mode_SignAndEncrypt
datatype application_type = Application_Server | Application_Client

record token_policy =
  tp_policyId :: string
  tp_tokenType :: token_type
  tp_securityPolicyUri :: string

text \<open>What \<open>UA_SecurityPolicy_Basic256Sha256\<close> makes: the policy with the local certificate and key.\<close>

record security_policy =
  sp_uri :: string
  sp_certificate :: string
  sp_key :: string

record endpoint =
  ep_url :: string
  ep_securityPolicyUri :: string
  ep_serverCertificate :: ua_bytes
  ep_transportProfileUri :: string
  ep_securityMode :: security_mode
  ep_userIdentityTokens :: "token_policy list"

record application =
  app_name :: string
  app_uri :: string
  app_type :: application_type

record client_config =
  cc_trusted :: "string list"
  cc_issuers :: "string list"
  cc_securityPolicies :: "security_policy list"
  cc_userTokenPolicy :: token_policy
  cc_userIdentityToken :: string
  cc_authSecurityPolicy :: security_policy
  cc_securityPolicyUri :: string
  cc_endpoint :: endpoint
  cc_description :: application

text \<open>
  The calls of the stack that may fail, and the environment variable. \<open>first_policy\<close> and \<open>auth_policy\<close>: whether the
  two policies can be made; \<open>grow_policies\<close>: whether \<open>UA_realloc\<close> succeeds.
\<close>

record stack =
  trustlist_ok :: bool
  grow_policies :: bool
  first_policy :: bool
  auth_policy :: bool
  token_array :: bool
  SERVER_IP :: "string option"

definition basic256 :: "string \<Rightarrow> string \<Rightarrow> security_policy" where
  "basic256 crt key = \<lparr>sp_uri = SECURITY_POLICY_URI, sp_certificate = crt, sp_key = key\<rparr>"

text \<open>\<open>UA_ClientConfig_addSecurityPolicyBasic256Sha256\<close>: whether it returns \<open>GOOD\<close>, and the policies.\<close>

definition addSecurityPolicyBasic256Sha256 ::
  "stack \<Rightarrow> security_policy list \<Rightarrow> string \<Rightarrow> string \<Rightarrow> bool \<times> security_policy list" where
  "addSecurityPolicyBasic256Sha256 S policies crt key =
     (if \<not> grow_policies S then (False, policies)
      else if \<not> first_policy S then (False, policies)
      else (True, policies @ [basic256 crt key]))"

definition configureApplicationDescription :: "string \<Rightarrow> application" where
  "configureApplicationDescription nm =
     \<lparr>app_name = nm, app_uri = ''urn:myorg:telemetry:'' @ nm, app_type = Application_Client\<rparr>"

definition x509_policy :: token_policy where
  "x509_policy = \<lparr>tp_policyId = X509_TOKEN_POLICY_ID, tp_tokenType = Certificate_Token,
                  tp_securityPolicyUri = SECURITY_POLICY_URI\<rparr>"

definition endpoint_url :: "string \<Rightarrow> string" where
  "endpoint_url ip = ''opc.tcp://'' @ ip @ '':4840''"

text \<open>A constructor: it makes its object, throws, or reads where there is no element.\<close>

datatype 'a constructed = Constructed 'a | Threw_Exception | Undefined

record client =
  cfg_attrs :: ClientConfigAttributes
  config :: client_config

definition client_endpoint :: "string \<Rightarrow> ua_bytes \<Rightarrow> endpoint" where
  "client_endpoint ip server_crt =
     \<lparr>ep_url = endpoint_url ip, ep_securityPolicyUri = SECURITY_POLICY_URI, ep_serverCertificate = server_crt,
      ep_transportProfileUri = TRANSPORT_PROFILE_URI, ep_securityMode = Mode_SignAndEncrypt,
      ep_userIdentityTokens = [x509_policy]\<rparr>"

definition CustomClient :: "disk \<Rightarrow> stack \<Rightarrow> path \<Rightarrow> string \<Rightarrow> client constructed" where
  "CustomClient D S project_root client_name =
     (case getClientConfigAttributes D project_root client_name of
        Inl _ \<Rightarrow> Threw_Exception
      | Inr attrs \<Rightarrow>
          let crt = bytes_of (certificate attrs); key = bytes_of (private_key attrs) in
          if \<not> trustlist_ok S then Threw_Exception
          else case addSecurityPolicyBasic256Sha256 S [] crt key of (ok, policies) \<Rightarrow>
          if \<not> ok then Threw_Exception
          else if \<not> auth_policy S then Threw_Exception
          else (case SERVER_IP S of
                  None \<Rightarrow> Threw_Exception
                | Some ip \<Rightarrow>
                    (case trust_list attrs of
                       [] \<Rightarrow> Undefined
                     | server_crt # _ \<Rightarrow>
                         if \<not> token_array S then Threw_Exception
                         else Constructed
                           \<lparr>cfg_attrs = attrs,
                            config = \<lparr>cc_trusted = map bytes_of (trust_list attrs), cc_issuers = map bytes_of (issuer_list attrs),
                              cc_securityPolicies = policies, cc_userTokenPolicy = x509_policy, cc_userIdentityToken = crt,
                              cc_authSecurityPolicy = basic256 crt key, cc_securityPolicyUri = SECURITY_POLICY_URI,
                              cc_endpoint = client_endpoint ip server_crt,
                              cc_description = configureApplicationDescription client_name\<rparr>\<rparr>)))"

section \<open>The end of a client\<close>

text \<open>
  The blocks that the destructor clears, and behind it those that the stack clears with its
  configuration, which is an argument.
\<close>

definition destroy_CustomClient :: "(client_config \<Rightarrow> block list) \<Rightarrow> client \<Rightarrow> block list" where
  "destroy_CustomClient stack_clears c =
     [block_of (certificate (cfg_attrs c)), block_of (private_key (cfg_attrs c))] @
     map block_of (trust_list (cfg_attrs c)) @ map block_of (issuer_list (cfg_attrs c)) @
     stack_clears (config c)"

section \<open>The server\<close>

record ServerConfigAttributes =
  srv_certificate :: string
  srv_private_key :: string
  srv_trust_list :: "string list"
  srv_issuer_list :: "string list"
  srv_revocation_list :: "string list"

text \<open>\<open>readBytesFromFile\<close> on the file of a directory entry, whose bytes the entry carries.\<close>

definition read_entry :: "disk \<Rightarrow> string \<Rightarrow> read_error + string" where
  "read_entry D s =
     (if s = [] then Inl Empty_Or_Unreadable
      else if \<not> alloc_buffer D (int (length s)) then Inl Bad_Status
      else Inr s)"

text \<open>\<open>None\<close>: an exception leaves the loop.\<close>

fun server_trust_list :: "disk \<Rightarrow> listing \<Rightarrow> string list \<Rightarrow> string list option" where
  "server_trust_list D End storage = Some storage"
| "server_trust_list D Throws storage = None"
| "server_trust_list D (Entry e rest) storage =
     (case entry_is_directory e of
        None \<Rightarrow> None
      | Some False \<Rightarrow> server_trust_list D rest storage
      | Some True \<Rightarrow>
          if entry_name e = ''server'' then server_trust_list D rest storage
          else case entry_crt e of
            None \<Rightarrow> server_trust_list D rest storage
          | Some s \<Rightarrow>
              (case read_entry D s of
                 Inr b \<Rightarrow> server_trust_list D rest (storage @ [b])
               | Inl err \<Rightarrow> if caught D err then server_trust_list D rest storage else None))"

definition getServerConfigAttributes :: "disk \<Rightarrow> pki \<Rightarrow> path \<Rightarrow> ServerConfigAttributes option" where
  "getServerConfigAttributes D P project_root =
     (case (readBytesFromFile D (device_file project_root ''server'' ''.crt''),
            readBytesFromFile D (device_file project_root ''server'' ''.key''),
            readBytesFromFile D (project_root @ [''pki'', ''ca'', ''ca.crt''])) of
        (Inr crt, Inr key, Inr ca) \<Rightarrow>
          (case (if devices_is_directory P then server_trust_list D (devices_listing P) [] else Some []) of
             None \<Rightarrow> None
           | Some trusted \<Rightarrow>
               Some \<lparr>srv_certificate = crt, srv_private_key = key, srv_trust_list = trusted, srv_issuer_list = [ca],
                     srv_revocation_list = []\<rparr>)
      | _ \<Rightarrow> None)"

record server_stack =
  session_pki_ok :: bool
  channel_pki_ok :: bool
  server_policy_ok :: bool
  add_endpoint_ok :: bool
  server_token_array :: bool
  server_ip :: "string option"
  added_folder :: "node_id \<Rightarrow> node_id option"
  register_type_ok :: bool

record server =
  sessionPKI :: "string list \<times> string list"
  secureChannelPKI :: "string list \<times> string list"
  srv_securityPolicies :: "security_policy list"
  srv_endpoints :: "endpoint list"
  srv_description :: application
  srv_access :: access_control

definition server_ApplicationDescription :: application where
  "server_ApplicationDescription =
     \<lparr>app_name = ''server'', app_uri = ''urn:myorg:telemetry:'' @ ''server'', app_type = Application_Server\<rparr>"

definition createTelemetryClientsFolder :: "server_stack \<Rightarrow> node_id option" where
  "createTelemetryClientsFolder S =
     added_folder S (string_node_id kTelemetryNamespaceIndex kTelemetryClientsFolderName)"

definition server_endpoint :: "string \<Rightarrow> string \<Rightarrow> endpoint" where
  "server_endpoint ip crt =
     \<lparr>ep_url = endpoint_url ip, ep_securityPolicyUri = SECURITY_POLICY_URI,
      ep_serverCertificate = \<lparr>block_of = Certificate_Block, bytes_of = crt\<rparr>,
      ep_transportProfileUri = TRANSPORT_PROFILE_URI, ep_securityMode = Mode_SignAndEncrypt,
      ep_userIdentityTokens = [x509_policy]\<rparr>"

text \<open>What the access control asks of a token: the one policy that its constructor makes.\<close>

definition user_token_policies :: "token_policy list" where
  "user_token_policies = [x509_policy]"

definition getUserTokenPolicies :: "token_policy list" where
  "getUserTokenPolicies = user_token_policies"

lemma server_offers_policies: "ep_userIdentityTokens (server_endpoint ip crt) = getUserTokenPolicies"
  by (simp add: server_endpoint_def getUserTokenPolicies_def user_token_policies_def)

text \<open>
  The destructor frees the three arrays, unless they are null: \<open>revocation_list\<close> always is, and \<open>trust_list\<close> may be when there
  is no device. The byte strings in them stay allocated.
\<close>

record server_arrays =
  issuer_array :: "nat option"
  trust_array :: "nat option"
  revocation_array :: "nat option"

definition destroy_SystemInfoServer :: "server_arrays \<Rightarrow> nat list" where
  "destroy_SystemInfoServer a = List.map_filter id [issuer_array a, trust_array a, revocation_array a]"

text \<open>The constructor; a null \<open>SERVER_IP\<close> is handed to \<open>std::string\<close>.\<close>

definition SystemInfoServer :: "disk \<Rightarrow> server_stack \<Rightarrow> pki \<Rightarrow> path \<Rightarrow> server constructed" where
  "SystemInfoServer D S P project_root =
     (case getServerConfigAttributes D P project_root of
        None \<Rightarrow> Threw_Exception
      | Some attrs \<Rightarrow>
          if \<not> session_pki_ok S \<or> \<not> channel_pki_ok S \<or> \<not> server_policy_ok S \<or> \<not> add_endpoint_ok S then Threw_Exception
          else (case server_ip S of
                  None \<Rightarrow> Undefined
                | Some ip \<Rightarrow>
                    if \<not> server_token_array S then Threw_Exception
                    else (case createTelemetryClientsFolder S of
                            None \<Rightarrow> Threw_Exception
                          | Some folder \<Rightarrow>
                              if \<not> register_type_ok S then Threw_Exception
                              else Constructed
                                \<lparr>sessionPKI = (srv_trust_list attrs, srv_issuer_list attrs),
                                 secureChannelPKI = (srv_trust_list attrs, srv_issuer_list attrs),
                                 srv_securityPolicies = [basic256 (srv_certificate attrs) (srv_private_key attrs)],
                                 srv_endpoints = [server_endpoint ip (srv_certificate attrs)],
                                 srv_description = server_ApplicationDescription,
                                 srv_access = new_AccessControl folder\<rparr>)))"

section \<open>What a client is bound to\<close>

text \<open>
  C19: A client that has been constructed talks only to the pinned server: its certificate is the one in
  the file of the server, the only one it trusts; every policy is Basic256Sha256 with the client's own
  certificate and key, messages are signed and encrypted, and it identifies itself by that certificate.
\<close>

theorem client_config_secure:
  assumes "CustomClient D S project_root nm = Constructed c"
  shows "\<exists>server_crt crt key ip.
    readBytesFromFile D (device_file project_root ''server'' ''.crt'') = Inr server_crt \<and>
    readBytesFromFile D (device_file project_root nm ''.crt'') = Inr crt \<and>
    readBytesFromFile D (device_file project_root nm ''.key'') = Inr key \<and> SERVER_IP S = Some ip \<and>
    cc_trusted (config c) = [server_crt] \<and> bytes_of (ep_serverCertificate (cc_endpoint (config c))) = server_crt \<and>
    ep_url (cc_endpoint (config c)) = endpoint_url ip \<and>
    ep_securityMode (cc_endpoint (config c)) = Mode_SignAndEncrypt \<and>
    cc_securityPolicies (config c) = [basic256 crt key] \<and> cc_authSecurityPolicy (config c) = basic256 crt key \<and>
    cc_userIdentityToken (config c) = crt \<and> ep_userIdentityTokens (cc_endpoint (config c)) = [x509_policy]"
  using assms
  by (auto simp: CustomClient_def getClientConfigAttributes_def read_or_skip_def own_blocks_def client_endpoint_def
      addSecurityPolicyBasic256Sha256_def Let_def split: sum.splits if_splits option.splits list.splits)

text \<open>
  Without a readable certificate of the server the constructor does not throw: the entry is skipped,
  and the first element of the empty trust list is read, which is undefined.
\<close>

theorem client_without_server_certificate:
  assumes "readBytesFromFile D (device_file project_root ''server'' ''.crt'') = Inl e" and "caught D e"
    and "readBytesFromFile D (device_file project_root nm ''.crt'') = Inr crt"
    and "readBytesFromFile D (device_file project_root nm ''.key'') = Inr key"
    and "readBytesFromFile D (project_root @ [''pki'', ''ca'', ''ca.crt'']) = Inr ca"
    and "trustlist_ok S" and "grow_policies S" and "first_policy S" and "auth_policy S" and "SERVER_IP S = Some ip"
  shows "CustomClient D S project_root nm = Undefined"
  using assms
  by (simp add: CustomClient_def getClientConfigAttributes_def read_or_skip_def own_blocks_def
      addSecurityPolicyBasic256Sha256_def Let_def)

text \<open>
  The certificate of the endpoint shares its bytes with the first entry of the trust list: when the
  stack clears its configuration behind the destructor, the same block is freed a second time.
\<close>

theorem client_certificate_freed_twice:
  assumes "CustomClient D S project_root nm = Constructed c"
    and "block_of (ep_serverCertificate (cc_endpoint (config c))) \<in> set (stack_clears (config c))"
  shows "2 \<le> count_list (destroy_CustomClient stack_clears c) (Trust_Block 0)"
proof -
  from assms(1) have "\<exists>b rest. trust_list (cfg_attrs c) = b # rest \<and> block_of b = Trust_Block 0 \<and>
      block_of (ep_serverCertificate (cc_endpoint (config c))) = Trust_Block 0"
    by (auto simp: CustomClient_def getClientConfigAttributes_def read_or_skip_def own_blocks_def client_endpoint_def
        addSecurityPolicyBasic256Sha256_def Let_def split: sum.splits if_splits option.splits list.splits)
  then obtain b rest where b: "trust_list (cfg_attrs c) = b # rest" "block_of b = Trust_Block 0"
      "Trust_Block 0 \<in> set (stack_clears (config c))" using assms(2) by auto
  then have "0 < count_list (stack_clears (config c)) (Trust_Block 0)"
    by (metis count_list_0_iff gr0I)
  with b(1,2) show ?thesis by (simp add: destroy_CustomClient_def)
qed

section \<open>Whom the server trusts\<close>

definition allocates_all :: "disk \<Rightarrow> bool" where
  "allocates_all D \<longleftrightarrow> (\<forall>n. alloc_buffer D n)"

lemma server_trust_list_enrolled:
  "allocates_all D \<Longrightarrow> server_trust_list D l storage = Some ts \<Longrightarrow> ts = storage @ map snd (enrolled l)"
proof (induction l arbitrary: storage)
  case (Entry e rest)
  then show ?case
    by (fastforce simp: read_entry_def allocates_all_def caught_def split: option.splits bool.splits if_splits)
qed auto

lemma server_trust_list_rest:
  "server_trust_list D (Entry e rest) storage = Some ts \<Longrightarrow>
   entry_is_directory e \<noteq> None \<and> (\<exists>storage. server_trust_list D rest storage = Some ts)"
  by (cases "entry_is_directory e") (auto split: option.splits bool.splits if_splits sum.splits)

lemma search_enrolled:
  "server_trust_list D l storage = Some ts \<Longrightarrow> (\<exists>d. search_devices c c l = Some (Some d)) \<longleftrightarrow> c \<in> snd ` set (enrolled l)"
proof (induction l arbitrary: storage)
  case (Entry e rest)
  from server_trust_list_rest[OF Entry.prems] obtain b where b: "entry_is_directory e = Some b"
      "(\<exists>d. search_devices c c rest = Some (Some d)) \<longleftrightarrow> c \<in> snd ` set (enrolled rest)"
    using Entry.IH by blast
  show ?case
  proof (cases b)
    case True
    show ?thesis
    proof (cases "entry_crt e")
      case None
      with b True show ?thesis by simp
    next
      case (Some crt)
      consider "entry_name e = ''server''" | "entry_name e \<noteq> ''server''" "crt = []"
        | "entry_name e \<noteq> ''server''" "crt \<noteq> []" "crt = c" | "entry_name e \<noteq> ''server''" "crt \<noteq> []" "crt \<noteq> c"
        by blast
      then show ?thesis by cases (use b True Some in simp_all)
    qed
  next
    case False
    with b show ?thesis by simp
  qed
qed simp_all

text \<open>
  C18: The certificates that the secure channel and the session of a constructed server accept are exactly
  those by which the access control recognises a device: both read the same directory, and neither has the
  server's own certificate. All endpoints sign and encrypt under Basic256Sha256, and nobody is activated yet.
\<close>

theorem server_trusts_enrolled:
  assumes "SystemInfoServer D S P project_root = Constructed srv" and "allocates_all D"
  shows "sessionPKI srv = secureChannelPKI srv \<and>
    (crt \<in> set (fst (secureChannelPKI srv)) \<longleftrightarrow> (\<exists>d. findTrustedDevice P crt crt = Some (Some d))) \<and>
    list_all (\<lambda>ep. ep_securityMode ep = Mode_SignAndEncrypt \<and> ep_securityPolicyUri ep = SECURITY_POLICY_URI \<and>
      ep_userIdentityTokens ep = [x509_policy]) (srv_endpoints srv) \<and>
    list_all (\<lambda>sp. sp_uri sp = SECURITY_POLICY_URI) (srv_securityPolicies srv) \<and>
    session_attributes (srv_access srv) = Map.empty"
proof -
  from assms(1) obtain attrs ip folder where a: "getServerConfigAttributes D P project_root = Some attrs"
      and srv: "srv = \<lparr>sessionPKI = (srv_trust_list attrs, srv_issuer_list attrs),
         secureChannelPKI = (srv_trust_list attrs, srv_issuer_list attrs),
         srv_securityPolicies = [basic256 (srv_certificate attrs) (srv_private_key attrs)],
         srv_endpoints = [server_endpoint ip (srv_certificate attrs)],
         srv_description = server_ApplicationDescription, srv_access = new_AccessControl folder\<rparr>"
    by (auto simp: SystemInfoServer_def split: option.splits if_splits)
  from a have t: "(if devices_is_directory P then server_trust_list D (devices_listing P) [] else Some []) =
      Some (srv_trust_list attrs)"
    by (auto simp: getServerConfigAttributes_def split: sum.splits option.splits)
  have "crt \<in> set (srv_trust_list attrs) \<longleftrightarrow> (\<exists>d. findTrustedDevice P crt crt = Some (Some d))"
  proof (cases "devices_is_directory P")
    case True
    with t search_enrolled[of D "devices_listing P" "[]"] server_trust_list_enrolled[OF assms(2), of "devices_listing P" "[]"]
    show ?thesis by (simp add: findTrustedDevice_def)
  next
    case False
    with t show ?thesis by (auto simp: findTrustedDevice_def)
  qed
  then show ?thesis
    by (simp add: srv server_endpoint_def basic256_def new_AccessControl_def)
qed

text \<open>
  C11: A client and a server configured from the same files accept each other: the certificate of an
  enrolled client is on the trust list of the channel, its token passes the activation as that of an enrolled
  device with this certificate, and the server shows the very certificate the client is pinned to.
\<close>

theorem client_and_server_meet:
  assumes "CustomClient D S project_root nm = Constructed c" and "SystemInfoServer D S' P project_root = Constructed srv"
    and "allocates_all D" and "devices_is_directory P"
    and "(nm, cc_userIdentityToken (config c)) \<in> set (enrolled (devices_listing P))"
  shows "cc_userIdentityToken (config c) \<in> set (fst (secureChannelPKI srv)) \<and>
    (\<exists>d s'. activateSession P sid (cc_userIdentityToken (config c))
        (Some \<lparr>policyId = tp_policyId (cc_userTokenPolicy (config c)),
               certificateData = cc_userIdentityToken (config c)\<rparr>) (srv_access srv) = Some (GOOD, s') \<and>
      (d, cc_userIdentityToken (config c)) \<in> set (enrolled (devices_listing P)) \<and>
      s' = set_attributes sid (trusted_attributes d) (srv_access srv)) \<and>
    list_all (\<lambda>ep. bytes_of (ep_serverCertificate ep) = bytes_of (ep_serverCertificate (cc_endpoint (config c))))
      (srv_endpoints srv)"
proof -
  let ?crt = "cc_userIdentityToken (config c)"
  from assms(2) obtain attrs ip folder where a: "getServerConfigAttributes D P project_root = Some attrs"
      and srv: "srv_endpoints srv = [server_endpoint ip (srv_certificate attrs)]"
        "secureChannelPKI srv = (srv_trust_list attrs, srv_issuer_list attrs)"
    by (auto simp: SystemInfoServer_def split: option.splits if_splits)
  from a assms(4) have t: "server_trust_list D (devices_listing P) [] = Some (srv_trust_list attrs)"
      and own: "readBytesFromFile D (device_file project_root ''server'' ''.crt'') = Inr (srv_certificate attrs)"
    by (auto simp: getServerConfigAttributes_def split: sum.splits option.splits)
  have on_list: "?crt \<in> snd ` set (enrolled (devices_listing P))" using assms(5) by force
  from search_enrolled[OF t, of ?crt] this obtain d where d: "search_devices ?crt ?crt (devices_listing P) = Some (Some d)"
    by blast
  have policy: "tp_policyId (cc_userTokenPolicy (config c)) = X509_TOKEN_POLICY_ID"
    and pinned: "bytes_of (ep_serverCertificate (cc_endpoint (config c))) = srv_certificate attrs"
    using assms(1) own
    by (auto simp: CustomClient_def getClientConfigAttributes_def read_or_skip_def own_blocks_def client_endpoint_def
        addSecurityPolicyBasic256Sha256_def x509_policy_def Let_def
        split: sum.splits if_splits option.splits list.splits)
  from d search_devices_Some[OF d] policy assms(4) on_list server_trust_list_enrolled[OF assms(3) t] pinned
  show ?thesis
    by (auto simp: activateSession_def findTrustedDevice_def srv server_endpoint_def)
qed

section \<open>A machine and its server\<close>

definition stored :: "string \<Rightarrow> pki_file" where
  "stored b = \<lparr>file_opens = True, tellg = int (length b), content = Some b\<rparr>"

definition absent :: pki_file where
  "absent = \<lparr>file_opens = False, tellg = -1, content = None\<rparr>"

text \<open>The files of a server and of one device, with or without the server's certificate.\<close>

definition sample_disk :: "bool \<Rightarrow> disk" where
  "sample_disk with_server =
     \<lparr>file_at = (\<lambda>p.
        if last p = ''server.crt'' then (if with_server then stored ''S'' else absent)
        else if last p = ''server.key'' then stored ''SK''
        else if last p = ''ca.crt'' then stored ''CA''
        else if last p = ''pc.crt'' then stored ''PC''
        else if last p = ''pc.key'' then stored ''PK''
        else absent),
      alloc_buffer = (\<lambda>_. True), status_is_runtime_error = False\<rparr>"

definition sample_stack :: stack where
  "sample_stack = \<lparr>trustlist_ok = True, grow_policies = True, first_policy = True, auth_policy = True,
     token_array = True, SERVER_IP = Some ''10.0.0.1''\<rparr>"

definition sample_server_stack :: server_stack where
  "sample_server_stack = \<lparr>session_pki_ok = True, channel_pki_ok = True, server_policy_ok = True, add_endpoint_ok = True,
     server_token_array = True, server_ip = Some ''10.0.0.1'', added_folder = Some, register_type_ok = True\<rparr>"

definition sample_devices :: pki where
  "sample_devices = \<lparr>devices_is_directory = True,
     devices_listing = Entry \<lparr>entry_name = ''server'', entry_is_directory = Some True, entry_crt = Some ''S''\<rparr>
       (Entry \<lparr>entry_name = ''pc'', entry_is_directory = Some True, entry_crt = Some ''PC''\<rparr> End)\<rparr>"

lemma sample_reads:
  "readBytesFromFile (sample_disk b) (device_file [] ''pc'' ''.crt'') = Inr ''PC''"
  "readBytesFromFile (sample_disk b) (device_file [] ''pc'' ''.key'') = Inr ''PK''"
  "readBytesFromFile (sample_disk True) (device_file [] ''server'' ''.crt'') = Inr ''S''"
  "readBytesFromFile (sample_disk False) (device_file [] ''server'' ''.crt'') = Inl Not_Opened"
  "readBytesFromFile (sample_disk b) (device_file [] ''server'' ''.key'') = Inr ''SK''"
  "readBytesFromFile (sample_disk b) [''pki'', ''ca'', ''ca.crt''] = Inr ''CA''"
  by (simp_all add: readBytesFromFile_def sample_disk_def device_file_def stored_def absent_def Let_def)

lemma sample_alloc: "alloc_buffer (sample_disk b) n"
  by (simp add: sample_disk_def)

lemma sample_client:
  "\<exists>c. CustomClient (sample_disk True) sample_stack [] ''pc'' = Constructed c \<and> cc_userIdentityToken (config c) = ''PC'' \<and>
     block_of (ep_serverCertificate (cc_endpoint (config c))) = Trust_Block 0"
  by (simp add: CustomClient_def getClientConfigAttributes_def read_or_skip_def sample_reads own_blocks_def
      addSecurityPolicyBasic256Sha256_def sample_stack_def client_endpoint_def Let_def)

lemma sample_server:
  "\<exists>srv. SystemInfoServer (sample_disk True) sample_server_stack sample_devices [] = Constructed srv"
  by (simp add: SystemInfoServer_def getServerConfigAttributes_def sample_reads sample_devices_def read_entry_def
      sample_server_stack_def createTelemetryClientsFolder_def sample_alloc)

lemma sample_allocates: "allocates_all (sample_disk b)"
  by (simp add: allocates_all_def sample_alloc)

lemma client_config_secure_witness:
  "\<exists>c. CustomClient (sample_disk True) sample_stack [] ''pc'' = Constructed c \<and> cc_trusted (config c) = [''S''] \<and>
     cc_securityPolicies (config c) = [basic256 ''PC'' ''PK'']"
proof -
  from sample_client obtain c where c: "CustomClient (sample_disk True) sample_stack [] ''pc'' = Constructed c" by blast
  from client_config_secure[OF this] c show ?thesis by (auto simp: sample_reads)
qed

lemma client_without_server_certificate_witness: "CustomClient (sample_disk False) sample_stack [] ''pc'' = Undefined"
  by (rule client_without_server_certificate[of _ _ Not_Opened _ "''PC''" "''PK''" "''CA''" _ "''10.0.0.1''"])
     (simp_all add: sample_reads caught_def sample_stack_def)

lemma client_certificate_freed_twice_witness:
  "\<exists>c. CustomClient (sample_disk True) sample_stack [] ''pc'' = Constructed c \<and>
     2 \<le> count_list (destroy_CustomClient (\<lambda>cfg. [block_of (ep_serverCertificate (cc_endpoint cfg))]) c) (Trust_Block 0)"
proof -
  from sample_client obtain c where c: "CustomClient (sample_disk True) sample_stack [] ''pc'' = Constructed c" by blast
  from client_certificate_freed_twice[OF c, of "\<lambda>cfg. [block_of (ep_serverCertificate (cc_endpoint cfg))]"] c
  show ?thesis by auto
qed

lemma server_trusts_enrolled_witness:
  "\<exists>srv. SystemInfoServer (sample_disk True) sample_server_stack sample_devices [] = Constructed srv \<and>
     ''PC'' \<in> set (fst (secureChannelPKI srv)) \<and> ''S'' \<notin> set (fst (secureChannelPKI srv))"
proof -
  from sample_server obtain srv
    where srv: "SystemInfoServer (sample_disk True) sample_server_stack sample_devices [] = Constructed srv" by blast
  from server_trusts_enrolled[OF srv sample_allocates, of "''PC''"] server_trusts_enrolled[OF srv sample_allocates, of "''S''"] srv
  show ?thesis by (simp add: findTrustedDevice_def sample_devices_def)
qed

lemma client_and_server_meet_witness:
  "\<exists>srv s'. SystemInfoServer (sample_disk True) sample_server_stack sample_devices [] = Constructed srv \<and>
     activateSession sample_devices null_node_id ''PC''
       (Some \<lparr>policyId = X509_TOKEN_POLICY_ID, certificateData = ''PC''\<rparr>) (srv_access srv) = Some (GOOD, s')"
proof -
  from sample_server obtain srv
    where srv: "SystemInfoServer (sample_disk True) sample_server_stack sample_devices [] = Constructed srv" by blast
  from sample_client obtain c where c: "CustomClient (sample_disk True) sample_stack [] ''pc'' = Constructed c"
      "cc_userIdentityToken (config c) = ''PC''" by blast
  have "tp_policyId (cc_userTokenPolicy (config c)) = X509_TOKEN_POLICY_ID"
    using c(1) by (auto simp: CustomClient_def x509_policy_def Let_def split: sum.splits if_splits option.splits list.splits prod.splits)
  with client_and_server_meet[OF c(1) srv sample_allocates, of null_node_id] c(2) srv
  show ?thesis by (auto simp: sample_devices_def)
qed

end
