(* ===== verification/Loggers.thy ===== *)
theory Loggers
  imports Pki_Config Float32
begin

text \<open>
  The loggers: \<open>FileLogger.cpp\<close> and \<open>opcua_logging.cpp\<close>, which write lines to a file, and
  \<open>PerformanceLogger.h\<close>, which measures one span at a time and is shared by the threads of a program.
  What the clocks return, the local time and whether a file opens are arguments.
\<close>

section \<open>Lines of text\<close>

text \<open>Both enumerations belong to the OPC UA library; other values than the named ones may occur.\<close>

datatype LogLevel = Level_Trace | Level_Debug | Level_Info | Level_Warning | Level_Error | Level_Fatal | Level_Other int

datatype LogCategory =
  Category_Network | Category_SecureChannel | Category_Session | Category_Server | Category_Client |
  Category_Userland | Category_SecurityPolicy | Category_Other int

fun level_toString :: "LogLevel \<Rightarrow> string" where
  "level_toString Level_Trace = ''trace''"
| "level_toString Level_Debug = ''debug''"
| "level_toString Level_Info = ''info''"
| "level_toString Level_Warning = ''warning''"
| "level_toString Level_Error = ''error''"
| "level_toString Level_Fatal = ''fatal''"
| "level_toString (Level_Other _) = ''unknown''"

fun category_toString :: "LogCategory \<Rightarrow> string" where
  "category_toString Category_Network = ''network''"
| "category_toString Category_SecureChannel = ''channel''"
| "category_toString Category_Session = ''session''"
| "category_toString Category_Server = ''server''"
| "category_toString Category_Client = ''client''"
| "category_toString Category_Userland = ''userland''"
| "category_toString Category_SecurityPolicy = ''securitypolicy''"
| "category_toString (Category_Other _) = ''unknown''"

text \<open>\<open>opcua_logging.cpp\<close> has its own copies.\<close>

abbreviation session_level_toString :: "LogLevel \<Rightarrow> string" where
  "session_level_toString \<equiv> level_toString"

abbreviation session_category_toString :: "LogCategory \<Rightarrow> string" where
  "session_category_toString \<equiv> category_toString"

text \<open>The local time, and the milliseconds of the clock; \<open>put_time\<close> pads every field but the year to two digits.\<close>

record civil_time =
  tm_year :: nat
  tm_mon :: nat
  tm_mday :: nat
  tm_hour :: nat
  tm_min :: nat
  tm_sec :: nat

definition two :: "nat \<Rightarrow> string" where
  "two n = pad_left 2 (CHR ''0'') (show_nat n)"

definition timestampNow :: "civil_time \<Rightarrow> nat \<Rightarrow> string" where
  "timestampNow t now_ms =
     show_nat (tm_year t) @ ''-'' @ two (tm_mon t) @ ''-'' @ two (tm_mday t) @ '' '' @
     two (tm_hour t) @ '':'' @ two (tm_min t) @ '':'' @ two (tm_sec t) @ ''.'' @
     pad_left 3 (CHR ''0'') (show_nat (now_ms mod 1000))"

definition timestampFolderName :: "civil_time \<Rightarrow> string" where
  "timestampFolderName t =
     show_nat (tm_year t) @ ''-'' @ two (tm_mon t) @ ''-'' @ two (tm_mday t) @ ''_'' @
     two (tm_hour t) @ ''-'' @ two (tm_min t) @ ''-'' @ two (tm_sec t)"

definition line_end :: char where
  "line_end = CHR 0x0A"

section \<open>The logger of a client\<close>

record FileLogger =
  min_level :: LogLevel
  stream :: string

text \<open>The constructor creates the directory and empties the file; either may fail, which is thrown.\<close>

definition new_FileLogger :: "bool \<Rightarrow> bool \<Rightarrow> LogLevel \<Rightarrow> FileLogger option" where
  "new_FileLogger directory_made opened level =
     (if directory_made \<and> opened then Some \<lparr>min_level = level, stream = []\<rparr> else None)"

definition log_line :: "civil_time \<times> nat \<Rightarrow> LogLevel \<Rightarrow> LogCategory \<Rightarrow> string \<Rightarrow> string" where
  "log_line now level category msg =
     timestampNow (fst now) (snd now) @ '' ['' @ level_toString level @ ''] ['' @ category_toString category @ ''] '' @
     msg @ [line_end]"

text \<open>\<open>write\<close>, whose lock makes it one step; \<open>code\<close> is the number behind a level.\<close>

definition file_write ::
  "(LogLevel \<Rightarrow> int) \<Rightarrow> civil_time \<times> nat \<Rightarrow> LogLevel \<Rightarrow> LogCategory \<Rightarrow> string \<Rightarrow> FileLogger \<Rightarrow> FileLogger" where
  "file_write code now level category msg f =
     (if code level < code (min_level f) then f
      else f\<lparr>stream := stream f @ log_line now level category msg\<rparr>)"

definition file_write_info :: "(LogLevel \<Rightarrow> int) \<Rightarrow> civil_time \<times> nat \<Rightarrow> string \<Rightarrow> FileLogger \<Rightarrow> FileLogger" where
  "file_write_info code now msg = file_write code now Level_Info Category_Userland msg"

text \<open>The function that the client hands to the stack.\<close>

definition asLogFunction ::
  "(LogLevel \<Rightarrow> int) \<Rightarrow> civil_time \<times> nat \<Rightarrow> LogLevel \<Rightarrow> LogCategory \<Rightarrow> string \<Rightarrow> FileLogger \<Rightarrow> FileLogger" where
  "asLogFunction code now = (\<lambda>level category msg. file_write code now level category msg)"

definition defaultLogPath :: "path \<Rightarrow> string \<Rightarrow> path" where
  "defaultLogPath project_root client_name = project_root @ [''build'', ''logs'', client_name @ ''.log'']"

definition defaultPerfLogPath :: "path \<Rightarrow> string \<Rightarrow> path" where
  "defaultPerfLogPath project_root nm = project_root @ [''build'', ''performance_logs'', nm @ ''.csv'']"

section \<open>The log of a session\<close>

text \<open>
  The file is opened by the first line, in a folder named by that time; when that fails, the call throws
  (\<open>None\<close>) and the next one tries again. \<open>old\<close> is what the file held, as it is opened to append.
\<close>

record session_log =
  session_folder :: path
  session_text :: string

definition open_session :: "path \<Rightarrow> bool \<Rightarrow> string \<Rightarrow> civil_time \<Rightarrow> session_log option" where
  "open_session current_path opened old t =
     (if opened then Some \<lparr>session_folder = current_path @ [''logs'', timestampFolderName t], session_text = old\<rparr>
      else None)"

definition session_write ::
  "session_log option \<Rightarrow> LogLevel \<Rightarrow> LogCategory \<Rightarrow> string \<Rightarrow> session_log option \<Rightarrow> session_log option" where
  "session_write opening level category msg written =
     (case (case written of None \<Rightarrow> opening | Some l \<Rightarrow> Some l) of
        None \<Rightarrow> None
      | Some l \<Rightarrow> Some (l\<lparr>session_text := session_text l @
          ''['' @ session_level_toString level @ ''] '' @ ''['' @ session_category_toString category @ ''] '' @ msg @ [line_end]\<rparr>))"

section \<open>Measuring\<close>

text \<open>A row is the time since the epoch, the label and the duration; rows are lost when the file is not open.\<close>

record PerformanceLogger =
  perf_open :: bool
  perf_rows :: "(int \<times> string \<times> int) list"
  active_label :: string
  start_time :: int

definition new_PerformanceLogger :: "bool \<Rightarrow> PerformanceLogger" where
  "new_PerformanceLogger opened = \<lparr>perf_open = opened, perf_rows = [], active_label = [], start_time = 0\<rparr>"

definition logger_start :: "string \<Rightarrow> int \<Rightarrow> PerformanceLogger \<Rightarrow> PerformanceLogger" where
  "logger_start label now p = p\<lparr>active_label := label, start_time := now\<rparr>"

text \<open>\<open>stop\<close> reads the clock before it takes the lock: \<open>finish\<close> is that time, and this is the part inside the lock.\<close>

definition logger_stop :: "int \<Rightarrow> int \<Rightarrow> PerformanceLogger \<Rightarrow> PerformanceLogger" where
  "logger_stop finish epoch_ms p =
     (if active_label p = [] then p
      else p\<lparr>perf_rows := (if perf_open p then perf_rows p @ [(epoch_ms, active_label p, finish - start_time p)] else perf_rows p),
             active_label := []\<rparr>)"

text \<open>The file: a header and one line for each row; how a duration is printed is an argument.\<close>

definition perf_header :: string where
  "perf_header = ''timestamp,label,duration_ms'' @ [line_end]"

definition perf_file :: "(int \<Rightarrow> string) \<Rightarrow> (int \<Rightarrow> string) \<Rightarrow> PerformanceLogger \<Rightarrow> string" where
  "perf_file show_int show_ms p =
     (if perf_open p
      then perf_header @ concat (map (\<lambda>(e, l, d). show_int e @ '','' @ l @ '','' @ show_ms d @ [line_end]) (perf_rows p))
      else [])"

section \<open>Threads that share it\<close>

text \<open>
  The steps of the threads, in the order in which they take effect: a thread starts a span, reads the
  clock at its end, and enters the lock of \<open>stop\<close>.
\<close>

datatype perf_step = Started string int | Ended nat int | Written nat int

fun perf_run :: "perf_step list \<Rightarrow> PerformanceLogger \<times> (nat \<Rightarrow> int) \<Rightarrow> PerformanceLogger \<times> (nat \<Rightarrow> int)" where
  "perf_run [] st = st"
| "perf_run (Started l t # tr) (p, ends) = perf_run tr (logger_start l t p, ends)"
| "perf_run (Ended i t # tr) (p, ends) = perf_run tr (p, ends(i := t))"
| "perf_run (Written i e # tr) (p, ends) = perf_run tr (logger_stop (ends i) e p, ends)"

section \<open>What a log holds\<close>

type_synonym log_call = "(civil_time \<times> nat) \<times> LogLevel \<times> LogCategory \<times> string"

fun file_writes :: "(LogLevel \<Rightarrow> int) \<Rightarrow> log_call list \<Rightarrow> FileLogger \<Rightarrow> FileLogger" where
  "file_writes code [] f = f"
| "file_writes code ((now, level, category, msg) # cs) f = file_writes code cs (file_write code now level category msg f)"

text \<open>
  In whatever order the threads get the lock, the file holds one whole line for each message at or
  above the minimum level, in that order, and nothing of the others.
\<close>

lemma file_writes_stream:
  "stream (file_writes code cs f) = stream f @
     concat (map (\<lambda>(now, level, category, msg). log_line now level category msg)
                 (filter (\<lambda>(now, level, category, msg). code (min_level f) \<le> code level) cs))"
  by (induction code cs f rule: file_writes.induct) (auto simp: file_write_def)

section \<open>When every measurement is recorded\<close>

fun starts :: "perf_step list \<Rightarrow> nat" where
  "starts [] = 0"
| "starts (Started _ _ # tr) = Suc (starts tr)"
| "starts (_ # tr) = starts tr"

fun writes_of :: "perf_step list \<Rightarrow> nat" where
  "writes_of [] = 0"
| "writes_of (Written _ _ # tr) = Suc (writes_of tr)"
| "writes_of (_ # tr) = writes_of tr"

text \<open>No span starts while another is measured, and none ends twice.\<close>

fun alternates :: "bool \<Rightarrow> perf_step list \<Rightarrow> bool" where
  "alternates measuring [] = True"
| "alternates measuring (Started _ _ # tr) = (\<not> measuring \<and> alternates True tr)"
| "alternates measuring (Ended _ _ # tr) = alternates measuring tr"
| "alternates measuring (Written _ _ # tr) = (measuring \<and> alternates False tr)"

fun labelled :: "perf_step list \<Rightarrow> bool" where
  "labelled [] = True"
| "labelled (Started l _ # tr) = (l \<noteq> [] \<and> labelled tr)"
| "labelled (_ # tr) = labelled tr"

definition rows_after :: "perf_step list \<Rightarrow> PerformanceLogger \<times> (nat \<Rightarrow> int) \<Rightarrow> nat" where
  "rows_after tr st = length (perf_rows (fst (perf_run tr st)))"

definition measuring :: "PerformanceLogger \<Rightarrow> bool" where
  "measuring p \<longleftrightarrow> active_label p \<noteq> []"

lemma rows_after_step:
  "rows_after [] (p, ends) = length (perf_rows p)"
  "rows_after (Started l t # tr) (p, ends) = rows_after tr (logger_start l t p, ends)"
  "rows_after (Ended i t # tr) (p, ends) = rows_after tr (p, ends(i := t))"
  "rows_after (Written i e # tr) (p, ends) = rows_after tr (logger_stop (ends i) e p, ends)"
  by (simp_all add: rows_after_def)

lemmas perf_steps = rows_after_step starts.simps writes_of.simps labelled.simps alternates.simps

lemma logger_measuring:
  "measuring (logger_start l t p) \<longleftrightarrow> l \<noteq> []" "perf_rows (logger_start l t p) = perf_rows p"
  "perf_open (logger_start l t p) = perf_open p"
  "\<not> measuring (logger_stop f e p)" "perf_open (logger_stop f e p) = perf_open p"
  "perf_open p \<Longrightarrow> length (perf_rows (logger_stop f e p)) = length (perf_rows p) + of_bool (measuring p)"
  by (simp_all add: measuring_def logger_start_def logger_stop_def)

text \<open>There are never more rows than starts, nor than stops.\<close>

lemma rows_bounds:
  assumes "labelled tr" and "perf_open p"
  shows "rows_after tr (p, ends) \<le> length (perf_rows p) + of_bool (measuring p) + starts tr"
    and "rows_after tr (p, ends) \<le> length (perf_rows p) + writes_of tr"
  using assms
proof (induction tr arbitrary: p ends)
  case (Cons x tr)
  { case 1
    show ?case
    proof (cases x)
      case (Started l t)
      with Cons.IH(1)[of "logger_start l t p" ends] 1 show ?thesis by (simp add: rows_after_step logger_measuring)
    next
      case (Ended i t)
      with 1 Cons.IH(1)[of p] show ?thesis by (simp only: perf_steps)
    next
      case (Written i e)
      with Cons.IH(1)[of "logger_stop (ends i) e p" ends] 1 show ?thesis by (simp add: rows_after_step logger_measuring)
    qed }
  { case 2
    show ?case
    proof (cases x)
      case (Started l t)
      with Cons.IH(2)[of "logger_start l t p" ends] 2 show ?thesis by (simp add: rows_after_step logger_measuring)
    next
      case (Ended i t)
      with 2 Cons.IH(2)[of p] show ?thesis by (simp only: perf_steps)
    next
      case (Written i e)
      with Cons.IH(2)[of "logger_stop (ends i) e p" ends] 2 show ?thesis
        by (cases "measuring p") (simp_all add: rows_after_step logger_measuring)
    qed }
qed (simp_all add: rows_after_step)

lemma rows_alternating:
  assumes "labelled tr" and "perf_open p" and "alternates (measuring p) tr"
  shows "rows_after tr (p, ends) = length (perf_rows p) + writes_of tr"
  using assms
proof (induction tr arbitrary: p ends)
  case (Cons x tr)
  show ?case
  proof (cases x)
    case (Started l t)
    with Cons.IH[of "logger_start l t p" ends] Cons.prems show ?thesis by (simp add: rows_after_step logger_measuring)
  next
    case (Ended i t)
    with Cons.prems Cons.IH[of p] show ?thesis by (simp only: perf_steps)
  next
    case (Written i e)
    with Cons.IH[of "logger_stop (ends i) e p" ends] Cons.prems show ?thesis
      by (simp add: rows_after_step logger_measuring)
  qed
qed (simp add: rows_after_step)

lemma rows_overlapping:
  assumes "labelled tr" and "perf_open p" and "\<not> alternates (measuring p) tr"
  shows "rows_after tr (p, ends) < length (perf_rows p) + of_bool (measuring p) + starts tr \<or>
    rows_after tr (p, ends) < length (perf_rows p) + writes_of tr"
  using assms
proof (induction tr arbitrary: p ends)
  case (Cons x tr)
  show ?case
  proof (cases x)
    case (Started l t)
    let ?p = "logger_start l t p"
    from Cons.prems Started rows_bounds(1)[of tr ?p ends] Cons.IH[of ?p ends] show ?thesis
      by (cases "measuring p") (auto simp: rows_after_step logger_measuring)
  next
    case (Ended i t)
    with Cons.prems have "labelled tr" "\<not> alternates (measuring p) tr" by (simp_all only: perf_steps not_False_eq_True)
    from Cons.IH[OF this(1) Cons.prems(2) this(2)] show ?thesis unfolding Ended perf_steps .
  next
    case (Written i e)
    let ?p = "logger_stop (ends i) e p"
    from Cons.prems Written rows_bounds(2)[of tr ?p ends] Cons.IH[of ?p ends] show ?thesis
      by (cases "measuring p") (auto simp: rows_after_step logger_measuring)
  qed
qed simp

text \<open>
  C40: Of as many spans as are started and ended, the performance logger records every one exactly when no two
  of them overlap. It holds one label and one start time, so threads that share it, as the workers
  and the client of one program do, lose measurements.
\<close>

theorem perf_complete:
  assumes "labelled tr" and "perf_open p" and "active_label p = []" and "starts tr = writes_of tr"
  shows "rows_after tr (p, ends) = length (perf_rows p) + starts tr \<longleftrightarrow> alternates False tr"
proof -
  from assms(3) have "\<not> measuring p" by (simp add: measuring_def)
  with rows_alternating[OF assms(1,2), of ends] rows_overlapping[OF assms(1,2), of ends] assms(4)
  show ?thesis by (cases "alternates False tr") simp_all
qed

definition two_spans :: "perf_step list" where
  "two_spans =
     [Started ''cpu_loop'' 0, Started ''gpu_loop'' 5, Ended 0 30, Written 0 1000, Ended 1 700, Written 1 1001]"

text \<open>The row that is left has the label of one thread and a time that belongs to neither.\<close>

lemma perf_complete_witness:
  "rows_after two_spans (new_PerformanceLogger True, \<lambda>_. 0) \<noteq> 2 \<and>
   perf_rows (fst (perf_run two_spans (new_PerformanceLogger True, \<lambda>_. 0))) = [(1000, ''gpu_loop'', 25)]"
  using perf_complete[of two_spans "new_PerformanceLogger True" "\<lambda>_. 0"]
  by (simp add: two_spans_def new_PerformanceLogger_def logger_start_def logger_stop_def)

text \<open>The measurements of one thread are recorded with their labels and times.\<close>

definition span :: "nat \<Rightarrow> string \<times> int \<times> int \<times> int \<Rightarrow> perf_step list" where
  "span i = (\<lambda>(l, a, b, e). [Started l a, Ended i b, Written i e])"

lemma perf_spans:
  assumes "\<forall>(l, a, b, e) \<in> set xs. l \<noteq> []" and "perf_open p"
  shows "perf_rows (fst (perf_run (concat (map (span i) xs)) (p, ends))) =
    perf_rows p @ map (\<lambda>(l, a, b, e). (e, l, b - a)) xs"
  using assms
proof (induction xs arbitrary: p ends)
  case (Cons x xs)
  obtain l a b e where x: "x = (l, a, b, e)" by (cases x)
  let ?p = "logger_stop b e (logger_start l a p)"
  have "perf_open ?p" "perf_rows ?p = perf_rows p @ [(e, l, b - a)]"
    using Cons.prems x by (simp_all add: logger_start_def logger_stop_def)
  with Cons.IH[of ?p] Cons.prems x show ?case by (simp add: span_def)
qed simp

end
