(* ===== verification/Control_Program.thy ===== *)
theory Control_Program
  imports Control_Center_Properties Loggers
begin

text \<open>
  The program of the control centre: \<open>main.cpp\<close> with \<open>start\<close> and \<open>tick\<close> of \<open>ControlCenterClient.cpp\<close>. What is
  written to the standard output is part of the result, so that one can read off whether the console is
  given back; what a terminal makes of it is left open, as the frames hold names from the server as they are. Clocks, the stack,
  files and the signal are arguments.
\<close>

section \<open>The console\<close>

definition escape :: "string \<Rightarrow> string" where
  "escape s = CHR 0x1B # s"

text \<open>What \<open>setupConsole\<close> and \<open>restoreConsole\<close> write.\<close>

definition setupConsole :: "string list" where
  "setupConsole = [escape ''[?1049h'', escape ''[?25l'']"

definition restoreConsole :: "string list" where
  "restoreConsole = [escape ''[?25h'', escape ''[?1049l'', escape ''[0m'']"

section \<open>The client\<close>

text \<open>
  The calls: \<open>connect\<close>, the creation of the subscription, \<open>runIterate\<close> with the updates it delivers,
  \<open>disconnect\<close>, the clock, the sleep, and the flag the signal handler clears.
\<close>

record 'w cc_calls =
  ccm_server_ip :: "string option"
  ccm_log_ready :: bool
  ccm_perf_ready :: bool
  ccm_disk :: disk
  ccm_stack :: stack
  ccm_root :: path
  ccm_codec :: codec
  ccm_env :: "'w cc_env"
  ccm_connect :: "string \<Rightarrow> ('w, unit) ua"
  ccm_subscription :: "('w, unit) ua"
  ccm_iterate :: "int \<Rightarrow> ('w, memory \<times> (string \<times> variant) list) ua"
  ccm_now :: "'w \<Rightarrow> int \<times> 'w"
  ccm_sleep_until :: "int \<Rightarrow> 'w \<Rightarrow> 'w"
  ccm_running :: "'w \<Rightarrow> bool \<times> 'w"

definition center_now :: "'w cc_calls \<Rightarrow> 'w control_center \<Rightarrow> int \<times> 'w control_center" where
  "center_now M c = (case ccm_now M (cc_world c) of (t, w) \<Rightarrow> (t, c\<lparr>cc_world := w\<rparr>))"

definition start_center :: "'w cc_calls \<Rightarrow> ('w control_center, unit) ua" where
  "start_center M c =
     (case on_cc (ccm_subscription M) c of
        (None, c) \<Rightarrow> (None, c)
      | (Some _, c) \<Rightarrow>
          (case discoverAndSubscribe (ccm_env M) c of
             (None, c) \<Rightarrow> (None, c)
           | (Some _, c) \<Rightarrow> (case center_now M c of (now, c) \<Rightarrow> (Some (), c\<lparr>last_poll := now\<rparr>))))"

text \<open>How a call can end besides returning: an exception that nobody catches, or a fault.\<close>

datatype 'a attempt = Ok 'a | Uncaught | Broken

text \<open>
  \<open>tick\<close>. The updates arrive inside \<open>runIterate\<close> and go through the sink to the grid; the two calls of the
  performance logger are left out.
\<close>

definition tick ::
  "'w cc_calls \<Rightarrow> int \<Rightarrow> int \<Rightarrow> 'w control_center \<times> display_grid \<Rightarrow> ('w control_center \<times> display_grid) attempt" where
  "tick M io_timeout poll_interval = (\<lambda>(c, g).
     case on_cc (ccm_iterate M io_timeout) c of
       (None, c) \<Rightarrow> Uncaught
     | (Some (mem, updates), c) \<Rightarrow>
         (case deliver (ccm_codec M) mem (device_cache c) updates g of
            None \<Rightarrow> Broken
          | Some g \<Rightarrow>
              (case center_now M c of (now, c) \<Rightarrow>
                 (case poll (ccm_env M) now poll_interval c of
                    (None, c) \<Rightarrow> Uncaught
                  | (Some _, c) \<Rightarrow> Ok (c, g)))))"

section \<open>The program\<close>

record 'w cc_program =
  cp_center :: "'w control_center"
  cp_grid :: display_grid
  cp_schedule :: schedule
  cp_output :: "string list"

definition kIoTimeout :: int where "kIoTimeout = 100"
definition kDiscoveryInterval :: int where "kDiscoveryInterval = 5000"

text \<open>The body of the loop.\<close>

definition main_turn :: "'w cc_calls \<Rightarrow> 'w cc_program \<Rightarrow> 'w cc_program attempt" where
  "main_turn M p =
     (case tick M kIoTimeout kDiscoveryInterval (cp_center p, cp_grid p) of
        Uncaught \<Rightarrow> Uncaught
      | Broken \<Rightarrow> Broken
      | Ok (c, g) \<Rightarrow>
          (case center_now M c of (now, c) \<Rightarrow>
           case loop_turn now (cp_schedule p) of (rendered, sc) \<Rightarrow>
           case (if rendered then renderIfDirty g else (None, g)) of (out, g) \<Rightarrow>
             let nt = next_tick (cp_schedule p) + kTickCadence;
                 c = (if nt > now then c\<lparr>cc_world := ccm_sleep_until M nt (cc_world c)\<rparr> else c)
             in Ok \<lparr>cp_center = c, cp_grid = g, cp_schedule = sc,
                    cp_output = cp_output p @ (case out of None \<Rightarrow> [] | Some s \<Rightarrow> [s])\<rparr>))"

text \<open>\<open>while (g_running)\<close>. The result holds the output also when the loop is left by an exception.\<close>

definition still_running :: "'w cc_calls \<Rightarrow> 'w cc_program \<Rightarrow> bool \<times> 'w cc_program" where
  "still_running M p =
     (case ccm_running M (cc_world (cp_center p)) of
        (b, w) \<Rightarrow> (b, p\<lparr>cp_center := (cp_center p)\<lparr>cc_world := w\<rparr>\<rparr>))"

partial_function (option) main_loop :: "'w cc_calls \<Rightarrow> 'w cc_program \<Rightarrow> (unit attempt \<times> 'w cc_program) option" where
  "main_loop M p =
     (case still_running M p of (running, p) \<Rightarrow>
        if running
        then (case main_turn M p of
                Ok p \<Rightarrow> main_loop M p
              | Uncaught \<Rightarrow> Some (Uncaught, p)
              | Broken \<Rightarrow> Some (Broken, p))
        else Some (Ok (), p))"

definition loop_start :: "int \<Rightarrow> 'w control_center \<Rightarrow> 'w cc_program" where
  "loop_start t c = \<lparr>cp_center = c, cp_grid = new_DisplayGrid,
     cp_schedule = \<lparr>next_tick = t, next_render = t\<rparr>, cp_output = setupConsole\<rparr>"

text \<open>
  \<open>main\<close>: the value it returns and everything written to \<open>stdout\<close>. Whether \<open>disconnect\<close> throws makes
  no difference, as the exception is caught and printed to \<open>stderr\<close>. The clock starts the schedule.
\<close>

definition control_center_main :: "'w cc_calls \<Rightarrow> 'w \<Rightarrow> (int attempt \<times> string list) option" where
  "control_center_main M w =
     (case ccm_server_ip M of
        None \<Rightarrow> Some (Ok 1, setupConsole)
      | Some ip \<Rightarrow>
          if \<not> (ccm_log_ready M \<and> ccm_perf_ready M) then Some (Uncaught, setupConsole)
          else (case CustomClient (ccm_disk M) (ccm_stack M) (ccm_root M) ''control_center'' of
             Threw_Exception \<Rightarrow> Some (Uncaught, setupConsole)
           | Undefined \<Rightarrow> Some (Broken, setupConsole)
           | Constructed _ \<Rightarrow>
               (case ua_bind (on_cc (ccm_connect M (endpoint_url ip))) (\<lambda>_. start_center M) (new_control_center w) of
                  (None, _) \<Rightarrow> Some (Ok 1, setupConsole)
                | (Some _, c) \<Rightarrow>
                    (case center_now M c of (t, c) \<Rightarrow>
                     case main_loop M (loop_start t c) of
                       None \<Rightarrow> None
                     | Some (Ok _, p) \<Rightarrow> Some (Ok 0, cp_output p @ restoreConsole @ [''Shutting down...'' @ newline])
                     | Some (Uncaught, p) \<Rightarrow> Some (Uncaught, cp_output p)
                     | Some (Broken, p) \<Rightarrow> Some (Broken, cp_output p)))))"

section \<open>The turns of the loop\<close>

inductive loop_reaches :: "'w cc_calls \<Rightarrow> 'w cc_program \<Rightarrow> 'w cc_program \<Rightarrow> bool" for M p0 where
  start: "loop_reaches M p0 p0"
| turn: "loop_reaches M p0 p \<Longrightarrow> still_running M p = (True, p') \<Longrightarrow> main_turn M p' = Ok p'' \<Longrightarrow> loop_reaches M p0 p''"

lemma loop_reaches_first:
  "still_running M p = (True, p') \<Longrightarrow> main_turn M p' = Ok p'' \<Longrightarrow> loop_reaches M p'' q \<Longrightarrow> loop_reaches M p q"
  by (rotate_tac 2, induction rule: loop_reaches.induct) (auto intro: loop_reaches.intros)

text \<open>What \<open>main_loop\<close> returns is the state of one of the turns, at which the flag was clear or a call did not return.\<close>

lemma main_loop_ends:
  "main_loop M p = Some res \<Longrightarrow>
   \<exists>q b. loop_reaches M p q \<and> still_running M q = (b, snd res) \<and> (fst res = Ok () \<longleftrightarrow> \<not> b)"
proof (rule main_loop.raw_induct[where P = "\<lambda>M p res. \<exists>q b. loop_reaches M p q \<and>
    still_running M q = (b, snd res) \<and> (fst res = Ok () \<longleftrightarrow> \<not> b)", rotated], assumption, goal_cases)
  case (1 loop M p res)
  obtain b p1 where s: "still_running M p = (b, p1)" by fastforce
  show ?case
  proof (cases "b \<and> (\<exists>p2. main_turn M p1 = Ok p2)")
    case True
    then obtain p2 where t: "main_turn M p1 = Ok p2" by blast
    with 1(3) s True have "loop M p2 = Some res" by simp
    from 1(2)[OF this] obtain q b' where "loop_reaches M p2 q" "still_running M q = (b', snd res)"
        "fst res = Ok () \<longleftrightarrow> \<not> b'" by blast
    moreover from this(1) s t True have "loop_reaches M p q" by (auto intro: loop_reaches_first)
    ultimately show ?thesis by blast
  next
    case False
    with 1(3) s show ?thesis
      by (intro exI[of _ p] exI[of _ b]) (auto intro: loop_reaches.start split: attempt.splits if_splits)
  qed
qed

section \<open>What holds at every turn\<close>

definition is_frame :: "string \<Rightarrow> bool" where
  "is_frame s \<longleftrightarrow> (\<exists>g. s = shown g)"

text \<open>
  One subscription for each device, the rows in the order of a map, only frames written to the
  terminal, and the last one is that of the rows unless a row has changed since.
\<close>

definition loop_inv :: "'w cc_program \<Rightarrow> bool" where
  "loop_inv p \<longleftrightarrow> cc_inv (cp_center p) \<and> grid_wf (cp_grid p) \<and>
     (\<exists>frames. cp_output p = setupConsole @ frames \<and> list_all is_frame frames \<and>
        (dirty (cp_grid p) \<or> (if frames = [] then cp_grid p = new_DisplayGrid else last frames = shown (cp_grid p))))"

lemma center_now_same: "center_now M c = (t, c') \<Longrightarrow> grows c c'"
  by (auto simp: center_now_def intro: grows_same split: prod.splits)

lemma poll_grows: "grows s (snd (poll E now i s))"
  using grower_discover[of E, unfolded grower_def, rule_format, of s]
  by (auto simp: poll_def grows_def split: prod.splits option.splits)

lemma deliver_grid:
  "deliver cd mem cache us g = Some g' \<Longrightarrow> grid_wf g \<Longrightarrow> grid_wf g' \<and> (g' = g \<or> dirty g')"
proof (induction cd mem cache us g arbitrary: g' rule: deliver.induct)
  case (2 cd mem cache nm val us g)
  then consider (skip) "handleSensorUpdate cd mem cache nm val = Some None" "deliver cd mem cache us g = Some g'"
    | (row) c k row where "handleSensorUpdate cd mem cache nm val = Some (Some (c, k, row))"
        "deliver cd mem cache us (grid_update c k row g) = Some g'"
    by (auto split: option.splits prod.splits)
  then show ?case
  proof cases
    case skip
    with 2 show ?thesis by blast
  next
    case row
    from 2(2)[OF row(1) refl refl refl row(2) grid_update_wf[OF 2(4)]] show ?thesis by (auto simp: grid_update_def)
  qed
qed simp

lemma tick_inv:
  assumes "tick M t i (c, g) = Ok (c', g')" and "grid_wf g"
  shows "grows c c'" "grid_wf g' \<and> (g' = g \<or> dirty g')"
proof -
  from assms(1) obtain mem us c1 now c2 u where 1: "on_cc (ccm_iterate M t) c = (Some (mem, us), c1)"
      "deliver (ccm_codec M) mem (device_cache c1) us g = Some g'" "center_now M c1 = (now, c2)"
      "poll (ccm_env M) now i c2 = (Some u, c')"
    by (auto simp: tick_def split: prod.splits option.splits)
  from on_cc_fields[OF 1(1)] have "grows c c1" by (simp add: grows_same)
  moreover have "grows c2 c'" using poll_grows[of c2 "ccm_env M" now i] 1(4) by simp
  ultimately show "grows c c'" using center_now_same[OF 1(3)] grows_trans by blast
  from deliver_grid[OF 1(2) assms(2)] show "grid_wf g' \<and> (g' = g \<or> dirty g')" .
qed

lemma cc_inv_world: "cc_inv (c\<lparr>cc_world := w\<rparr>) = cc_inv c"
  by (simp add: cc_inv_def)

lemma still_running_inv:
  assumes "still_running M p = (b, p')" and "loop_inv p"
  shows "loop_inv p'"
proof -
  from assms(1) obtain w where "p' = p\<lparr>cp_center := (cp_center p)\<lparr>cc_world := w\<rparr>\<rparr>"
    by (auto simp: still_running_def split: prod.splits)
  then have "cc_inv (cp_center p') = cc_inv (cp_center p)" "cp_grid p' = cp_grid p" "cp_output p' = cp_output p"
    by (simp_all add: cc_inv_world)
  with assms(2) show ?thesis unfolding loop_inv_def by (simp only:)
qed

lemma main_turn_inv:
  assumes "main_turn M p = Ok p'" and "loop_inv p"
  shows "loop_inv p'"
proof -
  from assms(1) obtain c g now c1 rendered sc out g1 where t: "tick M kIoTimeout kDiscoveryInterval (cp_center p, cp_grid p) = Ok (c, g)"
      and n: "center_now M c = (now, c1)"
      and r: "(if rendered then renderIfDirty g else (None, g)) = (out, g1)"
      and p': "device_cache (cp_center p') = device_cache c1" "subscriptions (cp_center p') = subscriptions c1"
        "cp_grid p' = g1" "cp_output p' = cp_output p @ (case out of None \<Rightarrow> [] | Some s \<Rightarrow> [s])"
    by (auto simp: main_turn_def Let_def split: attempt.splits prod.splits)
  from assms(2) obtain frames where inv: "cc_inv (cp_center p)" "grid_wf (cp_grid p)" "cp_output p = setupConsole @ frames"
      "list_all is_frame frames"
      "dirty (cp_grid p) \<or> (if frames = [] then cp_grid p = new_DisplayGrid else last frames = shown (cp_grid p))"
    unfolding loop_inv_def by blast
  from grows_inv[OF grows_trans[OF tick_inv(1)[OF t inv(2)] center_now_same[OF n]] inv(1)] have "cc_inv (cp_center p')"
    by (simp add: cc_inv_def p')
  moreover from tick_inv(2)[OF t inv(2)] have g: "grid_wf g" "g = cp_grid p \<or> dirty g" by auto
  have "grid_wf g1 \<and> (case out of None \<Rightarrow> g1 = g \<and> \<not> (rendered \<and> dirty g) | Some s \<Rightarrow> \<not> dirty g1 \<and> s = shown g1)"
    using r g(1) by (auto simp: renderIfDirty_def shown_def split: if_splits)
  ultimately show ?thesis
    using inv(3-5) g(2) unfolding loop_inv_def p'
    by (cases out) (auto simp: is_frame_def intro!: exI[of _ "frames @ (case out of None \<Rightarrow> [] | Some s \<Rightarrow> [s])"])
qed

lemma loop_reaches_inv: "loop_reaches M p0 p \<Longrightarrow> loop_inv p0 \<Longrightarrow> loop_inv p"
  by (induction rule: loop_reaches.induct) (auto intro: main_turn_inv still_running_inv)

lemma start_center_grows: "grows s (snd (start_center M s))"
proof -
  obtain r s1 where 1: "on_cc (ccm_subscription M) s = (r, s1)" by fastforce
  obtain r' s2 where 2: "discoverAndSubscribe (ccm_env M) s1 = (r', s2)" by fastforce
  from on_cc_fields[OF 1] have g1: "grows s s1" by (simp add: grows_same)
  from grower_discover[of "ccm_env M", unfolded grower_def, rule_format, of s1] 2 have g2: "grows s s2"
    using grows_trans[OF g1] by simp
  obtain t s3 where 3: "center_now M s2 = (t, s3)" by fastforce
  from grows_trans[OF g2 center_now_same[OF 3]] have "grows s (s3\<lparr>last_poll := t\<rparr>)"
    by (rule grows_trans) (simp add: grows_same)
  with g1 g2 1 2 3 show ?thesis by (simp add: start_center_def split: option.split)
qed

lemma loop_start_inv:
  assumes "ua_bind (on_cc m) (\<lambda>_. start_center M) (new_control_center w) = (r, c)" and "center_now M c = (t, c')"
  shows "loop_inv (loop_start t c')"
proof -
  have "grower (ua_bind (on_cc m) (\<lambda>_. start_center M))"
    by (intro grower_bind grower_on_cc) (simp add: grower_def start_center_grows)
  with assms(1) have "grows (new_control_center w) c" unfolding grower_def by (metis snd_conv)
  moreover have "cc_inv (new_control_center w)" by (simp add: cc_inv_def new_control_center_def)
  ultimately have "cc_inv c'" using grows_inv grows_trans center_now_same[OF assms(2)] by blast
  then show ?thesis by (simp add: loop_inv_def loop_start_def grid_wf_def new_DisplayGrid_def)
qed

text \<open>
  The stack and the server keep what they watch for this client: one item for each subscription that
  returned, and none of the other calls changes that.
\<close>

definition watched :: "('w \<Rightarrow> node_id list) \<Rightarrow> 'w cc_calls \<Rightarrow> bool" where
  "watched items M \<longleftrightarrow> monitored items (ccm_env M) \<and> (\<forall>url. same_items items (ccm_connect M url)) \<and>
     same_items items (ccm_subscription M) \<and> (\<forall>t. same_items items (ccm_iterate M t)) \<and>
     (\<forall>w. items (snd (ccm_now M w)) = items w) \<and> (\<forall>t w. items (ccm_sleep_until M t w) = items w) \<and>
     (\<forall>w. items (snd (ccm_running M w)) = items w)"

lemma subscribed_all_world: "items w = items (cc_world c) \<Longrightarrow> subscribed_all items (c\<lparr>cc_world := w\<rparr>) = subscribed_all items c"
  by (simp add: subscribed_all_def)

lemma center_now_all:
  assumes "center_now M c = (t, c')" and "watched items M" and "subscribed_all items c"
  shows "subscribed_all items c'"
proof -
  obtain n w where n: "ccm_now M (cc_world c) = (n, w)" by fastforce
  with assms(2) have "items w = items (cc_world c)" unfolding watched_def by (metis snd_conv)
  with n assms(1,3) show ?thesis by (auto simp: center_now_def subscribed_all_world)
qed

lemma start_center_all: "watched items M \<Longrightarrow> keeps_all items (start_center M)"
  unfolding keeps_all_def
proof (intro allI impI)
  fix s x s' assume a: "watched items M" "start_center M s = (Some x, s')" "subscribed_all items s"
  from a(2) obtain u s1 v s2 t s3 where 1: "on_cc (ccm_subscription M) s = (Some u, s1)"
      and 2: "discoverAndSubscribe (ccm_env M) s1 = (Some v, s2)" and 3: "center_now M s2 = (t, s3)" "s' = s3\<lparr>last_poll := t\<rparr>"
    by (auto simp: start_center_def split: prod.splits option.splits)
  from a(1) have q: "same_items items (ccm_subscription M)" "monitored items (ccm_env M)" by (simp_all add: watched_def)
  from keeps_on_cc[OF q(1)] 1 a(3) have "subscribed_all items s1" unfolding keeps_all_def by blast
  with keeps_discover[OF q(2)] 2 have "subscribed_all items s2" unfolding keeps_all_def by blast
  from center_now_all[OF 3(1) a(1) this] show "subscribed_all items s'" by (simp add: 3 subscribed_all_def)
qed

lemma tick_all:
  assumes "tick M t i (c, g) = Ok (c', g')" and "watched items M" and "subscribed_all items c"
  shows "subscribed_all items c'"
proof -
  from assms(1) obtain mem us c1 now c2 u where 1: "on_cc (ccm_iterate M t) c = (Some (mem, us), c1)"
      "center_now M c1 = (now, c2)" "poll (ccm_env M) now i c2 = (Some u, c')"
    by (auto simp: tick_def split: prod.splits option.splits)
  from assms(2) have q: "same_items items (ccm_iterate M t)" "monitored items (ccm_env M)" by (simp_all add: watched_def)
  from keeps_on_cc[OF q(1)] 1(1) assms(3) have "subscribed_all items c1" unfolding keeps_all_def by blast
  from center_now_all[OF 1(2) assms(2) this] keeps_poll[OF q(2)] 1(3) show ?thesis unfolding keeps_all_def by blast
qed

lemma main_turn_all:
  assumes "main_turn M p = Ok p'" and "watched items M" and "subscribed_all items (cp_center p)"
  shows "subscribed_all items (cp_center p')"
proof -
  from assms(1) obtain c g now c1 nt where t: "tick M kIoTimeout kDiscoveryInterval (cp_center p, cp_grid p) = Ok (c, g)"
      and n: "center_now M c = (now, c1)"
      and p': "cp_center p' = (if nt > now then c1\<lparr>cc_world := ccm_sleep_until M nt (cc_world c1)\<rparr> else c1)"
    by (auto simp: main_turn_def Let_def split: attempt.splits prod.splits)
  from center_now_all[OF n assms(2) tick_all[OF t assms(2,3)]] assms(2) show ?thesis
    by (simp add: p' subscribed_all_def watched_def)
qed

lemma still_running_all:
  assumes "still_running M p = (b, p')" and "watched items M" and "subscribed_all items (cp_center p)"
  shows "subscribed_all items (cp_center p')"
proof -
  obtain r w where r: "ccm_running M (cc_world (cp_center p)) = (r, w)" by fastforce
  with assms(2) have "items w = items (cc_world (cp_center p))" unfolding watched_def by (metis snd_conv)
  with r assms show ?thesis by (auto simp: still_running_def subscribed_all_world)
qed

lemma loop_reaches_all:
  "loop_reaches M p0 p \<Longrightarrow> watched items M \<Longrightarrow> subscribed_all items (cp_center p0) \<Longrightarrow> subscribed_all items (cp_center p)"
  by (induction rule: loop_reaches.induct) (blast intro: main_turn_all still_running_all)+

lemma loop_start_all:
  assumes "watched items M" and "items w = []"
    and "ua_bind (on_cc (ccm_connect M url)) (\<lambda>_. start_center M) (new_control_center w) = (Some u, c)"
    and "center_now M c = (t, c')"
  shows "subscribed_all items (cp_center (loop_start t c'))"
proof -
  have "keeps_all items (ua_bind (on_cc (ccm_connect M url)) (\<lambda>_. start_center M))"
    using assms(1) by (intro keeps_bind keeps_on_cc start_center_all) (simp_all add: watched_def)
  moreover have "subscribed_all items (new_control_center w)"
    using assms(2) by (simp add: subscribed_all_def new_control_center_def)
  ultimately have "subscribed_all items c" using assms(3) unfolding keeps_all_def by blast
  from center_now_all[OF assms(4,1) this] show ?thesis by (simp add: loop_start_def)
qed

text \<open>The time a turn reads behind its \<open>tick\<close>.\<close>

definition turn_clock :: "'w cc_calls \<Rightarrow> 'w cc_program \<Rightarrow> int option" where
  "turn_clock M p =
     (case tick M kIoTimeout kDiscoveryInterval (cp_center p, cp_grid p) of
        Ok (c, g) \<Rightarrow> Some (fst (center_now M c))
      | _ \<Rightarrow> None)"

lemma main_turn_renders:
  assumes "main_turn M p = Ok p'"
  shows "\<exists>now. turn_clock M p = Some now \<and> now < next_render (cp_schedule p') \<and>
    (if next_render (cp_schedule p) \<le> now
     then \<not> dirty (cp_grid p') \<and> next_render (cp_schedule p') \<le> now + kRenderInterval
     else cp_output p' = cp_output p \<and> next_render (cp_schedule p') = next_render (cp_schedule p))"
  using assms
  by (auto simp: main_turn_def turn_clock_def loop_turn_def renderIfDirty_def Let_def kRenderInterval_def
      split: attempt.splits prod.splits if_splits)

text \<open>
  C28: At every turn of the control centre's loop, whatever the stack answers and whenever it does, every
  device the client knows has exactly one subscription, and the server watches exactly the sensor nodes of
  these subscriptions; the rows are in the order of the map; nothing but whole frames has been written
  since the console was set up, and the last of them shows the present rows unless a row has come in since
  it was drawn. A turn that ends at or after the time of the next drawing leaves nothing undrawn and puts
  the next drawing at most two seconds ahead; an earlier turn draws nothing and leaves that time.
\<close>

theorem main_loop_invariant:
  assumes "watched items M" and "items w = []"
    and "ua_bind (on_cc (ccm_connect M url)) (\<lambda>_. start_center M) (new_control_center w) = (Some u, c)"
    and "center_now M c = (t, c')" and "loop_reaches M (loop_start t c') p"
  shows "distinct (map snd (subscriptions (cp_center p))) \<and>
    snd ` set (subscriptions (cp_center p)) = dom (device_cache (cp_center p)) \<and>
    items (cc_world (cp_center p)) = map fst (subscriptions (cp_center p)) \<and> grid_wf (cp_grid p) \<and>
    (\<exists>frames. cp_output p = setupConsole @ frames \<and> list_all is_frame frames \<and>
       (dirty (cp_grid p) \<or> (if frames = [] then cp_grid p = new_DisplayGrid else last frames = shown (cp_grid p)))) \<and>
    (\<forall>p1 p2. still_running M p = (True, p1) \<and> main_turn M p1 = Ok p2 \<longrightarrow>
       (\<exists>now. turn_clock M p1 = Some now \<and> now < next_render (cp_schedule p2) \<and>
          (if next_render (cp_schedule p1) \<le> now
           then \<not> dirty (cp_grid p2) \<and> next_render (cp_schedule p2) \<le> now + kRenderInterval
           else cp_output p2 = cp_output p1 \<and> next_render (cp_schedule p2) = next_render (cp_schedule p1))))"
  using loop_reaches_inv[OF assms(5) loop_start_inv[OF assms(3,4)]]
    loop_reaches_all[OF assms(5,1) loop_start_all[OF assms(1-4)]] main_turn_renders[of M]
  unfolding loop_inv_def cc_inv_def subscribed_all_def by blast

section \<open>The output at the end\<close>

text \<open>
  Names go into a frame as they are: whatever a client calls itself is the start of the frame drawn for it,
  escape sequences included.
\<close>

lemma names_printed_raw:
  assumes "NUL \<notin> set name"
  shows "\<exists>rest. shown (grid_update name key row new_DisplayGrid) = kCursorHomeAndClear @ name @ rest"
proof -
  obtain rest where "buildFrame (grid_update name key row new_DisplayGrid) = name @ rest"
    by (auto simp: buildFrame_def grid_update_def new_DisplayGrid_def columns_of_def frame_lines_def header_cell_def)
  moreover have "cstr (name @ rest) = name @ cstr rest"
    unfolding cstr_def by (rule takeWhile_append2) (use assms in auto)
  ultimately show ?thesis by (simp add: shown_def)
qed

text \<open>
  C29: What the control centre writes to its standard output is the two sequences that set the console up,
  then frames, and then, exactly when it ends with 0, the three sequences that give the console back and
  the message that it shuts down. It ends with 0 only when the flag was found clear, that is, when it was
  interrupted; an end with 1, for a missing \<open>SERVER_IP\<close> or a connection that fails, and every exception of
  \<open>tick\<close> write no sequence that gives the console back.
\<close>

theorem terminal_restored:
  assumes "control_center_main M w = Some (r, out)"
  shows "r \<in> {Ok 0, Ok 1, Uncaught, Broken} \<and>
    (\<exists>frames. list_all is_frame frames \<and> (r = Ok 1 \<longrightarrow> frames = []) \<and> set frames \<inter> set restoreConsole = {} \<and>
       out = setupConsole @ frames @
         (if r = Ok 0 then restoreConsole @ [''Shutting down...'' @ newline] else [])) \<and>
    (r = Ok 0 \<longrightarrow> (\<exists>t c p p'. loop_reaches M (loop_start t c) p \<and> still_running M p = (False, p')))"
proof (cases "out = setupConsole \<and> r \<in> {Ok 1, Uncaught, Broken}")
  case True
  then show ?thesis by auto
next
  case False
  with assms obtain ip u c t c' e p where "ua_bind (on_cc (ccm_connect M (endpoint_url ip))) (\<lambda>_. start_center M) (new_control_center w) = (Some u, c)"
      "center_now M c = (t, c')" and l: "main_loop M (loop_start t c') = Some (e, p)"
      and r: "(r, out) = (case e of Ok _ \<Rightarrow> (Ok 0, cp_output p @ restoreConsole @ [''Shutting down...'' @ newline])
        | Uncaught \<Rightarrow> (Uncaught, cp_output p) | Broken \<Rightarrow> (Broken, cp_output p))"
    by (auto simp: control_center_main_def split: option.splits if_splits constructed.splits prod.splits attempt.splits)
  from main_loop_ends[OF l] obtain q b where q: "loop_reaches M (loop_start t c') q" "still_running M q = (b, p)"
      "e = Ok () \<longleftrightarrow> \<not> b" by auto
  with loop_start_inv[OF \<open>ua_bind _ _ _ = _\<close> \<open>center_now M c = _\<close>] have "loop_inv p"
    using loop_reaches_inv still_running_inv by blast
  then obtain frames where f: "cp_output p = setupConsole @ frames" "list_all is_frame frames"
    unfolding loop_inv_def by blast
  from f(2) have "set frames \<inter> set restoreConsole = {}"
    by (auto simp: list_all_iff is_frame_def shown_def kCursorHomeAndClear_def restoreConsole_def escape_def)
  with f q r show ?thesis by (cases e) auto
qed

section \<open>A run of one turn\<close>

text \<open>The world is the number of turns until the interrupt; the server has no folder of clients.\<close>

definition full_disk :: disk where
  "full_disk = \<lparr>file_at = (\<lambda>_. stored ''X''), alloc_buffer = (\<lambda>_. True), status_is_runtime_error = False\<rparr>"

definition empty_server :: "nat cc_env" where
  "empty_server =
     \<lparr>cc_browse = (\<lambda>_ _ _ w. (Some null_node_id, w)), cc_children = (\<lambda>_ w. (Some [], w)),
      cc_browse_name = (\<lambda>_ w. (None, w)), cc_read = (\<lambda>_ w. (None, w)), cc_subscribe = (\<lambda>_ w. (None, w)),
      cc_node_string = (\<lambda>_. [])\<rparr>"

definition sample_calls :: "string option \<Rightarrow> nat cc_calls" where
  "sample_calls ip =
     \<lparr>ccm_server_ip = ip, ccm_log_ready = True, ccm_perf_ready = True, ccm_disk = full_disk, ccm_stack = sample_stack,
      ccm_root = [], ccm_codec = heap_codec, ccm_env = empty_server, ccm_connect = (\<lambda>_ w. (Some (), w)),
      ccm_subscription = (\<lambda>w. (Some (), w)), ccm_iterate = (\<lambda>_ w. (Some (Map.empty, []), w)),
      ccm_now = (\<lambda>w. (1000, w)), ccm_sleep_until = (\<lambda>_ w. w), ccm_running = (\<lambda>w. (w > 0, w - 1))\<rparr>"

lemma sample_calls_fields:
  "ccm_running (sample_calls ip) w = (w > 0, w - 1)" "ccm_now (sample_calls ip) w = (1000, w)"
  "ccm_iterate (sample_calls ip) t w = (Some (Map.empty, []), w)" "ccm_sleep_until (sample_calls ip) t w = w"
  "ccm_env (sample_calls ip) = empty_server" "ccm_subscription (sample_calls ip) w = (Some (), w)"
  by (simp_all add: sample_calls_def)

definition sample_center :: "nat \<Rightarrow> nat control_center" where
  "sample_center w = (new_control_center w)\<lparr>last_poll := 1000\<rparr>"

lemma sample_start:
  "ua_bind (on_cc (\<lambda>w. (Some (), w))) (\<lambda>_. start_center (sample_calls ip)) (new_control_center w) = (Some (), sample_center w)"
  "center_now (sample_calls ip) (sample_center w) = (1000, sample_center w)"
  by (simp_all add: ua_bind_def on_cc_def start_center_def sample_calls_fields discoverAndSubscribe_def empty_server_def
      ua_return_def center_now_def sample_center_def new_control_center_def)

text \<open>
  A server with one device, and an update for it in the first turn. The world counts the turns to come and
  holds the nodes that are watched.
\<close>

definition node_name :: "node_id \<Rightarrow> string" where
  "node_name n = (case ident n of Str s \<Rightarrow> s | _ \<Rightarrow> [])"

definition nodes_under :: "node_id \<Rightarrow> node_id list" where
  "nodes_under n =
     (if node_name n = ''clients'' then [string_node_id 1 ''pc'']
      else if node_name n = ''pc'' then [string_node_id 1 ''cpu'']
      else if node_name n = ''cpu'' then [string_node_id 1 ''name'', string_node_id 1 ''sensors'']
      else [])"

definition one_device :: "(nat \<times> node_id list) cc_env" where
  "one_device =
     \<lparr>cc_browse = (\<lambda>_ _ _ w. (Some (string_node_id 1 ''clients''), w)), cc_children = (\<lambda>n w. (Some (nodes_under n), w)),
      cc_browse_name = (\<lambda>n w. (Some (node_name n), w)), cc_read = (\<lambda>_ w. (Some None, w)),
      cc_subscribe = (\<lambda>n w. (Some (), (fst w, snd w @ [n]))), cc_node_string = node_name\<rparr>"

definition device_calls :: "(nat \<times> node_id list) cc_calls" where
  "device_calls =
     \<lparr>ccm_server_ip = Some ''10.0.0.1'', ccm_log_ready = True, ccm_perf_ready = True, ccm_disk = full_disk,
      ccm_stack = sample_stack, ccm_root = [], ccm_codec = heap_codec, ccm_env = one_device,
      ccm_connect = (\<lambda>_ w. (Some (), w)), ccm_subscription = (\<lambda>w. (Some (), w)),
      ccm_iterate = (\<lambda>_ w. (Some (Map.empty, [(''cpu'', NullVariant)]), w)), ccm_now = (\<lambda>w. (1000, w)),
      ccm_sleep_until = (\<lambda>_ w. w), ccm_running = (\<lambda>w. (fst w > 0, (fst w - 1, snd w)))\<rparr>"

lemma device_calls_fields:
  "ccm_running device_calls w = (fst w > 0, (fst w - 1, snd w))" "ccm_now device_calls w = (1000, w)"
  "ccm_iterate device_calls t w = (Some (Map.empty, [(''cpu'', NullVariant)]), w)" "ccm_sleep_until device_calls t w = w"
  "ccm_env device_calls = one_device" "ccm_subscription device_calls w = (Some (), w)"
  "ccm_connect device_calls url w = (Some (), w)"
  by (simp_all add: device_calls_def)

lemma device_calls_watched: "watched snd device_calls"
  by (simp add: watched_def monitored_def same_items_def device_calls_fields one_device_def)

definition device_center :: "nat \<Rightarrow> (nat \<times> node_id list) control_center" where
  "device_center k =
     \<lparr>cc_world = (k, [string_node_id 1 ''sensors'']),
      device_cache = [''cpu'' \<mapsto> \<lparr>client_folder_name = ''pc'', cache_info = \<lparr>dd_name = [], dd_vendor = [], dd_hardware_type = []\<rparr>\<rparr>],
      subscriptions = [(string_node_id 1 ''sensors'', ''cpu'')], last_poll = 1000\<rparr>"

lemma device_start:
  "ua_bind (on_cc (ccm_connect device_calls [])) (\<lambda>_. start_center device_calls) (new_control_center (k, [])) =
     (Some (), device_center k)"
  "center_now device_calls (device_center k) = (1000, device_center k)"
  by (simp_all add: ua_bind_def on_cc_def start_center_def device_calls_fields discoverAndSubscribe_def one_device_def
      ua_return_def center_now_def device_center_def new_control_center_def nodes_under_def node_name_def string_node_id_def
      discover_device_def add_device_def readDeviceInfo_def readStringNode_def no_ids_def null_node_id_def Let_def)

definition device_row :: display_grid where
  "device_row = grid_update ''pc'' [] [('' ()'', [])] new_DisplayGrid"

lemma device_turn:
  "still_running device_calls (loop_start 1000 (device_center 1)) = (True, loop_start 1000 (device_center 0))"
  "main_turn device_calls (loop_start 1000 (device_center 0)) =
     Ok \<lparr>cp_center = device_center 0, cp_grid = device_row\<lparr>dirty := False\<rparr>,
         cp_schedule = \<lparr>next_tick = 1100, next_render = 3000\<rparr>, cp_output = setupConsole @ [shown device_row]\<rparr>"
proof -
  show "still_running device_calls (loop_start 1000 (device_center 1)) = (True, loop_start 1000 (device_center 0))"
    by (simp add: still_running_def loop_start_def device_center_def device_calls_fields)
  have "decodeSensorDtos heap_codec buildSensorDtoType Map.empty NullVariant = Some []"
    using decodeSensorDtos_carries[of heap_codec Map.empty NullVariant "[]"] by simp
  then have "deliver heap_codec Map.empty (device_cache (device_center 0)) [(''cpu'', NullVariant)] new_DisplayGrid = Some device_row"
    by (simp add: handleSensorUpdate_def device_center_def device_row_def make_row_def row_header_def)
  moreover have "dirty device_row" by (simp add: device_row_def grid_update_def)
  moreover have "ccm_codec device_calls = heap_codec" by (simp add: device_calls_def)
  moreover have "on_cc (ccm_iterate device_calls t) c = (Some (Map.empty, [(''cpu'', NullVariant)]), c)" for t c
    by (simp add: on_cc_def device_calls_fields)
  moreover have "center_now device_calls c = (1000, c)" "poll E 1000 5000 (device_center 0) = (Some (), device_center 0)"
      "(device_center 0)\<lparr>cc_world := ccm_sleep_until device_calls t (cc_world (device_center 0))\<rparr> = device_center 0" for c E t
    by (simp_all add: center_now_def device_calls_fields poll_def device_center_def)
  ultimately show "main_turn device_calls (loop_start 1000 (device_center 0)) =
     Ok \<lparr>cp_center = device_center 0, cp_grid = device_row\<lparr>dirty := False\<rparr>,
         cp_schedule = \<lparr>next_tick = 1100, next_render = 3000\<rparr>, cp_output = setupConsole @ [shown device_row]\<rparr>"
    by (simp add: main_turn_def tick_def loop_turn_def Let_def renderIfDirty_def shown_def loop_start_def
        kTickCadence_def kRenderInterval_def kDiscoveryInterval_def del: deliver.simps)
qed

lemma main_loop_invariant_witness:
  "\<exists>p. loop_reaches device_calls (loop_start 1000 (device_center 1)) p \<and>
     map snd (subscriptions (cp_center p)) = [''cpu''] \<and> dom (device_cache (cp_center p)) = {''cpu''} \<and>
     snd (cc_world (cp_center p)) = [string_node_id 1 ''sensors''] \<and> cp_output p = setupConsole @ [shown (cp_grid p)]"
proof -
  let ?p = "\<lparr>cp_center = device_center 0, cp_grid = device_row\<lparr>dirty := False\<rparr>,
    cp_schedule = \<lparr>next_tick = 1100, next_render = 3000\<rparr>, cp_output = setupConsole @ [shown device_row]\<rparr>"
  have r: "loop_reaches device_calls (loop_start 1000 (device_center 1)) ?p"
    by (rule loop_reaches.turn[OF loop_reaches.start device_turn])
  note inv = main_loop_invariant[OF device_calls_watched _ device_start(1) device_start(2) r]
  have "map snd (subscriptions (cp_center ?p)) = [''cpu'']" by (simp add: device_center_def)
  moreover from inv have "snd ` set (subscriptions (cp_center ?p)) = dom (device_cache (cp_center ?p))"
      "snd (cc_world (cp_center ?p)) = map fst (subscriptions (cp_center ?p))" by simp_all
  moreover have "subscriptions (cp_center ?p) = [(string_node_id 1 ''sensors'', ''cpu'')]" by (simp add: device_center_def)
  ultimately show ?thesis using r by (intro exI[of _ ?p]) simp
qed

lemma sample_ends:
  "control_center_main (sample_calls (Some ''10.0.0.1'')) 0 = Some (Ok 0, setupConsole @ restoreConsole @ [''Shutting down...'' @ newline])"
proof -
  let ?M = "sample_calls (Some ''10.0.0.1'')"
  have fields: "ccm_server_ip ?M = Some ''10.0.0.1''" "ccm_log_ready ?M" "ccm_perf_ready ?M" "ccm_connect ?M ip = (\<lambda>w. (Some (), w))"
      for ip by (simp_all add: sample_calls_def)
  have "\<exists>c. CustomClient (ccm_disk ?M) (ccm_stack ?M) (ccm_root ?M) ''control_center'' = Constructed c"
    by (simp add: sample_calls_def full_disk_def CustomClient_def getClientConfigAttributes_def read_or_skip_def
        readBytesFromFile_def stored_def own_blocks_def addSecurityPolicyBasic256Sha256_def sample_stack_def Let_def)
  moreover have "main_loop ?M (loop_start 1000 (sample_center 0)) = Some (Ok (), loop_start 1000 (sample_center 0))"
    by (subst main_loop.simps)
       (simp add: still_running_def sample_calls_fields loop_start_def sample_center_def new_control_center_def)
  ultimately show ?thesis
    by (auto simp: control_center_main_def fields sample_start) (simp add: loop_start_def)
qed

lemma terminal_restored_witness:
  "(\<exists>frames. list_all is_frame frames \<and> setupConsole @ restoreConsole @ [''Shutting down...'' @ newline] =
      setupConsole @ frames @ restoreConsole @ [''Shutting down...'' @ newline]) \<and>
   control_center_main (sample_calls (Some ''10.0.0.1'')) 0 =
     Some (Ok 0, setupConsole @ restoreConsole @ [''Shutting down...'' @ newline]) \<and>
   control_center_main (sample_calls None) 0 = Some (Ok 1, setupConsole)"
proof -
  have "control_center_main (sample_calls None) 0 = Some (Ok 1, setupConsole)"
    by (simp add: control_center_main_def sample_calls_def)
  with terminal_restored[OF sample_ends] sample_ends show ?thesis by auto
qed

end
