(* ===== verification/Gpu_Nvidia.thy ===== *)
theory Gpu_Nvidia
  imports Sensors
begin

text \<open>
  The metrics of an NVIDIA graphics card (\<open>NvidiaLiveGPUMetrics.cpp\<close>). What the calls of NVAPI leave in
  their structures is an argument; a call that fails only prints, so the code goes on with whatever the
  zero-initialised structure then holds. \<open>None\<close> is a fault of the process: a division by zero, the
  overflow of an \<open>int\<close>, or an index behind the end of an array.
\<close>

section \<open>Temperatures\<close>

record thermal_settings =
  thermal_count :: ULONG
  current_temps :: "int list"

text \<open>The sensors that the loops of both functions visit.\<close>

definition visited_temps :: "thermal_settings \<Rightarrow> int list option" where
  "visited_temps ts =
     (if unat (thermal_count ts) \<le> length (current_temps ts)
      then Some (take (unat (thermal_count ts)) (current_temps ts)) else None)"

fun sum_temps :: "int list \<Rightarrow> int \<Rightarrow> int option" where
  "sum_temps [] acc = Some acc"
| "sum_temps (t # ts) acc =
     (let acc = acc + t in if - (2 ^ 31) \<le> acc \<and> acc < 2 ^ 31 then sum_temps ts acc else None)"

definition avgTemp :: "thermal_settings \<Rightarrow> int option" where
  "avgTemp ts = do {
     temps \<leftarrow> visited_temps ts;
     acc \<leftarrow> sum_temps temps 0;
     if thermal_count ts = 0 then None else Some (c_div acc (sint (thermal_count ts)))
   }"

fun max_temps :: "int list \<Rightarrow> int \<Rightarrow> int" where
  "max_temps [] m = m"
| "max_temps (t # ts) m = max_temps ts (if t > m then t else m)"

definition hotspotTemp :: "thermal_settings \<Rightarrow> int option" where
  "hotspotTemp ts = do { temps \<leftarrow> visited_temps ts; Some (max_temps temps 0) }"

section \<open>The reading\<close>

datatype clock_id = CLOCK_GRAPHICS | CLOCK_MEMORY | CLOCK_PROCESSOR | CLOCK_VIDEO | CLOCK_UNNAMED nat

text \<open>
  \<open>clock_domain\<close> is the array \<open>clk_freq.domain\<close>, \<open>None\<close> behind its end; the flag of a domain or of a
  utilisation is \<open>bIsPresent\<close>. \<open>tach\<close> is \<open>None\<close> when reading the fan fails.
\<close>

record nv_calls =
  handle_set :: bool
  thermal :: thermal_settings
  num_clocks :: ULONG
  pstate_clocks :: "clock_id list"
  clock_domain :: "clock_id \<Rightarrow> (bool \<times> ULONG) option"
  util_graphics :: "bool \<times> ULONG"
  util_frame_buffer :: "bool \<times> ULONG"
  util_video :: "bool \<times> ULONG"
  tach :: "ULONG option"

fun clock_sensor :: "clock_id \<Rightarrow> string option" where
  "clock_sensor CLOCK_GRAPHICS = Some ''GPU Graphics Clock''"
| "clock_sensor CLOCK_MEMORY = Some ''GPU Memory Clock''"
| "clock_sensor CLOCK_PROCESSOR = Some ''GPU Processor Clock''"
| "clock_sensor CLOCK_VIDEO = Some ''GPU Video Clock''"
| "clock_sensor (CLOCK_UNNAMED _) = None"

text \<open>\<open>frequency * 0.001f\<close>\<close>

definition mhz_of :: "ULONG \<Rightarrow> float32" where
  "mhz_of khz = float_mul (float_of_ulong khz) (round32 (1 / 1000))"

definition add_clock :: "clock_id \<Rightarrow> bool \<times> ULONG \<Rightarrow> A_HardwareDevice \<Rightarrow> A_HardwareDevice" where
  "add_clock c d dev =
     (case (fst d, clock_sensor c) of
        (True, Some nm) \<Rightarrow> addSensor CLOCK nm (mhz_of (snd d)) dev
      | _ \<Rightarrow> dev)"

fun add_clocks :: "(clock_id \<Rightarrow> (bool \<times> ULONG) option) \<Rightarrow> clock_id list \<Rightarrow> A_HardwareDevice \<Rightarrow> A_HardwareDevice option" where
  "add_clocks domain [] dev = Some dev"
| "add_clocks domain (c # cs) dev = do { d \<leftarrow> domain c; add_clocks domain cs (add_clock c d dev) }"

definition add_util :: "string \<Rightarrow> bool \<times> ULONG \<Rightarrow> A_HardwareDevice \<Rightarrow> A_HardwareDevice" where
  "add_util nm u dev = (if fst u then addSensor USAGE nm (float_of_ulong (snd u)) dev else dev)"

definition add_fan :: "ULONG option \<Rightarrow> A_HardwareDevice \<Rightarrow> A_HardwareDevice" where
  "add_fan t dev = addSensor FAN_SPEED ''GPU Fan Speed'' (case t of Some rpm \<Rightarrow> float_of_ulong rpm | None \<Rightarrow> 0) dev"

definition fetch_nvidia :: "nv_calls \<Rightarrow> A_HardwareDevice \<Rightarrow> A_HardwareDevice option" where
  "fetch_nvidia n dev =
     (if \<not> handle_set n then Some dev
      else do {
        avg \<leftarrow> avgTemp (thermal n);
        let dev = addSensor TEMPERATURE ''GPU Avg Temp'' (to_float avg) dev;
        hot \<leftarrow> hotspotTemp (thermal n);
        let dev = addSensor TEMPERATURE ''GPU Hotspot Temp'' (to_float hot) dev;
        clocks \<leftarrow> (if unat (num_clocks n) \<le> length (pstate_clocks n)
                   then Some (take (unat (num_clocks n)) (pstate_clocks n)) else None);
        dev \<leftarrow> add_clocks (clock_domain n) clocks dev;
        Some (add_fan (tach n)
               (add_util ''GPU Video Engine Utilization'' (util_video n)
                 (add_util ''GPU Frame Buffer Utilization'' (util_frame_buffer n)
                   (add_util ''GPU Graphics Utilization'' (util_graphics n) dev))))
      })"

section \<open>Sums and maxima\<close>

lemma sum_temps_Some: "sum_temps ts s = Some r \<Longrightarrow> r = s + sum_list ts"
  by (induction ts arbitrary: s) (fastforce simp: Let_def split: if_splits)+

lemma max_temps_ge: "m \<le> max_temps ts m" "t \<in> set ts \<Longrightarrow> t \<le> max_temps ts m"
proof (induction ts arbitrary: m)
  case (Cons a ts)
  { case 1 show ?case using Cons.IH(1)[of "if a > m then a else m"] by (simp split: if_splits)
  next
    case 2 then show ?case using Cons.IH[of "if a > m then a else m"] by (force split: if_splits) }
qed simp_all

lemma max_temps_in: "max_temps ts m = m \<or> max_temps ts m \<in> set ts"
proof (induction ts arbitrary: m)
  case (Cons t ts)
  from Cons[of "if t > m then t else m"] show ?case by (auto split: if_splits)
qed simp

lemma max_temps_Max: "max_temps ts 0 = Max (insert 0 (set ts))"
  by (rule sym, rule Max_eqI) (use max_temps_ge(1)[of 0 ts] max_temps_ge(2)[of _ ts 0] max_temps_in[of ts 0] in auto)

lemma sum_list_le: "(\<And>t. t \<in> set ts \<Longrightarrow> t \<le> (b :: int)) \<Longrightarrow> sum_list ts \<le> int (length ts) * b"
  by (induction ts) (force simp: algebra_simps)+

lemma c_div_le: "s \<le> n * b \<Longrightarrow> 0 < n \<Longrightarrow> 0 \<le> b \<Longrightarrow> c_div s n \<le> b"
proof (cases "0 \<le> s")
  case True
  assume "s \<le> n * b" "0 < n" "0 \<le> b"
  then have "s div n \<le> (n * b) div n" by (intro zdiv_mono1) auto
  with \<open>0 < n\<close> True show ?thesis by (simp add: c_div_nonneg)
qed (use c_div_neg[of s n] in force)

lemma sint_below: "w < 2 ^ 31 \<Longrightarrow> sint (w :: ULONG) = int (unat w)"
  by (simp add: sint_uint word_less_alt signed_take_bit_eq_if_positive bit_iff_odd) (simp add: take_bit_int_eq_self)

lemma avg_Some:
  assumes "avgTemp ts = Some a" and "thermal_count ts < 2 ^ 31"
  shows "\<exists>temps. visited_temps ts = Some temps \<and> temps \<noteq> [] \<and> a = c_div (sum_list temps) (int (length temps))"
  using assms by (auto simp: avgTemp_def visited_temps_def sint_below min_def unat_eq_zero
      dest!: sum_temps_Some split: if_splits bind_splits)

section \<open>The stored values\<close>

definition clock_updates :: "(clock_id \<Rightarrow> (bool \<times> ULONG) option) \<Rightarrow> clock_id list \<Rightarrow> ((string \<times> SensorType) \<times> float32) list" where
  "clock_updates domain cs =
     List.map_filter (\<lambda>c. case (domain c, clock_sensor c) of
        (Some (True, khz), Some nm) \<Rightarrow> Some ((nm, CLOCK), mhz_of khz) | _ \<Rightarrow> None) cs"

definition util_updates :: "string \<Rightarrow> bool \<times> ULONG \<Rightarrow> ((string \<times> SensorType) \<times> float32) list" where
  "util_updates nm u = (if fst u then [((nm, USAGE), float_of_ulong (snd u))] else [])"

text \<open>What a reading stores, in order.\<close>

definition nv_updates :: "nv_calls \<Rightarrow> int \<Rightarrow> int \<Rightarrow> ((string \<times> SensorType) \<times> float32) list" where
  "nv_updates n avg hot =
     [((''GPU Avg Temp'', TEMPERATURE), to_float avg), ((''GPU Hotspot Temp'', TEMPERATURE), to_float hot)] @
     clock_updates (clock_domain n) (take (unat (num_clocks n)) (pstate_clocks n)) @
     util_updates ''GPU Graphics Utilization'' (util_graphics n) @
     util_updates ''GPU Frame Buffer Utilization'' (util_frame_buffer n) @
     util_updates ''GPU Video Engine Utilization'' (util_video n) @
     [((''GPU Fan Speed'', FAN_SPEED), case tach n of Some rpm \<Rightarrow> float_of_ulong rpm | None \<Rightarrow> 0)]"

lemma add_clocks_updates:
  "add_clocks domain cs dev =
     (if list_all (\<lambda>c. domain c \<noteq> None) cs then Some (sensors.upserts (clock_updates domain cs) dev) else None)"
  by (induction cs arbitrary: dev)
     (auto simp: clock_updates_def List.map_filter_simps add_clock_def sensors.upserts_def sensor_upsert_def
       split: option.splits bool.splits)

lemma upserts_append: "sensors.upserts (xs @ ys) s = sensors.upserts ys (sensors.upserts xs s)"
  by (simp add: sensors.upserts_def)

lemma upserts_one: "addSensor t nm v dev = sensors.upserts [((nm, t), v)] dev"
  by (simp add: sensors.upserts_def sensor_upsert_def)

lemma add_util_updates: "add_util nm u dev = sensors.upserts (util_updates nm u) dev"
  by (simp add: add_util_def util_updates_def upserts_one)

lemma fetch_nvidia_updates:
  assumes "handle_set n"
  shows "fetch_nvidia n dev =
    (case (avgTemp (thermal n), hotspotTemp (thermal n)) of
       (Some a, Some h) \<Rightarrow>
         if unat (num_clocks n) \<le> length (pstate_clocks n) \<and>
            list_all (\<lambda>c. clock_domain n c \<noteq> None) (take (unat (num_clocks n)) (pstate_clocks n))
         then Some (sensors.upserts (nv_updates n a h) dev) else None
     | _ \<Rightarrow> None)"
  using assms
  by (simp add: fetch_nvidia_def nv_updates_def add_clocks_updates add_util_updates add_fan_def upserts_one
      upserts_append Let_def split: option.split)

lemma sandwich:
  "map_of (rev l) k = None \<Longrightarrow> (m ++ map_of (rev ([a, b] @ l @ [c]))) k = (m ++ map_of [c, b, a]) k"
  by (simp add: map_add_def split: option.split)

text \<open>The keys of the temperatures occur once in a reading.\<close>

lemma other_updates:
  "x \<in> set (clock_updates domain cs) \<Longrightarrow> snd (fst x) = CLOCK"
  "x \<in> set (util_updates nm u) \<Longrightarrow> snd (fst x) = USAGE"
  by (auto simp: clock_updates_def util_updates_def List.map_filter_def split: option.splits bool.splits if_splits)

lemma map_of_none: "(\<And>x. x \<in> set kvs \<Longrightarrow> fst x \<noteq> k) \<Longrightarrow> map_of (rev kvs) k = None"
  by (force simp: map_of_eq_None_iff)

lemma updates_lookup:
  "sensor_lookup (sensors.upserts (nv_updates n a h) dev) (''GPU Avg Temp'', TEMPERATURE) = Some (to_float a)"
  "sensor_lookup (sensors.upserts (nv_updates n a h) dev) (''GPU Hotspot Temp'', TEMPERATURE) = Some (to_float h)"
  "sensor_lookup (sensors.upserts (nv_updates n a h) dev) (''GPU Fan Speed'', FAN_SPEED) =
     Some (case tach n of Some rpm \<Rightarrow> float_of_ulong rpm | None \<Rightarrow> 0)"
proof -
  define l where "l = clock_updates (clock_domain n) (take (unat (num_clocks n)) (pstate_clocks n)) @
     util_updates ''GPU Graphics Utilization'' (util_graphics n) @
     util_updates ''GPU Frame Buffer Utilization'' (util_frame_buffer n) @
     util_updates ''GPU Video Engine Utilization'' (util_video n)"
  have l: "nv_updates n a h =
      [((''GPU Avg Temp'', TEMPERATURE), to_float a), ((''GPU Hotspot Temp'', TEMPERATURE), to_float h)] @ l @
      [((''GPU Fan Speed'', FAN_SPEED), case tach n of Some rpm \<Rightarrow> float_of_ulong rpm | None \<Rightarrow> 0)]"
    by (simp add: nv_updates_def l_def)
  have other: "snd (fst x) = CLOCK \<or> snd (fst x) = USAGE" if "x \<in> set l" for x
    using that by (auto simp: l_def dest: other_updates)
  from other have "map_of (rev l) (nm, TEMPERATURE) = None" "map_of (rev l) (nm, FAN_SPEED) = None" for nm
    by (intro map_of_none; force)+
  then show "sensor_lookup (sensors.upserts (nv_updates n a h) dev) (''GPU Avg Temp'', TEMPERATURE) = Some (to_float a)"
    "sensor_lookup (sensors.upserts (nv_updates n a h) dev) (''GPU Hotspot Temp'', TEMPERATURE) = Some (to_float h)"
    "sensor_lookup (sensors.upserts (nv_updates n a h) dev) (''GPU Fan Speed'', FAN_SPEED) =
     Some (case tach n of Some rpm \<Rightarrow> float_of_ulong rpm | None \<Rightarrow> 0)"
    unfolding l sensors.lookup_upserts by (simp_all only: sandwich) (simp_all add: map_add_def)
qed

text \<open>
  C38: A reading of an NVIDIA card that ends stores the mean of all its temperatures, rounded towards
  zero, and the highest of them (at least 0), the mean never exceeds the highest, and the fan speed is
  0 when it cannot be read.
\<close>

theorem nvidia_reading:
  assumes "handle_set n" and "fetch_nvidia n dev = Some dev'" and "thermal_count (thermal n) < 2 ^ 31"
  shows "\<exists>temps avg hot. visited_temps (thermal n) = Some temps \<and> temps \<noteq> [] \<and>
    avg = c_div (sum_list temps) (int (length temps)) \<and> hot = Max (insert 0 (set temps)) \<and> avg \<le> hot \<and>
    sensor_lookup dev' (''GPU Avg Temp'', TEMPERATURE) = Some (to_float avg) \<and>
    sensor_lookup dev' (''GPU Hotspot Temp'', TEMPERATURE) = Some (to_float hot) \<and>
    sensor_lookup dev' (''GPU Fan Speed'', FAN_SPEED) =
      Some (case tach n of Some rpm \<Rightarrow> float_of_ulong rpm | None \<Rightarrow> 0)"
proof -
  from assms(1,2) obtain a h where ah: "avgTemp (thermal n) = Some a" "hotspotTemp (thermal n) = Some h"
      and d: "dev' = sensors.upserts (nv_updates n a h) dev"
    by (auto simp: fetch_nvidia_updates split: option.splits if_splits)
  from avg_Some[OF ah(1) assms(3)] obtain temps where t: "visited_temps (thermal n) = Some temps" "temps \<noteq> []"
      "a = c_div (sum_list temps) (int (length temps))" by blast
  from ah(2) t(1) have h: "h = Max (insert 0 (set temps))" by (simp add: hotspotTemp_def max_temps_Max)
  have "a \<le> h" unfolding t(3)
    by (rule c_div_le[OF sum_list_le]) (use t(2) h Max_ge[of "insert 0 (set temps)"] in auto)
  with t h updates_lookup[of n a h dev] show ?thesis unfolding d by blast
qed

definition fits :: "int list \<Rightarrow> bool" where
  "fits temps \<longleftrightarrow> sum_temps temps 0 \<noteq> None"

lemma all_clocks: "list_all (\<lambda>c. f c \<noteq> None) cs \<longleftrightarrow> None \<notin> f ` set cs"
  unfolding list_all_iff image_iff by metis

lemma sum_temps_bounded:
  "list_all (\<lambda>t. \<bar>t\<bar> \<le> B) ts \<Longrightarrow> \<bar>s\<bar> + int (length ts) * B < 2 ^ 31 \<Longrightarrow> 0 \<le> B \<Longrightarrow> sum_temps ts s \<noteq> None"
proof (induction ts arbitrary: s)
  case (Cons t ts)
  then have "\<bar>s + t\<bar> + int (length ts) * B < 2 ^ 31" by (auto simp: algebra_simps)
  moreover have "0 \<le> int (length ts) * B" using Cons.prems by simp
  ultimately have "- (2 ^ 31) \<le> s + t \<and> s + t < 2 ^ 31" by linarith
  with Cons \<open>\<bar>s + t\<bar> + int (length ts) * B < 2 ^ 31\<close> show ?case by simp
qed simp

text \<open>
  C39: A reading of an NVIDIA card faults exactly when the thermal call left no sensor (it failed, or
  the card has none: the mean divides by zero), when it names more sensors or clocks than the arrays
  hold or a clock behind the end of the frequencies, or when the sum of the temperatures overflows.
\<close>

theorem nvidia_faults:
  assumes "handle_set n"
  shows "fetch_nvidia n dev = None \<longleftrightarrow>
    thermal_count (thermal n) = 0 \<or>
    length (current_temps (thermal n)) < unat (thermal_count (thermal n)) \<or>
    \<not> fits (take (unat (thermal_count (thermal n))) (current_temps (thermal n))) \<or>
    length (pstate_clocks n) < unat (num_clocks n) \<or>
    None \<in> clock_domain n ` set (take (unat (num_clocks n)) (pstate_clocks n))"
  unfolding fetch_nvidia_updates[OF assms] all_clocks
  by (auto simp: avgTemp_def hotspotTemp_def visited_temps_def fits_def split: option.splits bind_splits)

definition sample_card :: "int list \<Rightarrow> nv_calls" where
  "sample_card temps =
     \<lparr>handle_set = True, thermal = \<lparr>thermal_count = word_of_nat (length temps), current_temps = temps @ [0]\<rparr>,
      num_clocks = 1, pstate_clocks = [CLOCK_GRAPHICS], clock_domain = (\<lambda>_. Some (True, 1800000)),
      util_graphics = (True, 40), util_frame_buffer = (False, 0), util_video = (True, 0), tach = None\<rparr>"

definition nv_device :: A_HardwareDevice where
  "nv_device = \<lparr>hd_vendor = NVIDIA, hw_type = GPU, hd_name = ''NVIDIA RTX'', dev_sensors = []\<rparr>"

lemma nvidia_reading_witness:
  "\<exists>dev. fetch_nvidia (sample_card [60, 81]) nv_device = Some dev \<and>
     sensor_lookup dev (''GPU Avg Temp'', TEMPERATURE) = Some (to_float 70) \<and>
     sensor_lookup dev (''GPU Hotspot Temp'', TEMPERATURE) = Some (to_float 81) \<and>
     sensor_lookup dev (''GPU Fan Speed'', FAN_SPEED) = Some 0"
proof -
  let ?n = "sample_card [60, 81]"
  have "handle_set ?n" "thermal_count (thermal ?n) < 2 ^ 31"
    by (simp_all add: sample_card_def)
  moreover obtain dev where "fetch_nvidia ?n nv_device = Some dev"
    using \<open>handle_set ?n\<close>
    by (simp add: fetch_nvidia_updates avgTemp_def hotspotTemp_def visited_temps_def sample_card_def)
  moreover have "visited_temps (thermal ?n) = Some [60, 81]" by (simp add: visited_temps_def sample_card_def)
  moreover have "c_div 141 2 = 70" by (simp add: c_div_def)
  ultimately show ?thesis using nvidia_reading[of ?n nv_device dev] by (auto simp: sample_card_def)
qed

lemma nvidia_faults_witness: "fetch_nvidia (sample_card []) nv_device = None"
  using nvidia_faults[of "sample_card []" nv_device] by (simp add: sample_card_def)

end
