(* ===== verification/Gpu_Amd.thy ===== *)
theory Gpu_Amd
  imports Sensors
begin

text \<open>
  The metrics of an AMD graphics card (\<open>AMDLiveGPUMetrics.cpp\<close>): the readings of the Overdrive levels 5,
  6, N and 8 of ADL, each behind its range check, and those of ADLX. The results of the calls of both
  libraries are arguments (each is called at most once in a reading); a null function pointer, a call
  that fails and a call that delivers a value are told apart, and \<open>None\<close> is a call through a null pointer.
\<close>

section \<open>Arithmetic\<close>

text \<open>The literal \<open>0.01f\<close>.\<close>

definition centi :: float32 where
  "centi = round32 (1 / 100)"

section \<open>Range checks\<close>

definition validTemp :: "float32 \<Rightarrow> bool" where "validTemp v \<longleftrightarrow> v > 0 \<and> v < 150"
definition validClock :: "float32 \<Rightarrow> bool" where "validClock v \<longleftrightarrow> v > 0 \<and> v < 10000"
definition validPct :: "float32 \<Rightarrow> bool" where "validPct v \<longleftrightarrow> v \<ge> 0 \<and> v \<le> 100"
definition validPower :: "float32 \<Rightarrow> bool" where "validPower v \<longleftrightarrow> v \<ge> 0 \<and> v < 1000"
definition validFan :: "float32 \<Rightarrow> bool" where "validFan v \<longleftrightarrow> v \<ge> 0 \<and> v < 20000"
definition validVolt :: "float32 \<Rightarrow> bool" where "validVolt v \<longleftrightarrow> v \<ge> 0 \<and> v < 3"

text \<open>The check that the code uses for a sensor of each type, and the update behind it.\<close>

fun valid_for :: "SensorType \<Rightarrow> float32 \<Rightarrow> bool" where
  "valid_for TEMPERATURE v = validTemp v"
| "valid_for CLOCK v = validClock v"
| "valid_for USAGE v = validPct v"
| "valid_for POWER v = validPower v"
| "valid_for FAN_SPEED v = validFan v"
| "valid_for VOLTAGE v = validVolt v"
| "valid_for MEMORY v = True"

definition add_valid :: "SensorType \<Rightarrow> string \<Rightarrow> float32 \<Rightarrow> A_HardwareDevice \<Rightarrow> A_HardwareDevice" where
  "add_valid t nm v dev = (if valid_for t v then addSensor t nm v dev else dev)"

section \<open>Results of the ADL calls\<close>

datatype 'a call = Null | Failed | Result 'a

record activity =
  iEngineClock :: int
  iMemoryClock :: int
  iActivityPercent :: int

record od6_fan =
  fan_is_rpm :: bool
  iFanSpeedRPM :: int

datatype PMLOG =
    PMLOG_CLK_GFXCLK
  | PMLOG_CLK_MEMCLK
  | PMLOG_CLK_SOCCLK
  | PMLOG_CLK_UVDCLK1
  | PMLOG_CLK_UVDCLK2
  | PMLOG_CLK_VCECLK
  | PMLOG_CLK_VCNCLK
  | PMLOG_CLK_VCN1CLK1
  | PMLOG_CLK_VCN1CLK2
  | PMLOG_CLK_FCLK
  | PMLOG_CLK_CPUCLK
  | PMLOG_BUS_SPEED
  | PMLOG_TEMPERATURE_EDGE
  | PMLOG_TEMPERATURE_MEM
  | PMLOG_TEMPERATURE_LIQUID
  | PMLOG_TEMPERATURE_HOTSPOT
  | PMLOG_TEMPERATURE_GFX
  | PMLOG_TEMPERATURE_SOC
  | PMLOG_TEMPERATURE_CPU
  | PMLOG_TEMPERATURE_HOTSPOT_GCD
  | PMLOG_TEMPERATURE_HOTSPOT_MCD
  | PMLOG_FAN_RPM
  | PMLOG_INFO_ACTIVITY_GFX
  | PMLOG_INFO_ACTIVITY_MEM
  | PMLOG_SOC_VOLTAGE
  | PMLOG_GFX_VOLTAGE
  | PMLOG_MEM_VOLTAGE
  | PMLOG_ASIC_POWER
  | PMLOG_SOC_POWER
  | PMLOG_GFX_POWER
  | PMLOG_CPU_POWER
  | PMLOG_BOARD_POWER
  | PMLOG_SSTOTAL_POWERLIMIT
  | PMLOG_SSAPU_POWERLIMIT
  | PMLOG_SSDGPU_POWERLIMIT
  | PMLOG_THROTTLE_PERCENTAGE_TEMP_GFX
  | PMLOG_THROTTLE_PERCENTAGE_TEMP_MEM
  | PMLOG_THROTTLE_PERCENTAGE_TEMP_VR
  | PMLOG_THROTTLE_PERCENTAGE_POWER
  | PMLOG_THROTTLE_PERCENTAGE_TDC
  | PMLOG_THROTTLE_PERCENTAGE_VMAX
  | PMLOG_OTHER int

text \<open>
  \<open>caps2\<close> and \<open>caps1\<close>: whether the call succeeded and the version it leaves in its argument. The calls
  of level 8 are \<open>Null\<close> together, as the code tests all pointers at once. What level 8
  reads is an array indexed by the identifiers the driver lists: \<open>None\<close> is an index outside of it.
\<close>

record adl_calls =
  caps2 :: "(bool \<times> int) option"
  caps1 :: "(int \<Rightarrow> bool \<times> int) option"
  od5_temperature :: "int call"
  od5_activity :: "activity call"
  od5_fanspeed :: "int call"
  od6_temperature :: "int call"
  od6_status :: "activity call"
  od6_power :: "int call"
  od6_fanspeed :: "od6_fan call"
  odn_temperature :: "int call"
  odn_status :: "activity call"
  od8_support :: "int call"
  od8_create :: bool
  od8_start :: bool
  od8_sensors :: "PMLOG list call"
  od8_read :: "(PMLOG \<Rightarrow> (bool \<times> int) option) call"
  adl_err_not_supported :: int

section \<open>Overdrive 5, 6 and N\<close>

definition od_version :: "adl_calls \<Rightarrow> int option" where
  "od_version a =
     (case caps2 a of
        None \<Rightarrow> None
      | Some (True, v) \<Rightarrow> Some v
      | Some (False, v) \<Rightarrow> (case caps1 a of None \<Rightarrow> None | Some f \<Rightarrow> Some (snd (f v))))"

definition temperature_milli :: "int call \<Rightarrow> A_HardwareDevice \<Rightarrow> A_HardwareDevice" where
  "temperature_milli c dev =
     (case c of
        Result t \<Rightarrow> add_valid TEMPERATURE ''Average Core Temperature'' (float_div (to_float t) 1000) dev
      | _ \<Rightarrow> dev)"

definition report_activity :: "activity call \<Rightarrow> A_HardwareDevice \<Rightarrow> A_HardwareDevice" where
  "report_activity c dev =
     (case c of
        Result x \<Rightarrow>
          add_valid USAGE ''Core / Graphics Utilization'' (to_float (iActivityPercent x))
            (add_valid CLOCK ''Memory Clock Speed'' (float_mul (to_float (iMemoryClock x)) centi)
              (add_valid CLOCK ''Core / Graphics Clock Speed'' (float_mul (to_float (iEngineClock x)) centi) dev))
      | _ \<Rightarrow> dev)"

definition fetch_od5 :: "adl_calls \<Rightarrow> A_HardwareDevice \<Rightarrow> A_HardwareDevice" where
  "fetch_od5 a dev =
     (let dev = report_activity (od5_activity a) (temperature_milli (od5_temperature a) dev)
      in case od5_fanspeed a of Result rpm \<Rightarrow> add_valid FAN_SPEED ''Fan Speed'' (to_float rpm) dev | _ \<Rightarrow> dev)"

definition fetch_od6 :: "adl_calls \<Rightarrow> A_HardwareDevice \<Rightarrow> A_HardwareDevice" where
  "fetch_od6 a dev =
     (let dev = report_activity (od6_status a) (temperature_milli (od6_temperature a) dev);
          dev = (case od6_power a of
                   Result mw \<Rightarrow> add_valid POWER ''GPU Power Draw'' (float_div (to_float mw) 1000) dev
                 | _ \<Rightarrow> dev)
      in case od6_fanspeed a of
           Result fan \<Rightarrow> if fan_is_rpm fan then add_valid FAN_SPEED ''Fan Speed'' (to_float (iFanSpeedRPM fan)) dev else dev
         | _ \<Rightarrow> dev)"

definition fetch_odn :: "adl_calls \<Rightarrow> A_HardwareDevice \<Rightarrow> A_HardwareDevice" where
  "fetch_odn a dev = report_activity (odn_status a) (temperature_milli (odn_temperature a) dev)"

section \<open>Overdrive 8\<close>

fun pmlog_sensor :: "PMLOG \<Rightarrow> (SensorType \<times> string) option" where
  "pmlog_sensor PMLOG_CLK_GFXCLK = Some (CLOCK, ''Core Clock Speed'')"
| "pmlog_sensor PMLOG_CLK_MEMCLK = Some (CLOCK, ''Memory Clock Speed'')"
| "pmlog_sensor PMLOG_CLK_SOCCLK = Some (CLOCK, ''SoC Clock Speed'')"
| "pmlog_sensor PMLOG_CLK_UVDCLK1 = Some (CLOCK, ''UVD Clock 1'')"
| "pmlog_sensor PMLOG_CLK_UVDCLK2 = Some (CLOCK, ''UVD Clock 2'')"
| "pmlog_sensor PMLOG_CLK_VCECLK = Some (CLOCK, ''VCE Clock Speed'')"
| "pmlog_sensor PMLOG_CLK_VCNCLK = Some (CLOCK, ''VCN Clock Speed'')"
| "pmlog_sensor PMLOG_CLK_VCN1CLK1 = Some (CLOCK, ''VCN1 Clock 1'')"
| "pmlog_sensor PMLOG_CLK_VCN1CLK2 = Some (CLOCK, ''VCN1 Clock 2'')"
| "pmlog_sensor PMLOG_CLK_FCLK = Some (CLOCK, ''Fabric Clock Speed'')"
| "pmlog_sensor PMLOG_CLK_CPUCLK = Some (CLOCK, ''CPU Clock Speed'')"
| "pmlog_sensor PMLOG_BUS_SPEED = Some (CLOCK, ''PCIe Bus Speed'')"
| "pmlog_sensor PMLOG_TEMPERATURE_EDGE = Some (TEMPERATURE, ''GPU Edge Temperature'')"
| "pmlog_sensor PMLOG_TEMPERATURE_MEM = Some (TEMPERATURE, ''Memory Temperature'')"
| "pmlog_sensor PMLOG_TEMPERATURE_LIQUID = Some (TEMPERATURE, ''Liquid Cooling Temperature'')"
| "pmlog_sensor PMLOG_TEMPERATURE_HOTSPOT = Some (TEMPERATURE, ''GPU Hotspot Temperature'')"
| "pmlog_sensor PMLOG_TEMPERATURE_GFX = Some (TEMPERATURE, ''GFX Temperature'')"
| "pmlog_sensor PMLOG_TEMPERATURE_SOC = Some (TEMPERATURE, ''SoC Temperature'')"
| "pmlog_sensor PMLOG_TEMPERATURE_CPU = Some (TEMPERATURE, ''CPU Temperature'')"
| "pmlog_sensor PMLOG_TEMPERATURE_HOTSPOT_GCD = Some (TEMPERATURE, ''Hotspot GCD Temperature'')"
| "pmlog_sensor PMLOG_TEMPERATURE_HOTSPOT_MCD = Some (TEMPERATURE, ''Hotspot MCD Temperature'')"
| "pmlog_sensor PMLOG_FAN_RPM = Some (FAN_SPEED, ''Fan Speed'')"
| "pmlog_sensor PMLOG_INFO_ACTIVITY_GFX = Some (USAGE, ''GPU Utilization'')"
| "pmlog_sensor PMLOG_INFO_ACTIVITY_MEM = Some (USAGE, ''Memory Utilization'')"
| "pmlog_sensor PMLOG_SOC_VOLTAGE = Some (VOLTAGE, ''SoC Voltage'')"
| "pmlog_sensor PMLOG_GFX_VOLTAGE = Some (VOLTAGE, ''GFX Voltage'')"
| "pmlog_sensor PMLOG_MEM_VOLTAGE = Some (VOLTAGE, ''Memory Voltage'')"
| "pmlog_sensor PMLOG_ASIC_POWER = Some (POWER, ''ASIC Power'')"
| "pmlog_sensor PMLOG_SOC_POWER = Some (POWER, ''SoC Power'')"
| "pmlog_sensor PMLOG_GFX_POWER = Some (POWER, ''GFX Power'')"
| "pmlog_sensor PMLOG_CPU_POWER = Some (POWER, ''CPU Power'')"
| "pmlog_sensor PMLOG_BOARD_POWER = Some (POWER, ''Board Power'')"
| "pmlog_sensor PMLOG_SSTOTAL_POWERLIMIT = Some (POWER, ''Total Power Limit'')"
| "pmlog_sensor PMLOG_SSAPU_POWERLIMIT = Some (POWER, ''APU Power Limit'')"
| "pmlog_sensor PMLOG_SSDGPU_POWERLIMIT = Some (POWER, ''dGPU Power Limit'')"
| "pmlog_sensor PMLOG_THROTTLE_PERCENTAGE_TEMP_GFX = Some (USAGE, ''Throttle % (GFX Temp)'')"
| "pmlog_sensor PMLOG_THROTTLE_PERCENTAGE_TEMP_MEM = Some (USAGE, ''Throttle % (Mem Temp)'')"
| "pmlog_sensor PMLOG_THROTTLE_PERCENTAGE_TEMP_VR = Some (USAGE, ''Throttle % (VR Temp)'')"
| "pmlog_sensor PMLOG_THROTTLE_PERCENTAGE_POWER = Some (USAGE, ''Throttle % (Power)'')"
| "pmlog_sensor PMLOG_THROTTLE_PERCENTAGE_TDC = Some (USAGE, ''Throttle % (TDC)'')"
| "pmlog_sensor PMLOG_THROTTLE_PERCENTAGE_VMAX = Some (USAGE, ''Throttle % (Vmax)'')"
| "pmlog_sensor (PMLOG_OTHER n) = None"

text \<open>The index is not checked: \<open>None\<close> is a read outside of the array.\<close>

definition pmlog_entry ::
  "(PMLOG \<Rightarrow> (bool \<times> int) option) \<Rightarrow> PMLOG \<Rightarrow> A_HardwareDevice \<Rightarrow> A_HardwareDevice option" where
  "pmlog_entry data sensor_id dev =
     (case data sensor_id of
        None \<Rightarrow> None
      | Some (supported, value) \<Rightarrow>
          Some (if \<not> supported then dev
                else case pmlog_sensor sensor_id of
                       None \<Rightarrow> dev
                     | Some (t, nm) \<Rightarrow> add_valid t nm (to_float value) dev))"

fun pmlog_entries ::
  "(PMLOG \<Rightarrow> (bool \<times> int) option) \<Rightarrow> PMLOG list \<Rightarrow> A_HardwareDevice \<Rightarrow> A_HardwareDevice option" where
  "pmlog_entries data [] dev = Some dev"
| "pmlog_entries data (i # ids) dev = Option.bind (pmlog_entry data i dev) (pmlog_entries data ids)"

text \<open>The calls that take and release resources, in order.\<close>

datatype pm_call = CreateDevice | StartLog | StopLog | DestroyDevice

definition fetch_od8 :: "adl_calls \<Rightarrow> int \<Rightarrow> A_HardwareDevice \<Rightarrow> (pm_call list \<times> A_HardwareDevice) option" where
  "fetch_od8 a od_ver dev =
     (if od_ver \<ge> 8 then
        (case od8_support a of
           Result sharememory_supported \<Rightarrow>
             if sharememory_supported \<noteq> adl_err_not_supported a \<and> od8_create a then
               (if od8_start a then
                  map_option (Pair [CreateDevice, StartLog, StopLog, DestroyDevice])
                    (case od8_sensors a of
                       Result sensor_list \<Rightarrow>
                         (case od8_read a of
                            Result data \<Rightarrow> pmlog_entries data sensor_list dev
                          | _ \<Rightarrow> Some dev)
                     | _ \<Rightarrow> Some dev)
                else Some ([CreateDevice, DestroyDevice], dev))
             else Some ([], dev)
         | _ \<Rightarrow> Some ([], dev))
      else Some ([], dev))"

definition fetchADLMetrics :: "adl_calls \<Rightarrow> A_HardwareDevice \<Rightarrow> (pm_call list \<times> A_HardwareDevice) option" where
  "fetchADLMetrics a dev =
     (case od_version a of
        None \<Rightarrow> None
      | Some v \<Rightarrow> fetch_od8 a v (fetch_odn a (fetch_od6 a (fetch_od5 a dev))))"

section \<open>ADLX\<close>

text \<open>
  A metric of ADLX: what the query of its support writes to the flag (\<open>None\<close> when the call fails and
  leaves the flag of the metric before), and its value, unless reading it fails.
\<close>

record 'a adlx_metric =
  is_supported :: "bool option"
  metric_value :: "'a option"

record adlx_calls =
  adlx_available :: bool
  adlx_edge :: "rat adlx_metric"
  adlx_hotspot :: "rat adlx_metric"
  adlx_clock :: "int adlx_metric"
  adlx_vram_clock :: "int adlx_metric"
  adlx_usage :: "rat adlx_metric"
  adlx_vram_supported :: "bool option"
  adlx_vram_used :: "int option"
  adlx_vram_range :: "int option"
  adlx_fan :: "int adlx_metric"

definition query_flag :: "bool option \<Rightarrow> bool \<Rightarrow> bool" where
  "query_flag q supported = (case q of Some b \<Rightarrow> b | None \<Rightarrow> supported)"

definition adlx_sensor ::
  "('a \<Rightarrow> rat) \<Rightarrow> SensorType \<Rightarrow> string \<Rightarrow> 'a adlx_metric \<Rightarrow> bool \<times> A_HardwareDevice \<Rightarrow> bool \<times> A_HardwareDevice" where
  "adlx_sensor conv t nm x st =
     (case st of (supported, dev) \<Rightarrow>
       let supported = query_flag (is_supported x) supported
       in (supported,
           if supported then (case metric_value x of Some v \<Rightarrow> addSensor t nm (round32 (conv v)) dev | None \<Rightarrow> dev)
           else dev))"

text \<open>The memory in use: both values start as 0, and what fails leaves them.\<close>

definition adlx_vram :: "adlx_calls \<Rightarrow> bool \<times> A_HardwareDevice \<Rightarrow> bool \<times> A_HardwareDevice" where
  "adlx_vram x st =
     (case st of (supported, dev) \<Rightarrow>
       let supported = query_flag (adlx_vram_supported x) supported;
           used = (case adlx_vram_used x of Some u \<Rightarrow> u | None \<Rightarrow> 0);
           vram_max = (case adlx_vram_range x of Some u \<Rightarrow> u | None \<Rightarrow> 0)
       in (supported,
           if supported \<and> vram_max > 0
           then addSensor USAGE ''Frame Buffer Utilization''
                  (float_mul (float_div (to_float used) (to_float vram_max)) 100) dev
           else dev))"

definition fetchADLXMetrics :: "adlx_calls \<Rightarrow> A_HardwareDevice \<Rightarrow> A_HardwareDevice" where
  "fetchADLXMetrics x dev =
     (if \<not> adlx_available x then dev
      else snd (adlx_sensor of_int FAN_SPEED ''Fan Speed'' (adlx_fan x)
           (adlx_vram x
           (adlx_sensor id USAGE ''GPU Utilization'' (adlx_usage x)
           (adlx_sensor of_int CLOCK ''Memory Clock Speed'' (adlx_vram_clock x)
           (adlx_sensor of_int CLOCK ''Core Clock Speed'' (adlx_clock x)
           (adlx_sensor id TEMPERATURE ''GPU Hotspot Temperature'' (adlx_hotspot x)
           (adlx_sensor id TEMPERATURE ''GPU Edge Temperature'' (adlx_edge x) (False, dev)))))))))"

section \<open>Ranges\<close>

definition in_range :: "A_HardwareDevice \<Rightarrow> bool" where
  "in_range dev \<longleftrightarrow> list_all (\<lambda>d. valid_for (sensor_type d) (sensor_value d)) (dev_sensors dev)"

text \<open>What every stored value keeps, a whole reading keeps.\<close>

locale reading_invariant =
  fixes I :: "A_HardwareDevice \<Rightarrow> bool"
  assumes stores: "I dev \<Longrightarrow> valid_for t v \<Longrightarrow> I (addSensor t nm v dev)"
begin

lemma add_valid: "I dev \<Longrightarrow> I (add_valid t nm v dev)"
  by (simp add: add_valid_def stores)

lemma activity: "I dev \<Longrightarrow> I (report_activity c dev)"
  by (cases c) (auto simp: report_activity_def add_valid)

lemma temperature: "I dev \<Longrightarrow> I (temperature_milli c dev)"
  by (cases c) (auto simp: temperature_milli_def add_valid)

lemma levels: "I dev \<Longrightarrow> I (fetch_od5 a dev)" "I dev \<Longrightarrow> I (fetch_od6 a dev)" "I dev \<Longrightarrow> I (fetch_odn a dev)"
  by (auto simp: fetch_od5_def fetch_od6_def fetch_odn_def Let_def add_valid activity temperature split: call.split)

lemma pmlog: "pmlog_entries data ids dev = Some dev' \<Longrightarrow> I dev \<Longrightarrow> I dev'"
proof (induction ids arbitrary: dev)
  case (Cons i ids)
  then obtain d where d: "pmlog_entry data i dev = Some d" "pmlog_entries data ids d = Some dev'"
    by (auto simp: bind_eq_Some_conv)
  then have "I d" using Cons.prems(2)
    by (auto simp: pmlog_entry_def intro: add_valid split: option.splits if_splits)
  with Cons.IH[OF d(2)] show ?case by blast
qed simp

lemma level8: "fetch_od8 a v dev = Some (calls, dev') \<Longrightarrow> I dev \<Longrightarrow> I dev'"
  by (auto simp: fetch_od8_def dest: pmlog split: call.splits if_splits)

lemma adl_reading: "I dev \<Longrightarrow> fetchADLMetrics a dev = Some (calls, dev') \<Longrightarrow> I dev'"
  using levels level8 by (auto simp: fetchADLMetrics_def split: option.splits)

end

lemma addSensor_list_all:
  "list_all P ds \<Longrightarrow> P \<lparr>sensor_name = nm, sensor_type = t, sensor_value = v\<rparr> \<Longrightarrow>
   (\<And>d. sensor_type d = t \<Longrightarrow> P (d\<lparr>sensor_value := v\<rparr>)) \<Longrightarrow> list_all P (addSensor_list t nm v ds)"
  by (induction ds) auto

interpretation range: reading_invariant in_range
  by unfold_locales (auto simp: in_range_def addSensor_def intro!: addSensor_list_all)

interpretation identity: reading_invariant "\<lambda>dev. hd_name dev = nm \<and> hd_vendor dev = vd \<and> hw_type dev = ty" for nm vd ty
  by unfold_locales (simp add: addSensor_def)

text \<open>What a reading takes it gives back, in reverse order.\<close>

fun matched :: "pm_call list \<Rightarrow> bool" where
  "matched [] = True"
| "matched [CreateDevice, DestroyDevice] = True"
| "matched [CreateDevice, StartLog, StopLog, DestroyDevice] = True"
| "matched _ = False"

lemma od8_matched: "fetch_od8 a v dev = Some (calls, dev') \<Longrightarrow> matched calls"
  by (auto simp: fetch_od8_def split: call.splits if_splits)

text \<open>
  C33: A reading over ADL never stores a value outside the range of its type (temperatures between 0
  and 150 degrees, loads up to 100 per cent, clocks below 10 GHz, ...), whatever the driver returns
  and whichever Overdrive levels it offers, and releases the log device it has created on every path.
\<close>

theorem adl_reading_in_range:
  assumes "in_range dev" and "fetchADLMetrics a dev = Some (calls, dev')"
  shows "in_range dev' \<and> matched calls"
  using range.adl_reading[OF assms] od8_matched assms(2)
  by (auto simp: fetchADLMetrics_def split: option.splits)

definition new_gpu :: "string \<Rightarrow> A_HardwareDevice" where
  "new_gpu nm = \<lparr>hd_vendor = AMD, hw_type = GPU, hd_name = nm, dev_sensors = []\<rparr>"

definition no_calls :: adl_calls where
  "no_calls = \<lparr>caps2 = Some (True, 8), caps1 = None, od5_temperature = Null, od5_activity = Null, od5_fanspeed = Null,
     od6_temperature = Null, od6_status = Null, od6_power = Null, od6_fanspeed = Null, odn_temperature = Null,
     odn_status = Null, od8_support = Null, od8_create = False, od8_start = False, od8_sensors = Null,
     od8_read = Null, adl_err_not_supported = - 8\<rparr>"

definition hot_calls :: adl_calls where
  "hot_calls = no_calls\<lparr>od8_support := Result 1, od8_create := True, od8_start := True,
     od8_sensors := Result [PMLOG_TEMPERATURE_EDGE, PMLOG_TEMPERATURE_HOTSPOT],
     od8_read := Result (\<lambda>i. Some (True, if i = PMLOG_TEMPERATURE_EDGE then 55 else 255))\<rparr>"

lemma adl_reading_in_range_witness:
  "\<exists>calls dev. fetchADLMetrics hot_calls (new_gpu ''RX'') = Some (calls, dev) \<and> in_range dev \<and> matched calls"
proof -
  have "in_range (new_gpu ''RX'')" by (simp add: in_range_def new_gpu_def)
  moreover obtain calls dev where "fetchADLMetrics hot_calls (new_gpu ''RX'') = Some (calls, dev)"
    by (simp add: fetchADLMetrics_def od_version_def fetch_od8_def pmlog_entry_def hot_calls_def no_calls_def)
  ultimately show ?thesis using adl_reading_in_range by blast
qed

text \<open>An identifier that the driver lists and the array does not have ends the program.\<close>

lemma unchecked_index:
  "PMLOG_OTHER n \<in> set ids \<Longrightarrow> data (PMLOG_OTHER n) = None \<Longrightarrow> pmlog_entries data ids dev = None"
proof (induction ids arbitrary: dev)
  case (Cons i ids)
  then show ?case by (cases "pmlog_entry data i dev") (auto simp: pmlog_entry_def)
qed simp

section \<open>Which level wins\<close>

lemma add_valid_lookup:
  "sensor_lookup (add_valid t nm v dev) =
     (if valid_for t v then (sensor_lookup dev)((nm, t) \<mapsto> v) else sensor_lookup dev)"
  using sensors.lookup_upsert[of "(nm, t)" v dev] by (simp add: add_valid_def sensor_upsert_def)

text \<open>The last of some readings that is in range, else the old value.\<close>

definition last_valid :: "SensorType \<Rightarrow> float32 option list \<Rightarrow> float32 option \<Rightarrow> float32 option" where
  "last_valid t vs old = fold (\<lambda>v acc. if (\<exists>x. v = Some x \<and> valid_for t x) then v else acc) vs old"

fun milli :: "int call \<Rightarrow> float32 option" where
  "milli (Result t) = Some (float_div (to_float t) 1000)"
| "milli _ = None"

fun core_clock :: "activity call \<Rightarrow> float32 option" where
  "core_clock (Result x) = Some (float_mul (to_float (iEngineClock x)) centi)"
| "core_clock _ = None"

text \<open>The names of the levels 5, 6 and N that level 8 does not use.\<close>

definition low_keys :: "(string \<times> SensorType) list" where
  "low_keys = [(''Average Core Temperature'', TEMPERATURE), (''Core / Graphics Clock Speed'', CLOCK),
               (''Core / Graphics Utilization'', USAGE), (''GPU Power Draw'', POWER)]"

lemma pmlog_other_keys: "pmlog_sensor i = Some (t, nm) \<Longrightarrow> (nm, t) \<notin> set low_keys"
  by (cases i) (auto simp: low_keys_def)

lemma pmlog_keeps_low:
  "pmlog_entries data ids dev = Some dev' \<Longrightarrow> k \<in> set low_keys \<Longrightarrow> sensor_lookup dev' k = sensor_lookup dev k"
proof (induction ids arbitrary: dev)
  case (Cons i ids)
  then obtain d where d: "pmlog_entry data i dev = Some d" "pmlog_entries data ids d = Some dev'"
    by (auto simp: bind_eq_Some_conv)
  have "sensor_lookup d k = sensor_lookup dev k"
    using d(1) Cons.prems(2) pmlog_other_keys[of i]
    by (auto simp: pmlog_entry_def add_valid_lookup split: option.splits if_splits)
  with Cons.IH[OF d(2) Cons.prems(2)] show ?case by simp
qed simp

lemma od8_keeps_low:
  "fetch_od8 a v dev = Some (calls, dev') \<Longrightarrow> k \<in> set low_keys \<Longrightarrow> sensor_lookup dev' k = sensor_lookup dev k"
  by (auto simp: fetch_od8_def dest: pmlog_keeps_low split: call.splits if_splits)

lemma temperature_lookup:
  "sensor_lookup (temperature_milli c dev) (''Average Core Temperature'', TEMPERATURE) =
     last_valid TEMPERATURE [milli c] (sensor_lookup dev (''Average Core Temperature'', TEMPERATURE))"
  "sensor_lookup (temperature_milli c dev) (nm, CLOCK) = sensor_lookup dev (nm, CLOCK)"
  by (cases c; simp add: temperature_milli_def add_valid_lookup last_valid_def)+

lemma activity_lookup:
  "sensor_lookup (report_activity c dev) (nm, TEMPERATURE) = sensor_lookup dev (nm, TEMPERATURE)"
  "sensor_lookup (report_activity c dev) (''Core / Graphics Clock Speed'', CLOCK) =
     last_valid CLOCK [core_clock c] (sensor_lookup dev (''Core / Graphics Clock Speed'', CLOCK))"
  by (cases c; simp add: report_activity_def add_valid_lookup last_valid_def)+

lemma od_lookup:
  "sensor_lookup (fetch_od5 a dev) (''Average Core Temperature'', TEMPERATURE) =
     last_valid TEMPERATURE [milli (od5_temperature a)] (sensor_lookup dev (''Average Core Temperature'', TEMPERATURE))"
  "sensor_lookup (fetch_od6 a dev) (''Average Core Temperature'', TEMPERATURE) =
     last_valid TEMPERATURE [milli (od6_temperature a)] (sensor_lookup dev (''Average Core Temperature'', TEMPERATURE))"
  "sensor_lookup (fetch_odn a dev) (''Average Core Temperature'', TEMPERATURE) =
     last_valid TEMPERATURE [milli (odn_temperature a)] (sensor_lookup dev (''Average Core Temperature'', TEMPERATURE))"
  "sensor_lookup (fetch_od5 a dev) (''Core / Graphics Clock Speed'', CLOCK) =
     last_valid CLOCK [core_clock (od5_activity a)] (sensor_lookup dev (''Core / Graphics Clock Speed'', CLOCK))"
  "sensor_lookup (fetch_od6 a dev) (''Core / Graphics Clock Speed'', CLOCK) =
     last_valid CLOCK [core_clock (od6_status a)] (sensor_lookup dev (''Core / Graphics Clock Speed'', CLOCK))"
  "sensor_lookup (fetch_odn a dev) (''Core / Graphics Clock Speed'', CLOCK) =
     last_valid CLOCK [core_clock (odn_status a)] (sensor_lookup dev (''Core / Graphics Clock Speed'', CLOCK))"
  by (simp_all add: fetch_od5_def fetch_od6_def fetch_odn_def Let_def activity_lookup temperature_lookup add_valid_lookup
      split: call.split)

lemma last_valid_snoc: "last_valid t [z] (last_valid t [y] (last_valid t [x] old)) = last_valid t [x, y, z] old"
  by (simp add: last_valid_def)

text \<open>
  Of the levels 5, 6 and N the highest one that delivers a value in range determines the core
  temperature and the core clock, else the old values stay; level 8 has other names for both and does
  not overwrite them.
\<close>

theorem adl_waterfall:
  assumes "fetchADLMetrics a dev = Some (calls, dev')"
  shows "sensor_lookup dev' (''Average Core Temperature'', TEMPERATURE) =
      last_valid TEMPERATURE [milli (od5_temperature a), milli (od6_temperature a), milli (odn_temperature a)]
        (sensor_lookup dev (''Average Core Temperature'', TEMPERATURE)) \<and>
    sensor_lookup dev' (''Core / Graphics Clock Speed'', CLOCK) =
      last_valid CLOCK [core_clock (od5_activity a), core_clock (od6_status a), core_clock (odn_status a)]
        (sensor_lookup dev (''Core / Graphics Clock Speed'', CLOCK))"
proof -
  from assms obtain v where d: "fetch_od8 a v (fetch_odn a (fetch_od6 a (fetch_od5 a dev))) = Some (calls, dev')"
    by (auto simp: fetchADLMetrics_def split: option.splits)
  have k: "(''Average Core Temperature'', TEMPERATURE) \<in> set low_keys" "(''Core / Graphics Clock Speed'', CLOCK) \<in> set low_keys"
    by (simp_all add: low_keys_def)
  from od8_keeps_low[OF d k(1)] od8_keeps_low[OF d k(2)] show ?thesis unfolding od_lookup last_valid_snoc by simp
qed

definition two_level_calls :: adl_calls where
  "two_level_calls = no_calls\<lparr>od5_temperature := Result 61000, od6_temperature := Result 0\<rparr>"

lemma adl_waterfall_witness:
  "\<exists>calls dev. fetchADLMetrics two_level_calls (new_gpu ''RX'') = Some (calls, dev) \<and>
     sensor_lookup dev (''Average Core Temperature'', TEMPERATURE) =
       last_valid TEMPERATURE [Some (float_div (to_float 61000) 1000), Some (float_div (to_float 0) 1000), None] None"
proof -
  obtain calls dev where d: "fetchADLMetrics two_level_calls (new_gpu ''RX'') = Some (calls, dev)"
    by (simp add: fetchADLMetrics_def od_version_def fetch_od8_def two_level_calls_def no_calls_def)
  have "sensor_lookup (new_gpu ''RX'') = Map.empty"
    by (simp add: sensor_lookup_def new_gpu_def fun_eq_iff)
  with adl_waterfall[OF d] d show ?thesis by (auto simp: two_level_calls_def no_calls_def)
qed

end
