(* ===== verification/Amd_Interop.thy ===== *)
theory Amd_Interop
  imports Gpu_Amd
begin

text \<open>
  The owners of the two libraries for AMD cards: \<open>ADL\<close>, which loads a DLL and resolves its functions, and
  \<open>ADLX\<close>, which goes through a helper of its SDK. Both are initialised once and shut down from their
  destructor; what they do to the libraries is the log that every operation extends.
\<close>

section \<open>ADL\<close>

text \<open>How an operation ends: it returns, throws a \<open>std::exception\<close>, or calls a null pointer.\<close>

datatype ended = Finished | Thrown | Crashed

datatype library_call =
    Load_Library string
  | Context_Created
  | Context_Destroyed
  | Free_Library
  | Helper_Initialized
  | Perf_Released
  | Helper_Terminated

record adl =
  adl_module :: "string option"
  resolved :: "string \<Rightarrow> bool"
  adl_context :: bool
  adl_initialized :: bool
  adl_log :: "library_call list"

definition new_ADL :: adl where
  "new_ADL = \<lparr>adl_module = None, resolved = (\<lambda>_. False), adl_context = False, adl_initialized = False, adl_log = []\<rparr>"

text \<open>
  \<open>exports_of\<close>: the functions a DLL exports, unless it cannot be loaded. \<open>control_create\<close>: whether
  \<open>ADL2_Main_Control_Create\<close> returns \<open>ADL_OK\<close>, and whether it sets the context.
\<close>

record adl_library =
  exports_of :: "string \<Rightarrow> (string \<Rightarrow> bool) option"
  control_create :: "bool \<times> bool"

definition adl_symbols :: "string list" where
  "adl_symbols =
     [''ADL2_Main_Control_Create'', ''ADL2_Main_Control_Destroy'',
      ''ADL2_Adapter_NumberOfAdapters_Get'', ''ADL2_Adapter_AdapterInfo_Get'', ''ADL2_Adapter_ID_Get'',
      ''ADL2_Adapter_Active_Get'',
      ''ADL2_Adapter_VRAMUsage_Get'', ''ADL2_Adapter_DedicatedVRAMUsage_Get'', ''ADL2_Adapter_MemoryInfoX4_Get'',
      ''ADL2_Adapter_FrameMetrics_Caps'', ''ADL2_Adapter_FrameMetrics_Get'', ''ADL2_Adapter_FrameMetrics_Start'',
      ''ADL2_Adapter_FrameMetrics_Stop'',
      ''ADL2_Overdrive_Caps'', ''ADL_Overdrive_Caps'',
      ''ADL2_Overdrive5_ODParameters_Get'', ''ADL2_Overdrive5_CurrentActivity_Get'',
      ''ADL2_Overdrive5_Temperature_Get'', ''ADL2_Overdrive5_FanSpeed_Get'', ''ADL2_Overdrive5_FanSpeedInfo_Get'',
      ''ADL2_Overdrive6_Capabilities_Get'', ''ADL2_Overdrive6_CurrentPower_Get'', ''ADL2_Overdrive6_Temperature_Get'',
      ''ADL2_Overdrive6_CurrentStatus_Get'', ''ADL2_Overdrive6_FanSpeed_Get'',
      ''ADL2_OverdriveN_Temperature_Get'', ''ADL2_OverdriveN_PerformanceStatus_Get'',
      ''ADL2_Overdrive8_PMLogSenorType_Support_Get'', ''ADL2_Overdrive8_PMLog_ShareMemory_Start'',
      ''ADL2_Overdrive8_PMLog_ShareMemory_Stop'', ''ADL2_Overdrive8_PMLog_ShareMemory_Support'',
      ''ADL2_Overdrive8_PMLog_ShareMemory_Read'', ''ADL2_Device_PMLog_Device_Create'',
      ''ADL2_Device_PMLog_Device_Destroy'']"

definition load_adl :: "adl_library \<Rightarrow> (string \<times> (string \<Rightarrow> bool)) option" where
  "load_adl L =
     (case exports_of L ''atiadlxx.dll'' of
        Some f \<Rightarrow> Some (''atiadlxx.dll'', f)
      | None \<Rightarrow> (case exports_of L ''atiadlxy.dll'' of
                   Some f \<Rightarrow> Some (''atiadlxy.dll'', f)
                 | None \<Rightarrow> None))"

text \<open>\<open>resolve\<close> reports a missing symbol and returns the null pointer.\<close>

definition resolve_all :: "(string \<Rightarrow> bool) \<Rightarrow> string \<Rightarrow> bool" where
  "resolve_all f nm \<longleftrightarrow> nm \<in> set adl_symbols \<and> f nm"

definition ADL_init :: "adl_library \<Rightarrow> adl \<Rightarrow> ended \<times> adl" where
  "ADL_init L s =
     (case load_adl L of
        None \<Rightarrow> (Thrown, s\<lparr>adl_module := None\<rparr>)
      | Some (nm, f) \<Rightarrow>
          let s = s\<lparr>adl_module := Some nm, resolved := resolve_all f, adl_log := adl_log s @ [Load_Library nm]\<rparr>
          in if \<not> resolved s ''ADL2_Main_Control_Create'' then (Crashed, s)
             else let (ok, ctx) = control_create L;
                      s = s\<lparr>adl_context := ctx, adl_log := adl_log s @ (if ctx then [Context_Created] else [])\<rparr>
                  in if \<not> ok then (Thrown, s) else (Finished, s\<lparr>adl_initialized := True\<rparr>))"

definition ADL_shutdown :: "adl \<Rightarrow> adl" where
  "ADL_shutdown s =
     (if \<not> adl_initialized s then s
      else let s = (if resolved s ''ADL2_Main_Control_Destroy'' \<and> adl_context s
                    then s\<lparr>adl_context := False, adl_log := adl_log s @ [Context_Destroyed]\<rparr> else s);
               s = (if adl_module s \<noteq> None
                    then s\<lparr>adl_module := None, adl_log := adl_log s @ [Free_Library]\<rparr> else s)
           in s\<lparr>adl_initialized := False\<rparr>)"

section \<open>ADLX\<close>

record adlx =
  adlx_system :: bool
  perf_monitoring :: bool
  adlx_initialized :: bool
  adlx_log :: "library_call list"

definition new_ADLX :: adlx where
  "new_ADLX = \<lparr>adlx_system = False, perf_monitoring = False, adlx_initialized = False, adlx_log = []\<rparr>"

text \<open>
  Whether the helper initialises, whether it hands out the system services, and whether these hand out
  the performance monitoring: the result of the call, and whether the pointer is set.
\<close>

record adlx_library =
  helper_ok :: bool
  system_services :: bool
  performance_services :: "bool \<times> bool"

definition ADLX_init :: "adlx_library \<Rightarrow> adlx \<Rightarrow> ended \<times> adlx" where
  "ADLX_init L s =
     (if \<not> helper_ok L then (Thrown, s)
      else let s = s\<lparr>adlx_log := adlx_log s @ [Helper_Initialized], adlx_system := system_services L\<rparr>
           in if \<not> adlx_system s then (Thrown, s)
              else let (ok, ptr) = performance_services L; s = s\<lparr>perf_monitoring := ptr\<rparr>
                   in if \<not> ok \<or> \<not> perf_monitoring s then (Thrown, s)
                      else (Finished, s\<lparr>adlx_initialized := True\<rparr>))"

definition ADLX_shutdown :: "adlx \<Rightarrow> adlx" where
  "ADLX_shutdown s =
     (if \<not> adlx_initialized s then s
      else let s = (if perf_monitoring s
                    then s\<lparr>perf_monitoring := False, adlx_log := adlx_log s @ [Perf_Released]\<rparr> else s)
           in s\<lparr>adlx_log := adlx_log s @ [Helper_Terminated], adlx_system := False, adlx_initialized := False\<rparr>)"

section \<open>Shutting down\<close>

text \<open>A resource with an owner: closing again changes nothing, and only an open one is given back.\<close>

locale owner =
  fixes shutdown :: "'s \<Rightarrow> 's" and opened :: "'s \<Rightarrow> bool"
  assumes closes: "\<not> opened (shutdown s)"
    and idle: "\<not> opened s \<Longrightarrow> shutdown s = s"
begin

lemma shutdown_again: "(shutdown ^^ Suc n) s = shutdown s"
  by (induction n) (simp_all add: idle closes)

lemma never_opened: "\<not> opened s \<Longrightarrow> (shutdown ^^ n) s = s"
  by (induction n) (simp_all add: idle)

end

interpretation adl_owner: owner ADL_shutdown adl_initialized
  by unfold_locales (auto simp: ADL_shutdown_def Let_def)

interpretation adlx_owner: owner ADLX_shutdown adlx_initialized
  by unfold_locales (auto simp: ADLX_shutdown_def Let_def)

text \<open>
  After an initialisation that succeeds, any number of shutdowns (the destructor's included)
  frees the DLL and the context exactly once, the context before the DLL; after one that throws, no
  shutdown frees anything: the DLL it has loaded, and a context it may have got, stay.
\<close>

theorem adl_lifecycle:
  assumes "ADL_init L new_ADL = (r, s)" and "load_adl L = Some (nm, f)" and "f ''ADL2_Main_Control_Destroy''"
  shows "(r = Finished \<longrightarrow> adl_log ((ADL_shutdown ^^ Suc n) s) =
      (if snd (control_create L) then [Load_Library nm, Context_Created, Context_Destroyed, Free_Library]
       else [Load_Library nm, Free_Library])) \<and>
    (r = Thrown \<longrightarrow> Load_Library nm \<in> set (adl_log s) \<and> adl_log ((ADL_shutdown ^^ n) s) = adl_log s)"
proof (cases "control_create L", intro conjI impI)
  fix ok ctx
  assume c: "control_create L = (ok, ctx)"
  have destroy: "resolve_all f ''ADL2_Main_Control_Destroy''"
    using assms(3) by (simp add: resolve_all_def adl_symbols_def)
  show "adl_log ((ADL_shutdown ^^ Suc n) s) =
      (if snd (control_create L) then [Load_Library nm, Context_Created, Context_Destroyed, Free_Library]
       else [Load_Library nm, Free_Library])" if "r = Finished"
    unfolding adl_owner.shutdown_again
    using that assms(1,2) destroy c by (auto simp: ADL_init_def ADL_shutdown_def new_ADL_def Let_def split: if_splits)
  assume "r = Thrown"
  with assms(1,2) have "Load_Library nm \<in> set (adl_log s)" "\<not> adl_initialized s"
    using c by (auto simp: ADL_init_def new_ADL_def Let_def split: if_splits)
  then show "Load_Library nm \<in> set (adl_log s)" "adl_log ((ADL_shutdown ^^ n) s) = adl_log s"
    by (simp_all add: adl_owner.never_opened)
qed

definition full_library :: "bool \<Rightarrow> adl_library" where
  "full_library ok =
     \<lparr>exports_of = (\<lambda>dll. if dll = ''atiadlxx.dll'' then Some (\<lambda>_. True) else None), control_create = (ok, True)\<rparr>"

lemma adl_lifecycle_witness:
  "\<exists>s t. ADL_init (full_library True) new_ADL = (Finished, s) \<and> ADL_init (full_library False) new_ADL = (Thrown, t) \<and>
     adl_log (ADL_shutdown (ADL_shutdown s)) =
       [Load_Library ''atiadlxx.dll'', Context_Created, Context_Destroyed, Free_Library] \<and>
     adl_log (ADL_shutdown t) = [Load_Library ''atiadlxx.dll'', Context_Created]"
proof -
  have l: "load_adl (full_library b) = Some (''atiadlxx.dll'', \<lambda>_. True)" for b
    by (simp add: load_adl_def full_library_def)
  have c: "control_create (full_library b) = (b, True)" for b by (simp add: full_library_def)
  obtain s t where st: "ADL_init (full_library True) new_ADL = (Finished, s)"
      "ADL_init (full_library False) new_ADL = (Thrown, t)"
      "adl_log t = [Load_Library ''atiadlxx.dll'', Context_Created]"
    by (simp add: ADL_init_def l c resolve_all_def adl_symbols_def new_ADL_def)
  from adl_lifecycle[OF st(1) l, of 1] adl_lifecycle[OF st(2) l, of 1] st
  show ?thesis by (simp add: c)
qed

end
