(* ===== verification/Gpu_Pools.thy ===== *)
theory Gpu_Pools
  imports Gpu_Nvidia Amd_Interop
begin

text \<open>
  How the graphics cards of a machine are found: the vendors of the adapters DXGI lists
  (\<open>DxgiHandler\<close>), a pool for each vendor whose library the program uses (\<open>NvidiaPool\<close>, \<open>AMDPool\<close>), and
  the device the pool makes of each card, read once on the spot. What the libraries answer is an
  argument. An operation ends as \<open>Amd_Interop.ended\<close> says; when it crashes the process is gone.
\<close>

section \<open>Devices of AMD cards\<close>

datatype amd_backend = ADL_adapter nat | ADLX_gpu nat

record amd_gpu =
  gpu_device :: A_HardwareDevice
  active_backend :: amd_backend

definition new_ADL_gpu :: "nat \<Rightarrow> string \<Rightarrow> amd_gpu" where
  "new_ADL_gpu idx nm =
     \<lparr>gpu_device = \<lparr>hd_vendor = AMD, hw_type = GPU, hd_name = nm, dev_sensors = []\<rparr>, active_backend = ADL_adapter idx\<rparr>"

definition new_ADLX_gpu :: "nat \<Rightarrow> string option \<Rightarrow> amd_gpu" where
  "new_ADLX_gpu i nm =
     \<lparr>gpu_device = \<lparr>hd_vendor = AMD, hw_type = GPU,
        hd_name = (case nm of Some gpu_name \<Rightarrow> gpu_name | None \<Rightarrow> ''AMD GPU''), dev_sensors = []\<rparr>,
      active_backend = ADLX_gpu i\<rparr>"

text \<open>\<open>fetchMetrics\<close> with what both libraries answer at that time; \<open>None\<close> is a crash.\<close>

definition fetch_amd :: "(nat \<Rightarrow> adl_calls) \<Rightarrow> (nat \<Rightarrow> adlx_calls) \<Rightarrow> amd_gpu \<Rightarrow> amd_gpu option" where
  "fetch_amd adl adlx g =
     (case active_backend g of
        ADL_adapter i \<Rightarrow>
          (case fetchADLMetrics (adl i) (gpu_device g) of
             None \<Rightarrow> None
           | Some (_, dev) \<Rightarrow> Some (g\<lparr>gpu_device := dev\<rparr>))
      | ADLX_gpu i \<Rightarrow> Some (g\<lparr>gpu_device := fetchADLXMetrics (adlx i) (gpu_device g)\<rparr>))"

section \<open>The pool of AMD cards\<close>

record adl_adapter =
  adapter_active :: "int call"
  iBusNumber :: int
  strAdapterName :: string

text \<open>
  What the machine answers while the pool is built: ADL lists \<open>adapter_cnt\<close> adapters; ADLX lists its
  cards (\<open>None\<close>: no card at this index), each with its name unless it has none.
\<close>

record amd_machine =
  adl_lib :: adl_library
  adapter_cnt :: "int call"
  adapter_info :: "(nat \<Rightarrow> adl_adapter) call"
  adl_metrics :: "nat \<Rightarrow> adl_calls"
  adlx_lib :: adlx_library
  adlx_gpus :: "string option option list option"
  adlx_metrics :: "nat \<Rightarrow> adlx_calls"

fun adl_loop ::
  "amd_machine \<Rightarrow> (nat \<Rightarrow> adl_adapter) \<Rightarrow> nat list \<Rightarrow> int list \<Rightarrow> amd_gpu list \<Rightarrow> amd_gpu list option" where
  "adl_loop M info [] seen devs = Some devs"
| "adl_loop M info (i # is) seen devs =
     (case adapter_active (info i) of
        Null \<Rightarrow> None
      | Failed \<Rightarrow> adl_loop M info is seen devs
      | Result active \<Rightarrow>
          if active = 0 then adl_loop M info is seen devs
          else if iBusNumber (info i) \<in> set seen then adl_loop M info is seen devs
          else case fetch_amd (adl_metrics M) (adlx_metrics M) (new_ADL_gpu i (strAdapterName (info i))) of
                 None \<Rightarrow> None
               | Some g \<Rightarrow> adl_loop M info is (seen @ [iBusNumber (info i)]) (devs @ [g]))"

definition enumerateADL :: "amd_machine \<Rightarrow> amd_gpu list option" where
  "enumerateADL M =
     (case adapter_cnt M of
        Null \<Rightarrow> None
      | Failed \<Rightarrow> Some []
      | Result cnt \<Rightarrow>
          if cnt \<le> 0 then Some []
          else case adapter_info M of
                 Null \<Rightarrow> None
               | Failed \<Rightarrow> Some []
               | Result info \<Rightarrow> adl_loop M info [0..<nat cnt] [] [])"

fun adlx_loop :: "amd_machine \<Rightarrow> nat \<Rightarrow> string option option list \<Rightarrow> amd_gpu list \<Rightarrow> amd_gpu list option" where
  "adlx_loop M i [] devs = Some devs"
| "adlx_loop M i (None # gs) devs = adlx_loop M (Suc i) gs devs"
| "adlx_loop M i (Some nm # gs) devs =
     (case fetch_amd (adl_metrics M) (adlx_metrics M) (new_ADLX_gpu i nm) of
        None \<Rightarrow> None
      | Some g \<Rightarrow> adlx_loop M (Suc i) gs (devs @ [g]))"

definition enumerateADLX :: "amd_machine \<Rightarrow> amd_gpu list option" where
  "enumerateADLX M = (case adlx_gpus M of None \<Rightarrow> Some [] | Some gs \<Rightarrow> adlx_loop M 0 gs [])"

text \<open>The pool keeps the library whose initialisation succeeded.\<close>

record amd_pool =
  pool_adl :: "adl option"
  pool_adlx :: "adlx option"
  amd_devices :: "amd_gpu list"

definition new_AMDPool :: amd_pool where
  "new_AMDPool = \<lparr>pool_adl = None, pool_adlx = None, amd_devices = []\<rparr>"

definition fall_back :: "amd_machine \<Rightarrow> amd_pool \<Rightarrow> ended \<times> amd_pool" where
  "fall_back M p =
     (case ADLX_init (adlx_lib M) new_ADLX of
        (Finished, s) \<Rightarrow>
          (case enumerateADLX M of
             None \<Rightarrow> (Crashed, p)
           | Some devs \<Rightarrow> (Finished, p\<lparr>pool_adlx := Some s, amd_devices := amd_devices p @ devs\<rparr>))
      | (Thrown, s) \<Rightarrow> (Finished, p\<lparr>pool_adlx := None\<rparr>)
      | (Crashed, s) \<Rightarrow> (Crashed, p))"

definition AMDPool_enumerateDevices :: "amd_machine \<Rightarrow> amd_pool \<Rightarrow> ended \<times> amd_pool" where
  "AMDPool_enumerateDevices M p =
     (case ADL_init (adl_lib M) new_ADL of
        (Finished, s) \<Rightarrow>
          (case enumerateADL M of
             None \<Rightarrow> (Crashed, p)
           | Some devs \<Rightarrow> (Finished, p\<lparr>pool_adl := Some s, amd_devices := amd_devices p @ devs\<rparr>))
      | (Thrown, s) \<Rightarrow> fall_back M (p\<lparr>pool_adl := None\<rparr>)
      | (Crashed, s) \<Rightarrow> (Crashed, p))"

section \<open>The pool of NVIDIA cards\<close>

record nv_machine =
  nvapi_ok :: bool
  nv_gpus :: "(string option \<times> nv_calls) list"

fun nv_loop :: "(string option \<times> nv_calls) list \<Rightarrow> A_HardwareDevice list \<Rightarrow> A_HardwareDevice list option" where
  "nv_loop [] devs = Some devs"
| "nv_loop ((nm, calls) # gs) devs =
     (case fetch_nvidia calls
             \<lparr>hd_vendor = NVIDIA, hw_type = GPU,
              hd_name = (case nm of Some gpu_name \<Rightarrow> ''NVIDIA '' @ gpu_name | None \<Rightarrow> ''NVIDIA GPU''), dev_sensors = []\<rparr> of
        None \<Rightarrow> None
      | Some dev \<Rightarrow> nv_loop gs (devs @ [dev]))"

text \<open>Constructor and \<open>enumerateDevices\<close>, which the program always calls one after the other.\<close>

definition NvidiaPool :: "nv_machine \<Rightarrow> ended \<times> A_HardwareDevice list" where
  "NvidiaPool M =
     (if \<not> nvapi_ok M then (Thrown, [])
      else case nv_loop (nv_gpus M) [] of None \<Rightarrow> (Crashed, []) | Some devs \<Rightarrow> (Finished, devs))"

section \<open>Vendors\<close>

datatype dxgi_vendor = DX_NVIDIA | DX_AMD | DX_INTEL | DX_UNKNOWN

text \<open>The order of the enumeration, which is the order of \<open>std::set<Vendor>\<close>.\<close>

instantiation dxgi_vendor :: linorder
begin

fun rank :: "dxgi_vendor \<Rightarrow> nat" where
  "rank DX_NVIDIA = 0"
| "rank DX_AMD = 1"
| "rank DX_INTEL = 2"
| "rank DX_UNKNOWN = 3"

definition less_eq_dxgi_vendor :: "dxgi_vendor \<Rightarrow> dxgi_vendor \<Rightarrow> bool" where
  "less_eq_dxgi_vendor a b \<longleftrightarrow> rank a \<le> rank b"

definition less_dxgi_vendor :: "dxgi_vendor \<Rightarrow> dxgi_vendor \<Rightarrow> bool" where
  "less_dxgi_vendor a b \<longleftrightarrow> rank a < rank b"

lemma rank_inj: "rank a = rank b \<Longrightarrow> a = b"
  by (cases a; cases b) simp_all

instance
  by standard (auto simp: less_eq_dxgi_vendor_def less_dxgi_vendor_def intro: rank_inj)

end

record dxgi_adapter =
  software :: bool
  VendorId :: ULONG

definition vendor_of_id :: "ULONG \<Rightarrow> dxgi_vendor" where
  "vendor_of_id v =
     (if v = 0x10DE then DX_NVIDIA
      else if v = 0x1002 then DX_AMD
      else if v = 0x8086 then DX_INTEL
      else DX_UNKNOWN)"

text \<open>The set as the sorted list of its elements, in which \<open>insert\<close> keeps the order.\<close>

fun enumerate_adapters :: "dxgi_adapter list \<Rightarrow> dxgi_vendor list \<Rightarrow> dxgi_vendor list" where
  "enumerate_adapters [] vs = vs"
| "enumerate_adapters (d # ds) vs =
     (if software d then enumerate_adapters ds vs
      else enumerate_adapters ds (insort_insert (vendor_of_id (VendorId d)) vs))"

text \<open>\<open>None\<close>: the factory cannot be created, and the constructor throws.\<close>

definition enumerateAdapters :: "dxgi_adapter list option \<Rightarrow> dxgi_vendor list option" where
  "enumerateAdapters factory = (case factory of None \<Rightarrow> None | Some ds \<Rightarrow> Some (enumerate_adapters ds []))"

datatype gpu_pool = Amd_Pool amd_pool | Nvidia_Pool "A_HardwareDevice list"

fun create_pools :: "nv_machine \<Rightarrow> amd_machine \<Rightarrow> dxgi_vendor list \<Rightarrow> gpu_pool list \<Rightarrow> ended \<times> gpu_pool list" where
  "create_pools N M [] pools = (Finished, pools)"
| "create_pools N M (DX_AMD # vs) pools =
     (case AMDPool_enumerateDevices M new_AMDPool of
        (Finished, p) \<Rightarrow> create_pools N M vs (pools @ [Amd_Pool p])
      | (e, p) \<Rightarrow> (e, pools))"
| "create_pools N M (DX_NVIDIA # vs) pools =
     (case NvidiaPool N of
        (Finished, devs) \<Rightarrow> create_pools N M vs (pools @ [Nvidia_Pool devs])
      | (e, devs) \<Rightarrow> (e, pools))"
| "create_pools N M (_ # vs) pools = create_pools N M vs pools"

definition createGPUDevices :: "nv_machine \<Rightarrow> amd_machine \<Rightarrow> dxgi_vendor list \<Rightarrow> ended \<times> gpu_pool list" where
  "createGPUDevices N M detected = create_pools N M detected []"

section \<open>One device for each card\<close>

fun is_active :: "int call \<Rightarrow> bool" where
  "is_active (Result a) \<longleftrightarrow> a \<noteq> 0"
| "is_active _ \<longleftrightarrow> False"

text \<open>The active adapters that are the first one on their bus.\<close>

definition cards :: "(nat \<Rightarrow> adl_adapter) \<Rightarrow> nat \<Rightarrow> nat list" where
  "cards info n =
     filter (\<lambda>i. is_active (adapter_active (info i)) \<and>
                 list_all (\<lambda>j. is_active (adapter_active (info j)) \<longrightarrow> iBusNumber (info j) \<noteq> iBusNumber (info i)) [0..<i])
       [0..<n]"

definition buses :: "(nat \<Rightarrow> adl_adapter) \<Rightarrow> nat \<Rightarrow> int set" where
  "buses info n = (iBusNumber \<circ> info) ` {i. i < n \<and> is_active (adapter_active (info i))}"

lemma buses_Suc:
  "buses info (Suc n) =
     (if is_active (adapter_active (info n)) then insert (iBusNumber (info n)) (buses info n) else buses info n)"
  by (auto simp: buses_def less_Suc_eq)

lemma cards_Suc:
  "cards info (Suc n) =
     cards info n @ (if is_active (adapter_active (info n)) \<and> iBusNumber (info n) \<notin> buses info n then [n] else [])"
  by (auto simp: cards_def buses_def list_all_iff image_iff)

lemma cards_buses:
  "distinct (map (iBusNumber \<circ> info) (cards info n)) \<and> (iBusNumber \<circ> info) ` set (cards info n) = buses info n"
  by (induction n) (auto simp: cards_Suc buses_Suc, auto simp: cards_def buses_def)

definition card_device :: "(nat \<Rightarrow> adl_adapter) \<Rightarrow> nat \<Rightarrow> amd_gpu \<Rightarrow> bool" where
  "card_device info i g \<longleftrightarrow>
     active_backend g = ADL_adapter i \<and> hd_name (gpu_device g) = strAdapterName (info i) \<and>
     hd_vendor (gpu_device g) = AMD \<and> in_range (gpu_device g)"

lemma fetch_new_ADL:
  "fetch_amd adl adlx (new_ADL_gpu i (strAdapterName (info i))) = Some g \<Longrightarrow> card_device info i g"
  using identity.adl_reading[of "gpu_device (new_ADL_gpu i (strAdapterName (info i)))" "strAdapterName (info i)" AMD GPU]
    range.adl_reading[of "gpu_device (new_ADL_gpu i (strAdapterName (info i)))"]
  by (auto simp: fetch_amd_def new_ADL_gpu_def card_device_def in_range_def split: option.splits)

lemma adl_loop_cards:
  "k \<le> n \<Longrightarrow> adl_loop M info [k..<n] seen devs = Some ds \<Longrightarrow> set seen = buses info k \<Longrightarrow>
   list_all2 (card_device info) (cards info k) devs \<Longrightarrow> list_all2 (card_device info) (cards info n) ds"
proof (induction "n - k" arbitrary: k seen devs)
  case (Suc m)
  then have k: "[k..<n] = k # [Suc k..<n]" "Suc k \<le> n" "m = n - Suc k" by (simp_all add: upt_conv_Cons)
  note step = Suc.hyps(1)[OF k(3,2)]
  show ?case
  proof (cases "is_active (adapter_active (info k)) \<and> iBusNumber (info k) \<notin> buses info k")
    case True
    with Suc.prems(2,3) k(1) obtain g where g: "card_device info k g"
        "adl_loop M info [Suc k..<n] (seen @ [iBusNumber (info k)]) (devs @ [g]) = Some ds"
      by (auto split: call.splits option.splits intro: fetch_new_ADL)
    show ?thesis
      by (rule step[OF g(2)]) (use True Suc.prems(3,4) g(1) in \<open>auto simp: buses_Suc cards_Suc list_all2_appendI\<close>)
  next
    case False
    with Suc.prems(2,3) k(1) have "adl_loop M info [Suc k..<n] seen devs = Some ds"
      by (auto split: call.splits if_splits)
    then show ?thesis
      by (rule step) (use False Suc.prems(3,4) in \<open>auto simp: buses_Suc cards_Suc\<close>)
  qed
qed simp

text \<open>
  C20: Over ADL the pool holds one device for each physical card, in the order of the adapters: for the
  first active adapter of each bus that has one, under the adapter's name, with values in range only.
\<close>

theorem adl_one_device_per_card:
  assumes "enumerateADL M = Some devs" and "adapter_cnt M = Result n" and "0 < n" and "adapter_info M = Result info"
  shows "list_all2 (card_device info) (cards info (nat n)) devs \<and>
    distinct (map (iBusNumber \<circ> info) (cards info (nat n))) \<and>
    (iBusNumber \<circ> info) ` set (cards info (nat n)) = buses info (nat n)"
proof -
  from assms have "adl_loop M info [0..<nat n] [] [] = Some devs" by (simp add: enumerateADL_def)
  then have "list_all2 (card_device info) (cards info (nat n)) devs"
    by (rule adl_loop_cards[rotated]) (simp_all add: buses_def cards_def)
  with cards_buses show ?thesis by blast
qed

definition three_adapters :: "nat \<Rightarrow> adl_adapter" where
  "three_adapters i =
     (if i = 0 then \<lparr>adapter_active = Result 0, iBusNumber = 3, strAdapterName = ''off''\<rparr>
      else if i = 1 then \<lparr>adapter_active = Result 1, iBusNumber = 3, strAdapterName = ''RX''\<rparr>
      else \<lparr>adapter_active = Result 1, iBusNumber = 3, strAdapterName = ''RX second output''\<rparr>)"

definition no_metric :: "'a adlx_metric" where
  "no_metric = \<lparr>is_supported = None, metric_value = None\<rparr>"

definition no_adlx :: adlx_calls where
  "no_adlx = \<lparr>adlx_available = False, adlx_edge = no_metric, adlx_hotspot = no_metric, adlx_clock = no_metric,
     adlx_vram_clock = no_metric, adlx_usage = no_metric, adlx_vram_supported = None, adlx_vram_used = None,
     adlx_vram_range = None, adlx_fan = no_metric\<rparr>"

definition sample_machine :: amd_machine where
  "sample_machine =
     \<lparr>adl_lib = full_library True, adapter_cnt = Result 3, adapter_info = Result three_adapters,
      adl_metrics = (\<lambda>_. no_calls),
      adlx_lib = \<lparr>helper_ok = False, system_services = False, performance_services = (False, False)\<rparr>,
      adlx_gpus = None, adlx_metrics = (\<lambda>_. no_adlx)\<rparr>"

lemma sample_cards: "cards three_adapters 3 = [1]"
  by (simp add: cards_def three_adapters_def upt_rec)

lemma adl_one_device_per_card_witness:
  "\<exists>g. enumerateADL sample_machine = Some [g] \<and> hd_name (gpu_device g) = ''RX''"
proof -
  have "fetchADLMetrics no_calls dev \<noteq> None" for dev
    by (simp add: fetchADLMetrics_def od_version_def fetch_od8_def no_calls_def)
  then have "fetch_amd (\<lambda>_. no_calls) x (new_ADL_gpu i nm) \<noteq> None" for x i nm
    by (auto simp: fetch_amd_def new_ADL_gpu_def split: option.splits)
  then obtain g where "fetch_amd (\<lambda>_. no_calls) (\<lambda>_. no_adlx) (new_ADL_gpu 1 ''RX'') = Some g" by blast
  then have "enumerateADL sample_machine = Some [g]"
    by (simp add: enumerateADL_def sample_machine_def three_adapters_def upt_rec)
  moreover from adl_one_device_per_card[OF this, where n = 3 and info = three_adapters]
  have "list_all2 (card_device three_adapters) [1] [g]"
    by (simp add: sample_machine_def sample_cards)
  ultimately show ?thesis by (auto simp: list_all2_Cons1 card_device_def three_adapters_def)
qed

section \<open>Which pools there are\<close>

definition found :: "dxgi_adapter list \<Rightarrow> dxgi_vendor \<Rightarrow> bool" where
  "found ds v \<longleftrightarrow> list_ex (\<lambda>d. \<not> software d \<and> vendor_of_id (VendorId d) = v) ds"

lemma enumerate_adapters_set:
  "set (enumerate_adapters ds vs) = set vs \<union> {v. found ds v}"
  "sorted vs \<Longrightarrow> distinct vs \<Longrightarrow> sorted (enumerate_adapters ds vs) \<and> distinct (enumerate_adapters ds vs)"
  by (induction ds arbitrary: vs)
     (auto simp: found_def set_insort_insert sorted_insort_insert distinct_insort_insert)

lemma enumerate_adapters_filter:
  "enumerate_adapters ds [] = filter (found ds) [DX_NVIDIA, DX_AMD, DX_INTEL, DX_UNKNOWN]"
proof -
  define all where "all = [DX_NVIDIA, DX_AMD, DX_INTEL, DX_UNKNOWN]"
  have a: "sorted all" "distinct all" by (simp_all add: all_def less_eq_dxgi_vendor_def)
  have "v \<in> set all" for v by (cases v) (simp_all add: all_def)
  then have "set (enumerate_adapters ds []) = set (filter (found ds) all)"
    using enumerate_adapters_set(1)[where ds = ds and vs = "[]"] by auto
  with a enumerate_adapters_set(2)[where ds = ds and vs = "[]"]
  have "enumerate_adapters ds [] = filter (found ds) all"
    by (intro sorted_distinct_set_unique) (simp_all add: sorted_wrt_filter)
  then show ?thesis by (simp only: all_def)
qed

fun kind_of :: "gpu_pool \<Rightarrow> dxgi_vendor" where
  "kind_of (Amd_Pool _) = DX_AMD"
| "kind_of (Nvidia_Pool _) = DX_NVIDIA"

text \<open>
  When the pools are complete there is one for NVIDIA and one for AMD, in this order, if a hardware
  adapter of the vendor is present, and none for other vendors. When NVAPI cannot be initialised on a
  machine with an NVIDIA adapter, the exception leaves before the AMD cards are looked at.
\<close>

theorem gpu_pools:
  assumes "enumerateAdapters (Some ds) = Some detected"
  shows "(\<forall>pools. createGPUDevices N M detected = (Finished, pools) \<longrightarrow>
      map kind_of pools = filter (found ds) [DX_NVIDIA, DX_AMD]) \<and>
    (found ds DX_NVIDIA \<and> \<not> nvapi_ok N \<longrightarrow> createGPUDevices N M detected = (Thrown, []))"
proof -
  from assms have "detected = filter (found ds) [DX_NVIDIA, DX_AMD, DX_INTEL, DX_UNKNOWN]"
    by (simp add: enumerateAdapters_def enumerate_adapters_filter)
  then show ?thesis
    by (auto simp: createGPUDevices_def NvidiaPool_def split: prod.splits ended.splits option.splits if_splits)
qed

definition laptop :: "dxgi_adapter list" where
  "laptop = [\<lparr>software = True, VendorId = 0x1414\<rparr>, \<lparr>software = False, VendorId = 0x1002\<rparr>,
             \<lparr>software = False, VendorId = 0x10DE\<rparr>]"

lemma gpu_pools_witness:
  "createGPUDevices \<lparr>nvapi_ok = False, nv_gpus = []\<rparr> sample_machine (enumerate_adapters laptop []) = (Thrown, [])"
proof -
  have "enumerateAdapters (Some laptop) = Some (enumerate_adapters laptop [])"
    by (simp add: enumerateAdapters_def)
  from gpu_pools[OF this, of "\<lparr>nvapi_ok = False, nv_gpus = []\<rparr>" sample_machine] show ?thesis
    by (simp add: found_def laptop_def vendor_of_id_def)
qed

end
