(* ===== verification/Pipeline_Workers.thy ===== *)
theory Pipeline_Workers
  imports Cpu_Pipeline Gpu_Pools Telemetry_Queue
begin

text \<open>
  The threads that produce telemetry: the polling loop of \<open>IHardwarePipelineWorker\<close>, the workers for the
  processor and the graphics cards, and the part of \<open>HardwareManager\<close> that starts and stops them.
\<close>

section \<open>The polling loop\<close>

text \<open>
  The calls of the loop: the stop token, \<open>execute\<close> (\<open>None\<close>: it does not return), the steady clock, the
  sleep until a time, and the two calls of the performance logger, if there is one.
\<close>

record 'w worker_env =
  we_stop :: "'w \<Rightarrow> bool \<times> 'w"
  we_execute :: "'w \<Rightarrow> 'w option"
  we_now :: "'w \<Rightarrow> int \<times> 'w"
  we_sleep_until :: "int \<Rightarrow> 'w \<Rightarrow> 'w"
  we_perf :: "(('w \<Rightarrow> 'w) \<times> ('w \<Rightarrow> 'w)) option"

definition perf_start :: "'w worker_env \<Rightarrow> 'w \<Rightarrow> 'w" where
  "perf_start E w = (case we_perf E of Some (start, stop) \<Rightarrow> start w | None \<Rightarrow> w)"

definition perf_stop :: "'w worker_env \<Rightarrow> 'w \<Rightarrow> 'w" where
  "perf_stop E w = (case we_perf E of Some (start, stop) \<Rightarrow> stop w | None \<Rightarrow> w)"

text \<open>The body of the loop behind the test of the token.\<close>

definition worker_turn :: "'w worker_env \<Rightarrow> int \<Rightarrow> int \<Rightarrow> 'w \<Rightarrow> (int \<times> 'w) option" where
  "worker_turn E poll_interval nxt w =
     (let nxt = nxt + poll_interval in
      case we_execute E (perf_start E w) of
        None \<Rightarrow> None
      | Some w \<Rightarrow>
          (case we_now E (perf_stop E w) of
             (now, w) \<Rightarrow> Some (if nxt > now then (nxt, we_sleep_until E nxt w) else (now, w))))"

partial_function (option) worker_loop :: "'w worker_env \<Rightarrow> int \<Rightarrow> int \<Rightarrow> 'w \<Rightarrow> 'w option" where
  "worker_loop E poll_interval nxt w =
     (case we_stop E w of (stop, w) \<Rightarrow>
        if stop then Some w
        else (case worker_turn E poll_interval nxt w of
                None \<Rightarrow> None
              | Some (nxt, w) \<Rightarrow> worker_loop E poll_interval nxt w))"

definition worker_run :: "'w worker_env \<Rightarrow> int \<Rightarrow> 'w \<Rightarrow> 'w option" where
  "worker_run E poll_interval w = (case we_now E w of (nxt, w) \<Rightarrow> worker_loop E poll_interval nxt w)"

section \<open>When the loop ends\<close>

text \<open>\<open>n\<close> turns, of which each finds no stop request.\<close>

fun worker_turns :: "'w worker_env \<Rightarrow> int \<Rightarrow> nat \<Rightarrow> int \<Rightarrow> 'w \<Rightarrow> (int \<times> 'w) option" where
  "worker_turns E poll_interval 0 nxt w = Some (nxt, w)"
| "worker_turns E poll_interval (Suc n) nxt w =
     (case we_stop E w of (stop, w) \<Rightarrow>
        if stop then None
        else (case worker_turn E poll_interval nxt w of
                None \<Rightarrow> None
              | Some (nxt, w) \<Rightarrow> worker_turns E poll_interval n nxt w))"

lemma worker_loop_after:
  "worker_turns E poll_interval n nxt w = Some (nxt', w') \<Longrightarrow> we_stop E w' = (True, w'') \<Longrightarrow>
   worker_loop E poll_interval nxt w = Some w''"
proof (induction n arbitrary: nxt w)
  case 0
  then show ?case by (simp add: worker_loop.simps[of E poll_interval nxt' w'])
next
  case (Suc n)
  then show ?case
    by (auto simp: worker_loop.simps[of E poll_interval nxt w] split: prod.splits if_splits option.splits)
qed

lemma worker_loop_turns:
  "worker_loop E poll_interval nxt w = Some w'' \<Longrightarrow>
   \<exists>n nxt' w'. worker_turns E poll_interval n nxt w = Some (nxt', w') \<and> we_stop E w' = (True, w'')"
proof (rule worker_loop.raw_induct[where P = "\<lambda>E poll_interval nxt w r.
    \<exists>n nxt' w'. worker_turns E poll_interval n nxt w = Some (nxt', w') \<and> we_stop E w' = (True, r)", rotated],
    assumption, goal_cases)
  case (1 loop E poll_interval nxt w r)
  obtain b w1 where s: "we_stop E w = (b, w1)" by fastforce
  show ?case
  proof (cases b)
    case True
    with 1(3) s show ?thesis by (intro exI[of _ "0 :: nat"]) simp
  next
    case False
    with 1(3) s obtain nxt1 w2 where t: "worker_turn E poll_interval nxt w1 = Some (nxt1, w2)"
        "loop E poll_interval nxt1 w2 = Some r"
      by (auto split: option.splits)
    from 1(2)[OF t(2)] obtain n nxt' w'
      where "worker_turns E poll_interval n nxt1 w2 = Some (nxt', w')" "we_stop E w' = (True, r)" by blast
    with s False t(1) show ?thesis by (intro exI[of _ "Suc n"]) auto
  qed
qed

text \<open>
  The clock as the standard library documents it: no call turns it back, and after \<open>sleep_until\<close> the
  time has come.
\<close>

definition clocked :: "'w worker_env \<Rightarrow> ('w \<Rightarrow> int) \<Rightarrow> bool" where
  "clocked E clock \<longleftrightarrow>
     (\<forall>w. fst (we_now E w) = clock w \<and> clock w \<le> clock (snd (we_now E w)) \<and> clock w \<le> clock (snd (we_stop E w)) \<and>
          clock w \<le> clock (perf_start E w) \<and> clock w \<le> clock (perf_stop E w)) \<and>
     (\<forall>w w'. we_execute E w = Some w' \<longrightarrow> clock w \<le> clock w') \<and>
     (\<forall>t w. clock w \<le> clock (we_sleep_until E t w) \<and> t \<le> clock (we_sleep_until E t w))"

text \<open>
  Behind a turn the schedule is one interval further, or at the end of the poll where that is later: so it is never behind the
  clock as read after the poll.
\<close>

lemma worker_turn_schedule:
  assumes "clocked E clock" and "worker_turn E poll_interval nxt w = Some (nxt', w')"
  obtains we where "we_execute E (perf_start E w) = Some we" and "nxt' = max (nxt + poll_interval) (clock (perf_stop E we))"
    and "clock we \<le> nxt'" and "nxt' \<le> clock w'"
proof -
  from assms(2) obtain we now w2 where w: "we_execute E (perf_start E w) = Some we" "we_now E (perf_stop E we) = (now, w2)"
      "(nxt', w') = (if nxt + poll_interval > now then (nxt + poll_interval, we_sleep_until E (nxt + poll_interval) w2) else (now, w2))"
    by (auto simp: worker_turn_def Let_def split: option.splits prod.splits)
  have now: "now = clock (perf_stop E we)" "now \<le> clock w2" "clock we \<le> clock (perf_stop E we)"
    using assms(1) w(2) unfolding clocked_def by (metis fst_conv snd_conv)+
  have "nxt + poll_interval \<le> clock (we_sleep_until E (nxt + poll_interval) w2)"
    using assms(1) unfolding clocked_def by blast
  with w(3) now show ?thesis by (intro that[OF w(1)]) (auto split: if_splits)
qed

lemma worker_turns_clock:
  assumes "clocked E clock"
  shows "worker_turns E poll_interval n nxt w = Some (nxt', w') \<Longrightarrow> nxt \<le> clock w \<Longrightarrow>
    nxt + int n * poll_interval \<le> nxt' \<and> nxt' \<le> clock w'"
proof (induction n arbitrary: nxt w)
  case (Suc n)
  then obtain w1 nxt1 w2 where t: "worker_turn E poll_interval nxt w1 = Some (nxt1, w2)"
      "worker_turns E poll_interval n nxt1 w2 = Some (nxt', w')"
    by (auto split: prod.splits if_splits option.splits)
  from worker_turn_schedule[OF assms t(1)] have "nxt + poll_interval \<le> nxt1" "nxt1 \<le> clock w2" by (metis max.cobounded1)+
  with Suc.IH[OF t(2)] show ?case by (simp add: algebra_simps)
qed simp

text \<open>However late a poll ends, the turns behind it take their intervals from its end on.\<close>

lemma no_catching_up:
  assumes "clocked E clock" and "we_stop E w = (False, w1)" and "we_execute E (perf_start E w1) = Some we"
    and "worker_turns E poll_interval (Suc k) nxt w = Some (nxt', w')"
  shows "clock we + int k * poll_interval \<le> clock w'"
proof -
  from assms(2,4) obtain nxt1 w2 where t: "worker_turn E poll_interval nxt w1 = Some (nxt1, w2)"
      "worker_turns E poll_interval k nxt1 w2 = Some (nxt', w')"
    by (auto split: option.splits)
  from worker_turn_schedule[OF assms(1) t(1)] assms(3) have "clock we \<le> nxt1" "nxt1 \<le> clock w2" by (metis option.inject)+
  with worker_turns_clock[OF assms(1) t(2)] show ?thesis by simp
qed

text \<open>A token that says stop from a time on: the number of turns is bounded by the intervals up to it.\<close>

lemma worker_stops:
  assumes "clocked E clock" and "0 < poll_interval" and "\<And>w. we_execute E w \<noteq> None"
    and "\<And>w. deadline \<le> clock w \<Longrightarrow> fst (we_stop E w)"
  shows "nxt \<le> clock w \<Longrightarrow> \<exists>n nxt' w' w''. worker_turns E poll_interval n nxt w = Some (nxt', w') \<and>
    we_stop E w' = (True, w'') \<and> int n * poll_interval < max 0 (deadline - nxt) + poll_interval"
proof (induction "nat (deadline - nxt)" arbitrary: nxt w rule: less_induct)
  case less
  obtain b w1 where s: "we_stop E w = (b, w1)" by fastforce
  show ?case
  proof (cases b)
    case True
    with s assms(2) show ?thesis by (intro exI[of _ "0 :: nat"]) simp
  next
    case False
    have "worker_turn E poll_interval nxt w1 \<noteq> None"
      using assms(3)[of "perf_start E w1"] by (auto simp: worker_turn_def Let_def split: option.split prod.split)
    then obtain nxt1 w2 where t: "worker_turn E poll_interval nxt w1 = Some (nxt1, w2)" by auto
    from worker_turn_schedule[OF assms(1) t] have n: "nxt + poll_interval \<le> nxt1" "nxt1 \<le> clock w2" by (metis max.cobounded1)+
    have "clock w < deadline" using assms(4)[of w] s False by fastforce
    with less.prems n assms(2) have "nat (deadline - nxt1) < nat (deadline - nxt)" by simp
    from less.hyps[OF this n(2)] obtain m nxt' w' w'' where
      m: "worker_turns E poll_interval m nxt1 w2 = Some (nxt', w')" "we_stop E w' = (True, w'')"
        "int m * poll_interval < max 0 (deadline - nxt1) + poll_interval" by blast
    have "int (Suc m) * poll_interval < max 0 (deadline - nxt) + poll_interval"
    proof (cases "deadline \<le> nxt1")
      case True
      with m(3) have "int m * poll_interval < 1 * poll_interval" by simp
      then have "m = 0" using assms(2) by (simp only: mult_less_cancel_right) auto
      then show ?thesis using \<open>clock w < deadline\<close> less.prems by simp
    next
      case False
      with m(3) n(1) show ?thesis by (simp add: algebra_simps)
    qed
    with s False t m(1,2) show ?thesis by (intro exI[of _ "Suc m"]) auto
  qed
qed

text \<open>
  C12: \<open>run\<close> returns exactly when, after some number of polls, the token says stop, and it then ends without another poll.
  It does return when every poll does and the token says stop from some time on, after no more polls than intervals have begun
  by then. A poll is never made up for: the \<open>k\<close> turns behind a poll, however late it has ended, take at least
  \<open>k\<close> intervals from its end on, and a poll that ends in time leaves the schedule exactly one interval further.
\<close>

theorem worker_returns:
  assumes "clocked E clock" and "we_now E w0 = (nxt, w)"
  shows "(worker_run E poll_interval w0 = Some w'' \<longleftrightarrow>
      (\<exists>n nxt' w'. worker_turns E poll_interval n nxt w = Some (nxt', w') \<and> we_stop E w' = (True, w'') \<and>
         int n * poll_interval \<le> clock w' - nxt)) \<and>
    (0 < poll_interval \<and> (\<forall>v. we_execute E v \<noteq> None) \<and> (\<forall>v. deadline \<le> clock v \<longrightarrow> fst (we_stop E v)) \<longrightarrow>
      (\<exists>n nxt' w' w''. worker_run E poll_interval w0 = Some w'' \<and> worker_turns E poll_interval n nxt w = Some (nxt', w') \<and>
         we_stop E w' = (True, w'') \<and> int n * poll_interval < max 0 (deadline - nxt) + poll_interval)) \<and>
    (\<forall>j k nxt1 w1 v we nxt2 w2. worker_turns E poll_interval j nxt w = Some (nxt1, w1) \<and> we_stop E w1 = (False, v) \<and>
       we_execute E (perf_start E v) = Some we \<and> worker_turns E poll_interval (Suc k) nxt1 w1 = Some (nxt2, w2) \<longrightarrow>
       clock we + int k * poll_interval \<le> clock w2 \<and>
       (k = 0 \<and> clock (perf_stop E we) \<le> nxt1 + poll_interval \<longrightarrow> nxt2 = nxt1 + poll_interval))"
proof (intro conjI allI impI)
  from assms have start: "nxt \<le> clock w" unfolding clocked_def by (metis fst_conv snd_conv)
  have run: "worker_run E poll_interval w0 = worker_loop E poll_interval nxt w" by (simp add: worker_run_def assms(2))
  show "worker_run E poll_interval w0 = Some w'' \<longleftrightarrow>
      (\<exists>n nxt' w'. worker_turns E poll_interval n nxt w = Some (nxt', w') \<and> we_stop E w' = (True, w'') \<and>
         int n * poll_interval \<le> clock w' - nxt)"
    using worker_turns_clock[OF assms(1) _ start, of poll_interval]
      worker_loop_after[of E poll_interval _ nxt w] worker_loop_turns[of E poll_interval nxt w w'']
    unfolding run by (smt (verit, best))
  assume "0 < poll_interval \<and> (\<forall>v. we_execute E v \<noteq> None) \<and> (\<forall>v. deadline \<le> clock v \<longrightarrow> fst (we_stop E v))"
  with worker_stops[OF assms(1), of poll_interval deadline nxt w] start obtain n nxt' w' u where
    "worker_turns E poll_interval n nxt w = Some (nxt', w')" "we_stop E w' = (True, u)"
    "int n * poll_interval < max 0 (deadline - nxt) + poll_interval" by blast
  with worker_loop_after[OF this(1,2)] show "\<exists>n nxt' w' w''. worker_run E poll_interval w0 = Some w'' \<and>
      worker_turns E poll_interval n nxt w = Some (nxt', w') \<and> we_stop E w' = (True, w'') \<and>
      int n * poll_interval < max 0 (deadline - nxt) + poll_interval"
    unfolding run by blast
next
  fix j k nxt1 w1 v we nxt2 w2
  assume h: "worker_turns E poll_interval j nxt w = Some (nxt1, w1) \<and> we_stop E w1 = (False, v) \<and>
       we_execute E (perf_start E v) = Some we \<and> worker_turns E poll_interval (Suc k) nxt1 w1 = Some (nxt2, w2)"
  with no_catching_up[OF assms(1)] show "clock we + int k * poll_interval \<le> clock w2" by blast
  assume k: "k = 0 \<and> clock (perf_stop E we) \<le> nxt1 + poll_interval"
  with h have "worker_turn E poll_interval nxt1 v = Some (nxt2, w2)" by (auto split: option.splits)
  from worker_turn_schedule[OF assms(1) this] h k show "nxt2 = nxt1 + poll_interval" by (metis max_absorb1 option.inject)
qed

section \<open>A worker on a clock\<close>

text \<open>A world of a time and the number of polls, in which the stop is requested at a given time.\<close>

definition sample_worker :: "int \<Rightarrow> int \<Rightarrow> (int \<times> nat) worker_env" where
  "sample_worker deadline cost =
     \<lparr>we_stop = (\<lambda>w. (deadline \<le> fst w, w)), we_execute = (\<lambda>(t, n). Some (t + cost, Suc n)),
      we_now = (\<lambda>w. (fst w, w)), we_sleep_until = (\<lambda>t (t', n). (max t t', n)), we_perf = None\<rparr>"

lemma sample_worker_clocked: "0 \<le> cost \<Longrightarrow> clocked (sample_worker deadline cost) fst"
  by (simp add: clocked_def sample_worker_def perf_start_def perf_stop_def)

text \<open>The first of two polls takes 3000 ms, the other one none: it is over 1250 ms behind the end of the first.\<close>

definition slow_start :: "(int \<times> nat) worker_env" where
  "slow_start = (sample_worker 4000 0)\<lparr>we_execute := (\<lambda>(t, n). Some (if n = 0 then t + 3000 else t, Suc n))\<rparr>"

lemma worker_returns_witness:
  "worker_run (sample_worker 2000 300) 1250 (0, 0) = Some (2500, 2) \<and>
   worker_turns slow_start 1250 2 0 (0, 0) = Some (4250, (4250, 2)) \<and> (3000 :: int) + 1250 \<le> 4250 \<and>
   (\<exists>w. worker_run slow_start 1250 (0, 0) = Some w)"
proof (intro conjI)
  let ?E = "sample_worker 2000 300"
  have "we_now ?E (0, 0) = (0, (0, 0))" by (simp add: sample_worker_def)
  moreover have "worker_turns ?E 1250 2 0 (0, 0) = Some (2500, (2500, 2))"
    by (simp add: sample_worker_def worker_turn_def perf_start_def perf_stop_def numeral_2_eq_2)
  moreover have "we_stop ?E (2500, 2) = (True, (2500, 2))" by (simp add: sample_worker_def)
  ultimately show "worker_run ?E 1250 (0, 0) = Some (2500, 2)"
    using worker_returns[OF sample_worker_clocked[of 300 2000], of "(0, 0)" 0 "(0, 0)" 1250 "(2500, 2)"]
    by (auto intro!: exI[of _ "2 :: nat"] exI[of _ "2500 :: int"])
next
  have c: "clocked slow_start fst"
    by (auto simp: clocked_def slow_start_def sample_worker_def perf_start_def perf_stop_def)
  have now: "we_now slow_start (0, 0) = (0, (0, 0))" by (simp add: slow_start_def sample_worker_def)
  show t: "worker_turns slow_start 1250 2 0 (0, 0) = Some (4250, (4250, 2))"
    by (simp add: slow_start_def sample_worker_def worker_turn_def perf_start_def perf_stop_def numeral_2_eq_2)
  have "we_stop slow_start (0, 0) = (False, (0, 0))" "we_execute slow_start (perf_start slow_start (0, 0)) = Some (3000, 1)"
    by (simp_all add: slow_start_def sample_worker_def perf_start_def)
  with worker_returns[OF c now, of 1250] t have "fst (3000 :: int, 1 :: nat) + int 1 * 1250 \<le> fst (4250 :: int, 2 :: nat)"
    by (metis One_nat_def Suc_1 worker_turns.simps(1))
  then show "(3000 :: int) + 1250 \<le> 4250" by simp
  have "\<forall>v. we_execute slow_start v \<noteq> None" "\<forall>v. 4000 \<le> fst v \<longrightarrow> fst (we_stop slow_start v)"
    by (auto simp: slow_start_def sample_worker_def)
  then have "\<exists>n nxt' w' w. worker_run slow_start 1250 (0, 0) = Some w \<and>
      worker_turns slow_start 1250 n 0 (0, 0) = Some (nxt', w') \<and> we_stop slow_start w' = (True, w) \<and>
      int n * 1250 < max 0 (4000 - 0) + 1250"
    using worker_returns[OF c now, where poll_interval = 1250 and deadline = 4000] by (metis zero_less_numeral)
  then show "\<exists>w. worker_run slow_start 1250 (0, 0) = Some w" by blast
qed

section \<open>The processor\<close>

record 'w cpu_worker =
  worker_driver :: driver_client
  cpu_device :: "A_HardwareDevice option"
  worker_queue :: "TelemetrySnapshot client_queue"
  worker_world :: 'w

text \<open>\<open>CPULiveMetrics::fetchMetrics\<close> with its driver client.\<close>

definition fetch_cpu :: "'w dc_env \<Rightarrow> A_HardwareDevice \<Rightarrow> 'w cpu_worker \<Rightarrow> (A_HardwareDevice \<times> 'w cpu_worker) outcome option" where
  "fetch_cpu E live s =
     (case runDriver E (worker_driver s) (worker_world s) of
        None \<Rightarrow> None
      | Some (Fault, dc, w) \<Rightarrow> Some Fault
      | Some (Returned ds, dc, w) \<Rightarrow> Some (Returned (fetchMetrics ds live, s\<lparr>worker_driver := dc, worker_world := w\<rparr>)))"

definition cpu_initialize :: "'w dc_env \<Rightarrow> 'w cpu_worker \<Rightarrow> 'w cpu_worker outcome option" where
  "cpu_initialize E s =
     (if h_device_valid (worker_driver s)
      then (case fetch_cpu E new_CPULiveMetrics s of
              None \<Rightarrow> None
            | Some Fault \<Rightarrow> Some Fault
            | Some (Returned (live, s)) \<Rightarrow> Some (Returned (s\<lparr>cpu_device := Some live\<rparr>)))
      else Some (Returned s))"

definition cpu_execute :: "'w dc_env \<Rightarrow> 'w cpu_worker \<Rightarrow> 'w cpu_worker outcome option" where
  "cpu_execute E s =
     (case cpu_device s of
        None \<Rightarrow> Some (Returned s)
      | Some live \<Rightarrow>
          (case fetch_cpu E live s of
             None \<Rightarrow> None
           | Some Fault \<Rightarrow> Some Fault
           | Some (Returned (live, s)) \<Rightarrow>
               Some (Returned (s\<lparr>cpu_device := Some live,
                                worker_queue := snd (push_section (snapshot live) (worker_queue s))\<rparr>))))"

section \<open>The graphics cards\<close>

datatype gpu_dev = Amd_Dev amd_gpu | Nvidia_Dev A_HardwareDevice

fun device_of :: "gpu_dev \<Rightarrow> A_HardwareDevice" where
  "device_of (Amd_Dev g) = gpu_device g"
| "device_of (Nvidia_Dev d) = d"

fun pool_devices :: "gpu_pool \<Rightarrow> gpu_dev list" where
  "pool_devices (Amd_Pool p) = map Amd_Dev (amd_devices p)"
| "pool_devices (Nvidia_Pool ds) = map Nvidia_Dev ds"

text \<open>\<open>initialize\<close>: the devices of all pools, unless the pools are not complete.\<close>

definition gpu_initialize :: "nv_machine \<Rightarrow> amd_machine \<Rightarrow> dxgi_vendor list \<Rightarrow> ended \<times> gpu_dev list" where
  "gpu_initialize N M detected =
     (case createGPUDevices N M detected of
        (Finished, pools) \<Rightarrow> (Finished, concat (map pool_devices pools))
      | (e, pools) \<Rightarrow> (e, []))"

text \<open>What the libraries answer in one round: for AMD by adapter or card, for NVIDIA by the place of the device.\<close>

record gpu_answers =
  answer_adl :: "nat \<Rightarrow> adl_calls"
  answer_adlx :: "nat \<Rightarrow> adlx_calls"
  answer_nv :: "nat \<Rightarrow> nv_calls"

definition fetch_gpu :: "gpu_answers \<Rightarrow> nat \<Rightarrow> gpu_dev \<Rightarrow> gpu_dev option" where
  "fetch_gpu R i d =
     (case d of
        Amd_Dev g \<Rightarrow> map_option Amd_Dev (fetch_amd (answer_adl R) (answer_adlx R) g)
      | Nvidia_Dev live \<Rightarrow> map_option Nvidia_Dev (fetch_nvidia (answer_nv R i) live))"

fun gpu_execute ::
  "gpu_answers \<Rightarrow> nat \<Rightarrow> gpu_dev list \<Rightarrow> TelemetrySnapshot client_queue \<Rightarrow>
     (gpu_dev list \<times> TelemetrySnapshot client_queue) option" where
  "gpu_execute R i [] q = Some ([], q)"
| "gpu_execute R i (d # ds) q =
     (case fetch_gpu R i d of
        None \<Rightarrow> None
      | Some d \<Rightarrow>
          (case gpu_execute R (Suc i) ds (snd (push_section (snapshot (device_of d)) q)) of
             None \<Rightarrow> None
           | Some (ds, q) \<Rightarrow> Some (d # ds, q)))"

section \<open>Starting and stopping\<close>

text \<open>A thread is the stop flag of its token; \<open>clear\<close> joins the threads, each of which has been asked to stop.\<close>

record manager =
  workers :: nat
  worker_threads :: "bool list"
  joined :: "bool list"

definition StartPolling :: "manager \<Rightarrow> manager" where
  "StartPolling m =
     (if worker_threads m \<noteq> [] then m else m\<lparr>worker_threads := replicate (workers m) False\<rparr>)"

definition StopPolling :: "manager \<Rightarrow> manager" where
  "StopPolling m =
     (let m = m\<lparr>worker_threads := map (\<lambda>_. True) (worker_threads m)\<rparr>
      in m\<lparr>joined := joined m @ worker_threads m, worker_threads := []\<rparr>)"

section \<open>What a round produces\<close>

lemma fetch_identity:
  "hd_name (fetchMetrics ds live) = hd_name live" "hd_vendor (fetchMetrics ds live) = hd_vendor live"
  "hw_type (fetchMetrics ds live) = hw_type live"
  unfolding fetchMetrics_def
  by (induction ds arbitrary: live) (auto simp: fetch_entry_def addSensor_def split: option.split)

lemma fetch_amd_backend: "fetch_amd adl adlx g = Some g' \<Longrightarrow> active_backend g' = active_backend g"
  by (auto simp: fetch_amd_def split: amd_backend.splits option.splits)

fun same_card :: "gpu_dev \<Rightarrow> gpu_dev \<Rightarrow> bool" where
  "same_card (Amd_Dev g) (Amd_Dev g') \<longleftrightarrow> active_backend g' = active_backend g"
| "same_card (Nvidia_Dev d) (Nvidia_Dev d') \<longleftrightarrow> True"
| "same_card _ _ \<longleftrightarrow> False"

lemma fetch_gpu_same: "fetch_gpu R i d = Some d' \<Longrightarrow> same_card d d'"
  by (cases d) (auto simp: fetch_gpu_def dest: fetch_amd_backend)

text \<open>
  A round of the graphics worker that ends keeps its devices in their order and puts exactly one
  snapshot of each, taken behind its reading, at the end of the queue; once the queue is closed it puts none.
\<close>

theorem gpu_round:
  "gpu_execute R i ds q = Some (ds', q') \<Longrightarrow>
     list_all2 same_card ds ds' \<and>
     q' = (if shutting_down q then q else q\<lparr>queue := queue q @ map (snapshot \<circ> device_of) ds'\<rparr>)"
proof (induction ds arbitrary: i q ds' q')
  case (Cons d ds)
  then obtain d' es where d: "fetch_gpu R i d = Some d'" "ds' = d' # es"
      "gpu_execute R (Suc i) ds (snd (push_section (snapshot (device_of d')) q)) = Some (es, q')"
    by (auto split: option.splits)
  from Cons.IH[OF d(3)] fetch_gpu_same[OF d(1)] d(2) show ?case by (auto simp: push_section_def)
qed simp

definition two_cards :: "gpu_dev list" where
  "two_cards = [Nvidia_Dev nv_device, Amd_Dev (new_ADL_gpu 1 ''RX'')]"

definition quiet :: gpu_answers where
  "quiet = \<lparr>answer_adl = (\<lambda>_. no_calls), answer_adlx = (\<lambda>_. no_adlx), answer_nv = (\<lambda>_. (sample_card [50])\<lparr>handle_set := False\<rparr>)\<rparr>"

lemma two_cards_run: "\<exists>cards q. gpu_execute quiet 0 two_cards empty_queue = Some (cards, q)"
proof -
  have "fetch_gpu quiet 0 (Nvidia_Dev nv_device) = Some (Nvidia_Dev nv_device)"
    by (simp add: fetch_gpu_def quiet_def fetch_nvidia_def)
  moreover have "\<exists>g. fetch_gpu quiet 1 (Amd_Dev (new_ADL_gpu 1 ''RX'')) = Some g"
    by (simp add: fetch_gpu_def quiet_def fetch_amd_def new_ADL_gpu_def fetchADLMetrics_def od_version_def fetch_od8_def no_calls_def
        split: prod.split)
  ultimately show ?thesis by (auto simp: two_cards_def)
qed

lemma gpu_round_witness:
  "\<exists>ds q. gpu_execute quiet 0 two_cards empty_queue = Some (ds, q) \<and> queue q = map (snapshot \<circ> device_of) ds \<and> length ds = 2"
proof -
  obtain ds q where r: "gpu_execute quiet 0 two_cards empty_queue = Some (ds, q)" using two_cards_run by blast
  from gpu_round[OF r] r show ?thesis
    by (auto simp: empty_queue_def two_cards_def list_all2_Cons1)
qed

lemma two_cards_round: "\<exists>cards q. gpu_execute quiet 0 two_cards empty_queue = Some (cards, q) \<and> length (queue q) = 2"
  using gpu_round_witness by fastforce

text \<open>
  A round of the processor's worker pushes a snapshot even when its reading fails: when the driver
  returns no metrics, the snapshot of the round before is sent again, with no sign that it is stale.
\<close>

theorem cpu_stale_snapshot:
  assumes "cpu_device s = Some live" and "runDriver E (worker_driver s) (worker_world s) = Some (Returned [], dc, w)"
    and "\<not> shutting_down (worker_queue s)"
  shows "\<exists>s'. cpu_execute E s = Some (Returned s') \<and> cpu_device s' = Some live \<and>
    queue (worker_queue s') = queue (worker_queue s) @ [snapshot live]"
  using assms by (simp add: cpu_execute_def fetch_cpu_def fetchMetrics_def push_section_def)

definition lost_driver :: "bool cpu_worker" where
  "lost_driver = \<lparr>worker_driver = \<lparr>h_device_valid = False, vendor = CPU_VENDOR_AMD, ret_data = []\<rparr>,
     cpu_device = Some new_CPULiveMetrics, worker_queue = empty_queue, worker_world = True\<rparr>"

lemma cpu_stale_snapshot_witness:
  "\<exists>s. cpu_execute removed_env lost_driver = Some (Returned s) \<and> queue (worker_queue s) = [snapshot new_CPULiveMetrics]"
  using cpu_stale_snapshot[of lost_driver new_CPULiveMetrics removed_env "worker_driver lost_driver" True]
  by (auto simp: lost_driver_def runDriver_def empty_queue_def)

section \<open>Every thread is joined once\<close>

text \<open>The commands of a program to the manager.\<close>

datatype manager_call = Start | Stop

fun manage :: "manager_call list \<Rightarrow> manager \<Rightarrow> manager" where
  "manage [] m = m"
| "manage (Start # cs) m = manage cs (StartPolling m)"
| "manage (Stop # cs) m = manage cs (StopPolling m)"

text \<open>At most one thread for each worker runs, and only threads that were asked to stop are joined.\<close>

definition managed :: "manager \<Rightarrow> bool" where
  "managed m \<longleftrightarrow> (worker_threads m = [] \<or> length (worker_threads m) = workers m) \<and> list_all id (joined m)"

lemma managed_Start: "managed m \<Longrightarrow> managed (StartPolling m)"
  by (auto simp: managed_def StartPolling_def)

lemma managed_Stop: "managed m \<Longrightarrow> managed (StopPolling m)"
  by (auto simp: managed_def StopPolling_def Let_def list_all_iff)

lemma manage_managed: "managed m \<Longrightarrow> managed (manage cs m)"
  by (induction cs m rule: manage.induct) (simp_all add: managed_Start managed_Stop)

text \<open>The destructor of the manager leaves no thread behind: every thread that was started is joined.\<close>

definition destroy_HardwareManager :: "manager \<Rightarrow> manager" where
  "destroy_HardwareManager m = StopPolling m"

lemma destroyed_joins_all:
  "worker_threads (destroy_HardwareManager m) = [] \<and>
   length (joined (destroy_HardwareManager m)) = length (joined m) + length (worker_threads m)"
  by (simp add: destroy_HardwareManager_def StopPolling_def Let_def)

end
