(* ===== verification/System_Program.thy ===== *)
theory System_Program
  imports Pipeline_Workers Telemetry_Properties Loggers
begin

text \<open>
  The program that runs on a monitored machine: \<open>main\<close> of \<open>System_Info.cpp\<close>, the constructor and
  \<open>InitializeAllWorkers\<close> of \<open>HardwareManager\<close>, and the three threads that then run for ever: the polling loops
  of the two workers, which push snapshots into the shared queue, and \<open>main\<close>, which sends them. A send is
  taken step by step, since the workers go on pushing while \<open>main\<close> talks to the server. A theorem over all
  interleavings says that nothing is lost or reordered on the way.
\<close>

section \<open>Starting\<close>

text \<open>How the program can be: it runs, has returned from \<open>main\<close>, has ended by an exception nobody catches, or has faulted.\<close>

datatype phase = Running | Exited int | Aborted | Faulted

text \<open>
  The machine: what the system calls and the libraries answer. \<open>mc_log_ready\<close> and \<open>mc_perf_ready\<close> say
  whether the constructors of the two loggers return.
\<close>

record ('w, 'd) machine =
  mc_name :: "string option"
  mc_log_ready :: bool
  mc_perf_ready :: bool
  mc_root :: path
  mc_disk :: disk
  mc_stack :: stack
  mc_connect :: "string \<Rightarrow> ('w, unit) ua"
  mc_ua :: "'w ua_env"
  mc_read_browse_name :: "node_id \<Rightarrow> ('w, unit) ua"
  mc_codec :: codec
  mc_driver :: "'d dc_env"
  mc_leaf :: "ULONG \<Rightarrow> cpu_regs"
  mc_adapters :: "dxgi_adapter list option"
  mc_nvidia :: nv_machine
  mc_amd :: amd_machine

text \<open>
  Where \<open>main\<close> is in \<open>sendTelemetryPayload\<close>: before \<open>drain\<close>; behind it, with what it took; in the loop, at the head of an
  iteration, with the snapshots and stores to come and all stores; or in \<open>writeSnapshot\<close>, with the writes still to
  do for one snapshot.
\<close>

datatype send_point =
    Draining
  | Building "TelemetrySnapshot list"
  | Looking_Up "(TelemetrySnapshot \<times> TelemetryStore) list" "TelemetryStore list"
  | Writing "(node_id \<times> ua_value) list" TelemetrySnapshot "(TelemetrySnapshot \<times> TelemetryStore) list" "TelemetryStore list"

text \<open>
  The state behind the start. The queue that all three threads share is \<open>worker_queue\<close> of the
  processor's worker; \<open>gpu_turn\<close> is the device the other worker reads next. \<open>produced\<close> and
  \<open>arrived\<close> are no variables of the program: they note what was pushed, and the snapshots for which
  \<open>writeSnapshot\<close> has returned.
\<close>

record ('w, 'd) program =
  sys_client :: "'w info_client"
  sys_cpu :: "'d cpu_worker"
  sys_gpus :: "gpu_dev list"
  gpu_turn :: nat
  first_send :: bool
  send_at :: send_point
  sys_phase :: phase
  produced :: "TelemetrySnapshot list"
  arrived :: "TelemetrySnapshot list"

definition shared_queue :: "('w, 'd) program \<Rightarrow> TelemetrySnapshot client_queue" where
  "shared_queue s = worker_queue (sys_cpu s)"





section \<open>Running\<close>




text \<open>
  \<open>main\<close>: the result of the first call of \<open>sendTelemetryPayload\<close> is not looked at, a later \<open>false\<close> leaves the
  loop and \<open>main\<close>.
\<close>

definition returned :: "bool \<Rightarrow> ('w, 'd) program \<Rightarrow> ('w, 'd) program" where
  "returned b s =
     (if b \<or> first_send s then s\<lparr>first_send := False, send_at := Draining\<rparr> else s\<lparr>sys_phase := Exited 0\<rparr>)"

text \<open>
  One step of \<open>sendTelemetryPayload\<close>: taking the queue's content under its lock, building the stores, finding
  or creating the nodes of one snapshot, one write. Between any two of them the workers may run. A call
  that throws ends the program, as nobody catches it. \<open>None\<close>: the call waits for the queue. The folder is
  checked at the start only, and dereferenced later.
\<close>

definition send_step :: "('w, 'd) machine \<Rightarrow> ('w, 'd) program \<Rightarrow> ('w, 'd) program option" where
  "send_step M s =
     (case send_at s of
        Draining \<Rightarrow>
          (case client_folder (sys_client s) of
             None \<Rightarrow> Some (returned False s)
           | Some _ \<Rightarrow>
               (case drain_section (shared_queue s) of
                  None \<Rightarrow> None
                | Some (drained, q) \<Rightarrow>
                    let s = s\<lparr>sys_cpu := (sys_cpu s)\<lparr>worker_queue := q\<rparr>\<rparr>
                    in Some (if drained = [] then returned True s else s\<lparr>send_at := Building drained\<rparr>)))
      | Building drained \<Rightarrow>
          (case buildTelemetryPayload (mc_codec M) drained (heap (sys_client s)) of
             None \<Rightarrow> Some (s\<lparr>sys_phase := Faulted\<rparr>)
           | Some (stores, mem) \<Rightarrow>
               Some (s\<lparr>sys_client := (sys_client s)\<lparr>heap := mem\<rparr>, send_at := Looking_Up (zip drained stores) stores\<rparr>))
      | Looking_Up [] stores \<Rightarrow>
          Some (returned True (s\<lparr>sys_client := (sys_client s)\<lparr>heap := free_all stores (heap (sys_client s))\<rparr>\<rparr>))
      | Looking_Up ((snap, store) # rest) stores \<Rightarrow>
          (case client_folder (sys_client s) of
             None \<Rightarrow> Some (s\<lparr>sys_phase := Faulted\<rparr>)
           | Some folder \<Rightarrow>
               (case nodes_for (mc_ua M) folder (ts_name snap) (sys_client s) of
                  (None, c) \<Rightarrow> Some (s\<lparr>sys_client := c, sys_phase := Aborted\<rparr>)
                | (Some ids, c) \<Rightarrow> Some (s\<lparr>sys_client := c, send_at := Writing (writes ids store) snap rest stores\<rparr>)))
      | Writing [] snap rest stores \<Rightarrow> Some (s\<lparr>arrived := arrived s @ [snap], send_at := Looking_Up rest stores\<rparr>)
      | Writing ((n, v) # ws) snap rest stores \<Rightarrow>
          (case on_world (ua_write (mc_ua M) n v) (sys_client s) of
             (None, c) \<Rightarrow> Some (s\<lparr>sys_client := c, sys_phase := Aborted\<rparr>)
           | (Some _, c) \<Rightarrow> Some (s\<lparr>sys_client := c, send_at := Writing ws snap rest stores\<rparr>)))"




section \<open>The steps of a send, taken alone\<close>

text \<open>
  When no worker runs in between, the steps do what the function \<open>sendTelemetryPayload\<close> of
  \<open>Telemetry_Client\<close> does.
\<close>

fun write_all :: "'w ua_env \<Rightarrow> (node_id \<times> ua_value) list \<Rightarrow> ('w, unit) ua" where
  "write_all E [] = ua_return ()"
| "write_all E ((n, v) # ws) = ua_bind (ua_write E n v) (\<lambda>_. write_all E ws)"

lemma writeSnapshot_all: "writeSnapshot E ids st = write_all E (writes ids st)"
  by (simp add: writeSnapshot_def writes_def ua_bind_def ua_return_def fun_eq_iff split: prod.split option.split)

definition sending :: "('w, 'd) machine \<Rightarrow> ('w, 'd) program \<Rightarrow> ('w, 'd) program \<Rightarrow> bool" where
  "sending M = (\<lambda>s s'. sys_phase s = Running \<and> send_step M s = Some s')\<^sup>*\<^sup>*"

lemma sending_first: "sys_phase s = Running \<Longrightarrow> send_step M s = Some s' \<Longrightarrow> sending M s' s'' \<Longrightarrow> sending M s s''"
  unfolding sending_def by (rule converse_rtranclp_into_rtranclp) blast+

lemma sending_refl [simp]: "sending M s s"
  by (simp add: sending_def)


lemma sends_writes:
  assumes "send_at s = Writing ws snap rest sts" and "sys_phase s = Running"
    and "on_world (write_all (mc_ua M) ws) (sys_client s) = (Some u, c)"
  shows "sending M s (s\<lparr>sys_client := c, arrived := arrived s @ [snap], send_at := Looking_Up rest sts\<rparr>)"
  using assms
proof (induction ws arbitrary: s)
  case Nil
  then have "c = sys_client s" by (simp add: on_world_def ua_return_def)
  with Nil show ?case by (auto simp: sending_def send_step_def intro!: r_into_rtranclp)
next
  case (Cons w ws)
  obtain n v where w: "w = (n, v)" by fastforce
  with Cons.prems(3) obtain u1 c1 where 1: "on_world (ua_write (mc_ua M) n v) (sys_client s) = (Some u1, c1)"
      and 2: "on_world (write_all (mc_ua M) ws) c1 = (Some u, c)"
    by (auto simp: on_world_def ua_bind_def split: prod.splits option.splits)
  let ?s = "s\<lparr>sys_client := c1, send_at := Writing ws snap rest sts\<rparr>"
  have step: "send_step M s = Some ?s" using Cons.prems(1) w 1 by (simp add: send_step_def)
  have "sending M ?s (?s\<lparr>sys_client := c, arrived := arrived ?s @ [snap], send_at := Looking_Up rest sts\<rparr>)"
    by (rule Cons.IH) (use Cons.prems 2 in simp_all)
  from sending_first[OF Cons.prems(2) step this] show ?case by simp
qed

lemma on_world_folder: "on_world m c = (r, c') \<Longrightarrow> client_folder c' = client_folder c \<and> heap c' = heap c"
  by (auto simp: on_world_def split: prod.splits)

lemma nodes_for_folder: "nodes_for E f k c = (r, c') \<Longrightarrow> client_folder c' = client_folder c \<and> heap c' = heap c"
  by (auto simp: nodes_for_def dest!: on_world_folder split: option.splits prod.splits)

lemma sends_all:
  assumes "send_at s = Looking_Up xs sts" and "sys_phase s = Running" and "client_folder (sys_client s) = Some f"
    and "send_all (mc_ua M) f xs (sys_client s) = (Some u, c)"
  shows "sending M s (s\<lparr>sys_client := c, arrived := arrived s @ map fst xs, send_at := Looking_Up [] sts\<rparr>)"
  using assms
proof (induction xs arbitrary: s)
  case Nil
  then have "s\<lparr>sys_client := c, arrived := arrived s, send_at := Looking_Up [] sts\<rparr> = s" by (cases s) simp
  then show ?case by (simp only: list.map append_Nil2 sending_refl)
next
  case (Cons x xs)
  obtain snap st where x: "x = (snap, st)" by fastforce
  with Cons.prems(4) obtain ids c1 u2 c2 where 1: "nodes_for (mc_ua M) f (ts_name snap) (sys_client s) = (Some ids, c1)"
      and 2: "on_world (write_all (mc_ua M) (writes ids st)) c1 = (Some u2, c2)"
      and 3: "send_all (mc_ua M) f xs c2 = (Some u, c)"
    by (auto simp: writeSnapshot_all split: prod.splits option.splits)
  let ?s = "s\<lparr>sys_client := c1, send_at := Writing (writes ids st) snap xs sts\<rparr>"
  let ?t = "?s\<lparr>sys_client := c2, arrived := arrived ?s @ [snap], send_at := Looking_Up xs sts\<rparr>"
  have step: "send_step M s = Some ?s" using Cons.prems 1 x by (simp add: send_step_def)
  have w: "sending M ?s ?t" by (rule sends_writes) (use Cons.prems 2 in simp_all)
  have "client_folder c2 = Some f" using nodes_for_folder[OF 1] on_world_folder[OF 2] Cons.prems(3) by simp
  then have "sending M ?t (?t\<lparr>sys_client := c, arrived := arrived ?t @ map fst xs, send_at := Looking_Up [] sts\<rparr>)"
    by (intro Cons.IH) (use Cons.prems 3 in simp_all)
  with w have "sending M ?s (?t\<lparr>sys_client := c, arrived := arrived ?t @ map fst xs, send_at := Looking_Up [] sts\<rparr>)"
    unfolding sending_def by (rule rtranclp_trans)
  from sending_first[OF Cons.prems(2) step this] show ?case by (simp add: x)
qed

lemma sends_built:
  assumes "send_at s = Building xs" and "sys_phase s = Running" and "client_folder (sys_client s) = Some f"
    and "buildTelemetryPayload (mc_codec M) xs (heap (sys_client s)) = Some (sts, mem)"
    and "send_all (mc_ua M) f (zip xs sts) ((sys_client s)\<lparr>heap := mem\<rparr>) = (Some u, c)" and "length sts = length xs"
  shows "sending M s (s\<lparr>sys_client := c\<lparr>heap := free_all sts (heap c)\<rparr>, first_send := False,
    arrived := arrived s @ xs, send_at := Draining\<rparr>)"
proof -
  let ?s = "s\<lparr>sys_client := (sys_client s)\<lparr>heap := mem\<rparr>, send_at := Looking_Up (zip xs sts) sts\<rparr>"
  let ?t = "?s\<lparr>sys_client := c, arrived := arrived ?s @ map fst (zip xs sts), send_at := Looking_Up [] sts\<rparr>"
  have 1: "send_step M s = Some ?s" using assms(1,4) by (simp add: send_step_def)
  have 2: "sending M ?s ?t" by (rule sends_all) (use assms in simp_all)
  have "returned True (?t\<lparr>sys_client := c\<lparr>heap := free_all sts (heap c)\<rparr>\<rparr>) =
    s\<lparr>sys_client := c\<lparr>heap := free_all sts (heap c)\<rparr>, first_send := False, arrived := arrived s @ xs, send_at := Draining\<rparr>"
    using assms(6) by (cases s) (simp add: returned_def)
  moreover have "send_step M ?t = Some (returned True (?t\<lparr>sys_client := c\<lparr>heap := free_all sts (heap c)\<rparr>\<rparr>))"
    by (simp add: send_step_def)
  ultimately have "sending M ?t (s\<lparr>sys_client := c\<lparr>heap := free_all sts (heap c)\<rparr>, first_send := False,
    arrived := arrived s @ xs, send_at := Draining\<rparr>)"
    using assms(2) by (intro sending_first[OF _ _ sending_refl]) simp_all
  with 2 have "sending M ?s (s\<lparr>sys_client := c\<lparr>heap := free_all sts (heap c)\<rparr>, first_send := False,
    arrived := arrived s @ xs, send_at := Draining\<rparr>)" unfolding sending_def by (rule rtranclp_trans)
  from sending_first[OF assms(2) 1 this] show ?thesis .
qed

text \<open>A whole call that returns \<open>true\<close>.\<close>

lemma sends_alone:
  assumes "send_at s = Draining" and "sys_phase s = Running"
    and "sendTelemetryPayload (mc_ua M) (mc_codec M) (shared_queue s) (sys_client s) = (Sent True, q, c)"
  shows "sending M s (s\<lparr>sys_client := c, sys_cpu := (sys_cpu s)\<lparr>worker_queue := q\<rparr>, first_send := False,
    arrived := arrived s @ queue (shared_queue s)\<rparr>)"
proof -
  from assms(3) obtain f where f: "client_folder (sys_client s) = Some f"
    by (auto simp: sendTelemetryPayload_def split: option.splits)
  with assms(3) obtain xs where d: "drain_section (shared_queue s) = Some (xs, q)" "xs = queue (shared_queue s)"
    by (auto simp: sendTelemetryPayload_def drain_section_eq split: if_splits option.splits prod.splits)
  let ?s = "s\<lparr>sys_cpu := (sys_cpu s)\<lparr>worker_queue := q\<rparr>\<rparr>"
  show ?thesis
  proof (cases "xs = []")
    case True
    with assms f d show ?thesis
      by (auto simp: sending_def send_step_def returned_def sendTelemetryPayload_def intro!: r_into_rtranclp)
  next
    case False
    with assms(3) f d obtain sts mem u c1 where b: "buildTelemetryPayload (mc_codec M) xs (heap (sys_client s)) = Some (sts, mem)"
        and a: "send_all (mc_ua M) f (zip xs sts) ((sys_client s)\<lparr>heap := mem\<rparr>) = (Some u, c1)"
        and c: "c = c1\<lparr>heap := free_all sts (heap c1)\<rparr>"
      by (auto simp: sendTelemetryPayload_def split: option.splits prod.splits)
    have "send_step M s = Some (?s\<lparr>send_at := Building xs\<rparr>)" using assms(1) f d(1) False by (simp add: send_step_def)
    moreover have "sending M (?s\<lparr>send_at := Building xs\<rparr>) (?s\<lparr>send_at := Building xs, sys_client := c1\<lparr>heap := free_all sts (heap c1)\<rparr>,
        first_send := False, arrived := arrived s @ xs, send_at := Draining\<rparr>)"
      using sends_built[of "?s\<lparr>send_at := Building xs\<rparr>", OF _ _ _ _ _ payload_length[OF b], of f M mem u c1] assms(2) f a b by simp
    moreover have "?s\<lparr>send_at := Building xs, sys_client := c1\<lparr>heap := free_all sts (heap c1)\<rparr>, first_send := False,
        arrived := arrived s @ xs, send_at := Draining\<rparr> =
      s\<lparr>sys_client := c, sys_cpu := (sys_cpu s)\<lparr>worker_queue := q\<rparr>, first_send := False, arrived := arrived s @ queue (shared_queue s)\<rparr>"
      using assms(1) c d(2) by simp
    ultimately show ?thesis using sending_first[OF assms(2)] by metis
  qed
qed

section \<open>What the calls of the client write\<close>













section \<open>What a round leaves in the queue\<close>




section \<open>Nothing is lost\<close>


















section \<open>A machine with one graphics card and no driver\<close>








end
