(* ===== verification/Wmi_Values.thy ===== *)
theory Wmi_Values
  imports Float32
begin

text \<open>
  The values WMI delivers, and the helpers of \<open>projutils.cpp\<close> that turn them into numbers and
  texts. A \<open>VARIANT\<close> is a type tag and the 64 bits of its union, of which each member reads the lowest
  ones; a \<open>BSTR\<close> is an address, and \<open>None\<close> is a read through an address that holds no string.
\<close>

section \<open>Variants\<close>

datatype VARTYPE =
  VT_EMPTY | VT_NULL | VT_I1 | VT_UI1 | VT_I2 | VT_UI2 | VT_I4 | VT_UI4 | VT_I8 | VT_UI8 | VT_BOOL | VT_BSTR |
  VT_OTHER "16 word"

record VARIANT =
  vt :: VARTYPE
  raw :: "64 word"

type_synonym wide = "16 word list"
type_synonym bstr_memory = "64 word \<rightharpoonup> wide"

definition cVal :: "VARIANT \<Rightarrow> 8 word" where "cVal v = ucast (raw v)"
definition uiVal :: "VARIANT \<Rightarrow> 16 word" where "uiVal v = ucast (raw v)"
definition ulVal :: "VARIANT \<Rightarrow> ULONG" where "ulVal v = ucast (raw v)"

definition VARIANT_TRUE :: "16 word" where "VARIANT_TRUE = - 1"

text \<open>A wide string of characters below 128.\<close>

definition widen :: "string \<Rightarrow> wide" where
  "widen s = map (\<lambda>c. word_of_nat (of_char c)) s"

section \<open>Numbers in strings\<close>

text \<open>
  \<open>_wtoi64\<close> of the C library: white space, a sign, decimal digits, and saturation. Of the characters
  that Unicode counts as space or digit, those below 128 are modelled.
\<close>

definition wide_space :: "16 word \<Rightarrow> bool" where
  "wide_space c \<longleftrightarrow> c = 32 \<or> 9 \<le> c \<and> c \<le> 13"

definition wide_digit :: "16 word \<Rightarrow> bool" where
  "wide_digit c \<longleftrightarrow> 48 \<le> c \<and> c \<le> 57"

fun digits_value :: "nat \<Rightarrow> wide \<Rightarrow> nat" where
  "digits_value acc [] = acc"
| "digits_value acc (c # cs) = (if wide_digit c then digits_value (acc * 10 + (unat c - 48)) cs else acc)"

definition wtoi64 :: "wide \<Rightarrow> int" where
  "wtoi64 s =
     (case dropWhile wide_space s of
        [] \<Rightarrow> 0
      | c # cs \<Rightarrow>
          if c = 45 then max (- (2 ^ 63)) (- int (digits_value 0 cs))
          else min (2 ^ 63 - 1) (int (digits_value 0 (if c = 43 then cs else c # cs))))"

definition VTConvertNumeric :: "bstr_memory \<Rightarrow> VARIANT \<Rightarrow> ULONGLONG option" where
  "VTConvertNumeric mem v =
     (case vt v of
        VT_I1 \<Rightarrow> Some (scast (cVal v))
      | VT_UI1 \<Rightarrow> Some (ucast (cVal v))
      | VT_I2 \<Rightarrow> Some (scast (uiVal v))
      | VT_UI2 \<Rightarrow> Some (ucast (uiVal v))
      | VT_I4 \<Rightarrow> Some (scast (ulVal v))
      | VT_UI4 \<Rightarrow> Some (ucast (ulVal v))
      | VT_I8 \<Rightarrow> Some (raw v)
      | VT_UI8 \<Rightarrow> Some (raw v)
      | VT_BOOL \<Rightarrow> Some (if uiVal v = VARIANT_TRUE then 1 else 0)
      | VT_BSTR \<Rightarrow> (if raw v = 0 then Some 0 else map_option (\<lambda>s. word_of_int (wtoi64 s)) (mem (raw v)))
      | _ \<Rightarrow> Some 0)"

section \<open>Texts\<close>

text \<open>The conversion of an integer to \<open>double\<close>: 53 bits, to nearest, ties to even.\<close>

fun bit_length :: "nat \<Rightarrow> nat" where
  "bit_length n = (if n = 0 then 0 else Suc (bit_length (n div 2)))"

declare bit_length.simps [simp del]

definition double_of_nat :: "nat \<Rightarrow> rat" where
  "double_of_nat n =
     (let e = bit_length n - 53 in of_int (round_half_even (of_nat n / 2 ^ e)) * 2 ^ e)"

definition BINARY_UNIT_MULTIPLIER :: rat where "BINARY_UNIT_MULTIPLIER = 1024"

text \<open>The loop; dividing a double by 1024 is exact.\<close>

function divide_down :: "rat \<Rightarrow> nat \<Rightarrow> rat \<times> nat" where
  "divide_down sz_updating divisions =
     (if sz_updating > BINARY_UNIT_MULTIPLIER then divide_down (sz_updating / BINARY_UNIT_MULTIPLIER) (Suc divisions)
      else (sz_updating, divisions))"
  by pat_completeness auto

termination
proof (relation "measure (\<lambda>(x, d). nat \<lceil>x\<rceil>)")
  fix sz :: rat and d :: nat
  assume gt: "BINARY_UNIT_MULTIPLIER < sz"
  then have "\<lceil>sz / 1024\<rceil> \<le> \<lceil>sz - 1\<rceil>" by (intro ceiling_mono) (simp add: BINARY_UNIT_MULTIPLIER_def field_simps)
  moreover have "\<lceil>sz - 1\<rceil> = \<lceil>sz\<rceil> - 1" by (rule ceiling_diff_one)
  moreover have "0 < \<lceil>sz\<rceil>" using gt by (simp add: BINARY_UNIT_MULTIPLIER_def)
  ultimately show "((sz / BINARY_UNIT_MULTIPLIER, Suc d), sz, d) \<in> measure (\<lambda>(x, d). nat \<lceil>x\<rceil>)"
    by (simp add: BINARY_UNIT_MULTIPLIER_def)
qed simp

declare divide_down.simps [simp del]

definition byte_units :: "string list" where
  "byte_units = [''B'', ''KB'', ''MB'', ''GB'', ''TB'', ''PB'', ''EB'']"

text \<open>The unit stays empty when there are more divisions than units.\<close>

definition simplifyBytesAsString :: "ULONGLONG \<Rightarrow> string" where
  "simplifyBytesAsString sz =
     (case divide_down (double_of_nat (unat sz)) 0 of
        (value, divisions) \<Rightarrow> show_fixed 2 value @ '' '' @ (if divisions \<ge> 7 then [] else byte_units ! divisions))"

definition availability_texts :: "string list" where
  "availability_texts =
     [''Other'', ''Unknown'', ''Running / Full Power'', ''Warning'', ''In Test'', ''Not Applicable'', ''Power Off'',
      ''Offline'', ''Off Duty'', ''Degraded'', ''Not Installed'', ''Install Error'', ''Power Save State, Status Unknown'',
      ''Power Save State - Low Power Mode'', ''Power Save State - On Standby'', ''Power Cycle'',
      ''Power Save State - Warning State'', ''Paused'', ''Not Ready'', ''Not Configured'', ''Quiet - The Device Is Quiet'']"

definition explainAvailability :: "16 word \<Rightarrow> string" where
  "explainAvailability av_status =
     (if 1 \<le> av_status \<and> av_status \<le> 21 then availability_texts ! (unat av_status - 1) else [])"

text \<open>
  \<open>wideToUtf8\<close>: \<open>size_of\<close> and \<open>bytes_of\<close> are the two calls of \<open>WideCharToMultiByte\<close>, whose output includes the
  final NUL.
\<close>

definition wideToUtf8 :: "(wide \<Rightarrow> int) \<Rightarrow> (wide \<Rightarrow> string) \<Rightarrow> wide option \<Rightarrow> string" where
  "wideToUtf8 size_of bytes_of wstr =
     (case wstr of
        None \<Rightarrow> []
      | Some w \<Rightarrow> if size_of w \<le> 0 then [] else take (nat (size_of w) - 1) (bytes_of w))"

section \<open>Numerals are read back\<close>

lemma widen_append: "widen (s @ t) = widen s @ widen t"
  by (simp add: widen_def)

lemma widen_digit: "d < 10 \<Longrightarrow> widen [digit_char d] = [word_of_nat (48 + d)]"
  by (simp add: widen_def digit_char_def take_bit_nat_eq_self del: word_of_nat_eq_iff)

lemma wide_digit_word:
  assumes "d < 10"
  shows "wide_digit (word_of_nat (48 + d))" "unat (word_of_nat (48 + d) :: 16 word) = 48 + d"
proof -
  show u: "unat (word_of_nat (48 + d) :: 16 word) = 48 + d" using assms by (intro unat_word_of_nat_small) simp
  then show "wide_digit (word_of_nat (48 + d))" unfolding wide_digit_def word_le_nat_alt using assms by simp
qed

lemma digits_value_append:
  "list_all wide_digit xs \<Longrightarrow> digits_value acc (xs @ ys) = digits_value (digits_value acc xs) ys"
  by (induction acc xs rule: digits_value.induct) auto

lemma numeral_digits: "list_all wide_digit (widen (show_nat n))"
proof (induction n rule: show_nat.induct)
  case (1 n)
  show ?case
  proof (cases "n < 10")
    case True
    then show ?thesis by (simp only: show_nat_small widen_digit list.pred_inject wide_digit_word simp_thms)
  next
    case False
    have "n mod 10 < 10" by simp
    from 1[OF False] wide_digit_word(1)[OF this] show ?thesis
      using False by (simp only: show_nat_big not_less widen_append widen_digit[OF \<open>n mod 10 < 10\<close>] list_all_append list.pred_inject simp_thms)
  qed
qed

lemma digits_value_numeral: "digits_value 0 (widen (show_nat n)) = n"
proof (induction n rule: show_nat.induct)
  case (1 n)
  show ?case
  proof (cases "n < 10")
    case True
    then show ?thesis using wide_digit_word[OF True] by (simp only: show_nat_small widen_digit digits_value.simps) simp
  next
    case False
    have "n mod 10 < 10" by simp
    note d = wide_digit_word[OF this]
    from False have "digits_value 0 (widen (show_nat n)) = digits_value (n div 10) [word_of_nat (48 + n mod 10)]"
      using 1[OF False] numeral_digits[of "n div 10"]
      by (simp only: show_nat_big not_less widen_append widen_digit[OF \<open>n mod 10 < 10\<close>] digits_value_append)
    also have "\<dots> = n div 10 * 10 + n mod 10" using d by (simp only: digits_value.simps if_True)
    finally show ?thesis by simp
  qed
qed

lemma wtoi64_numeral: "wtoi64 (widen (show_nat n)) = min (2 ^ 63 - 1) (int n)"
proof -
  obtain c cs where w: "widen (show_nat n) = c # cs"
    by (cases "widen (show_nat n)") (simp_all add: widen_def)
  with numeral_digits[of n] have c: "wide_digit c" by simp
  then have "\<not> wide_space c" "c \<noteq> 45" "c \<noteq> 43"
    unfolding wide_digit_def wide_space_def word_le_nat_alt word_unat_eq_iff by auto
  then show ?thesis using digits_value_numeral[of n] unfolding w wtoi64_def by simp
qed

text \<open>
  A size that WMI delivers as a decimal string is read back exactly up to \<open>2^63 - 1\<close>, and as that number
  when it is larger.
\<close>

theorem VTConvertNumeric_numeral:
  assumes "vt v = VT_BSTR" and "raw v \<noteq> 0" and "mem (raw v) = Some (widen (show_nat n))"
  shows "VTConvertNumeric mem v = Some (word_of_nat (min (2 ^ 63 - 1) n))"
proof -
  have "min (2 ^ 63 - 1) (int n) = int (min (2 ^ 63 - 1) n)" by (simp add: min_def)
  with assms show ?thesis by (simp only: VTConvertNumeric_def VARTYPE.case wtoi64_numeral option.map if_False of_int_of_nat_eq)
qed

lemma VTConvertNumeric_numeral_witness:
  "VTConvertNumeric [0x1000 \<mapsto> widen (show_nat 500107862016)] \<lparr>vt = VT_BSTR, raw = 0x1000\<rparr> = Some 500107862016"
  using VTConvertNumeric_numeral[of "\<lparr>vt = VT_BSTR, raw = 0x1000\<rparr>" "[0x1000 \<mapsto> widen (show_nat 500107862016)]" 500107862016]
  by simp

text \<open>The number an integer variant stands for; a negative one keeps its bits at the width of the result.\<close>

fun integer_value :: "VARIANT \<Rightarrow> int option" where
  "integer_value v =
     (case vt v of
        VT_I1 \<Rightarrow> Some (sint (cVal v)) | VT_UI1 \<Rightarrow> Some (uint (cVal v))
      | VT_I2 \<Rightarrow> Some (sint (uiVal v)) | VT_UI2 \<Rightarrow> Some (uint (uiVal v))
      | VT_I4 \<Rightarrow> Some (sint (ulVal v)) | VT_UI4 \<Rightarrow> Some (uint (ulVal v))
      | VT_I8 \<Rightarrow> Some (sint (raw v)) | VT_UI8 \<Rightarrow> Some (uint (raw v))
      | _ \<Rightarrow> None)"

lemma VTConvertNumeric_integer: "integer_value v = Some n \<Longrightarrow> VTConvertNumeric mem v = Some (word_of_int n)"
  by (cases "vt v") (auto simp: VTConvertNumeric_def)

section \<open>Sizes in words\<close>

lemma divide_down_value:
  "divide_down x d = (y, d') \<Longrightarrow> d \<le> d' \<and> y * 1024 ^ (d' - d) = x \<and> y \<le> 1024 \<and> (d < d' \<longrightarrow> 1 < y)"
proof (induction x d arbitrary: y d' rule: divide_down.induct)
  case (1 x d)
  show ?case
  proof (cases "x > 1024")
    case True
    with "1.prems" have r: "divide_down (x / 1024) (Suc d) = (y, d')"
      by (simp add: divide_down.simps[of x] BINARY_UNIT_MULTIPLIER_def)
    from "1.IH"[unfolded BINARY_UNIT_MULTIPLIER_def, OF True r] have
      h: "Suc d \<le> d'" "y * 1024 ^ (d' - Suc d) = x / 1024" "y \<le> 1024" "Suc d < d' \<longrightarrow> 1 < y" by auto
    have "d' - d = Suc (d' - Suc d)" using h(1) by simp
    then have "y * 1024 ^ (d' - d) = x" using h(2) by (simp add: field_simps)
    moreover have "1 < y"
    proof (cases "Suc d < d'")
      case False
      with h(1,2) True show ?thesis by (simp add: field_simps)
    qed (use h(4) in blast)
    ultimately show ?thesis using h by simp
  next
    case False
    with "1.prems" show ?thesis by (simp add: divide_down.simps[of x] BINARY_UNIT_MULTIPLIER_def)
  qed
qed

lemma bit_length_bounds: "n < 2 ^ bit_length n"
proof (induction n rule: bit_length.induct)
  case (1 n)
  show ?case
  proof (cases "n = 0")
    case False
    from 1[OF False] have "n div 2 < 2 ^ bit_length (n div 2)" .
    with False show ?thesis by (simp add: bit_length.simps[of n])
  qed (simp add: bit_length.simps)
qed

lemma bit_length_le: "n < 2 ^ k \<Longrightarrow> bit_length n \<le> k"
proof (induction n arbitrary: k rule: bit_length.induct)
  case (1 n)
  show ?case
  proof (cases "n = 0")
    case False
    with 1(2) obtain k' where k: "k = Suc k'" by (cases k) auto
    with 1(2) have "n div 2 < 2 ^ k'" by simp
    from 1(1)[OF False this] False k show ?thesis by (simp add: bit_length.simps[of n])
  qed (simp add: bit_length.simps)
qed

lemma round_le_int: "x < of_int m \<Longrightarrow> round_half_even x \<le> m"
proof -
  assume "x < of_int m"
  then have "\<lfloor>x\<rfloor> < m" by (simp add: floor_less_iff)
  then show ?thesis by (simp add: round_half_even_def Let_def)
qed

lemma double_of_nat_bound:
  assumes "n < 2 ^ 64"
  shows "double_of_nat n \<le> 2 ^ 64"
proof -
  define e where "e = bit_length n - 53"
  have e: "e \<le> 11" using bit_length_le[OF assms] by (simp add: e_def)
  have "n < 2 ^ (53 + e)" using bit_length_bounds[of n] by (rule less_le_trans) (simp add: e_def)
  then have "rat_of_nat n < rat_of_nat (2 ^ (53 + e))" by (simp only: of_nat_less_iff)
  then have "rat_of_nat n / 2 ^ e < of_int (2 ^ 53)" by (simp add: power_add field_simps)
  then have "round_half_even (of_nat n / 2 ^ e) \<le> 2 ^ 53" by (rule round_le_int)
  then have "(of_int (round_half_even (of_nat n / 2 ^ e)) :: rat) \<le> of_int (2 ^ 53)" by (simp only: of_int_le_iff)
  then have "of_int (round_half_even (of_nat n / 2 ^ e)) * 2 ^ e \<le> (2 ^ 53 * 2 ^ 11 :: rat)"
    using e by (intro mult_mono power_increasing) auto
  then show ?thesis by (simp add: double_of_nat_def Let_def e_def[symmetric])
qed

text \<open>
  Whatever 64-bit size is shown, the loop ends with one of the seven units, so the branch for an invalid size
  is never taken: the number in front of it is more than 1, unless there is no larger unit below it, and at most
  1024, and it is the size, as a double, in that unit.
\<close>

theorem simplifyBytesAsString_unit:
  "\<exists>y k. simplifyBytesAsString sz = show_fixed 2 y @ '' '' @ byte_units ! k \<and> k < 7 \<and>
     y * 1024 ^ k = double_of_nat (unat sz) \<and> y \<le> 1024 \<and> (k = 0 \<or> 1 < y)"
proof -
  obtain y k where d: "divide_down (double_of_nat (unat sz)) 0 = (y, k)" by fastforce
  from divide_down_value[OF d] have h: "y * 1024 ^ k = double_of_nat (unat sz)" "y \<le> 1024" "0 < k \<longrightarrow> 1 < y" by simp_all
  have "k < 7"
  proof (rule ccontr)
    assume "\<not> k < 7"
    then have "(1024 :: rat) ^ 7 \<le> 1 * 1024 ^ k" using power_increasing[of 7 k "1024 :: rat"] by simp
    also have "\<dots> \<le> y * 1024 ^ k" using h(3) \<open>\<not> k < 7\<close> by (intro mult_right_mono) auto
    also have "\<dots> \<le> 2 ^ 64" unfolding h(1) using unsigned_less[of sz] by (intro double_of_nat_bound) simp
    finally show False by simp
  qed
  with h d show ?thesis by (intro exI[of _ y] exI[of _ k]) (auto simp: simplifyBytesAsString_def)
qed

lemma simplifyBytesAsString_boundary: "simplifyBytesAsString 1024 = ''1024.00 B''"
  by (simp add: simplifyBytesAsString_def double_of_nat_def bit_length.simps divide_down.simps BINARY_UNIT_MULTIPLIER_def
      byte_units_def show_fixed_def round_half_even_def show_nat.simps digit_char_def pad_left_def) code_simp

end
