(* ===== verification/Wmi_Storage.thy ===== *)
theory Wmi_Storage
  imports Wmi_Values Pipeline_Workers
begin

text \<open>
  The inventory over WMI: \<open>HardwareQueries.h\<close> with \<open>WmiHelper.h\<close>, and the deprecated operations of
  \<open>HardwareManager\<close> that run six queries in threads of their own and join disks, partitions and volumes. \<open>None\<close> is an access
  through an invalid address, or an exception: both end the program. An object of WMI is the variant that
  \<open>Get\<close> leaves for each property, whatever its type.
\<close>

section \<open>What is read\<close>

type_synonym bstr = "wide option"
type_synonym wbem_object = "string \<Rightarrow> VARIANT"

record GraphicsProcessor =
  gp_name :: bstr
  adapter_RAM :: ULONG
  gp_device_id :: bstr
  availability :: "16 word"
  curr_ref_rate :: ULONG
  gp_status :: bstr

record Motherboard =
  description :: bstr
  hosting_board :: bool
  powered_on :: bool
  product :: bstr
  mb_status :: bstr

record Processor =
  pr_unq_id :: bstr
  pr_dev_id :: bstr
  proc_id :: bstr
  proc_type :: "16 word"
  pr_family :: "16 word"
  architecture :: "16 word"
  pr_manufacturer :: bstr
  pr_name :: bstr
  num_cores :: ULONG
  num_log_proc :: ULONG
  thread_cnt :: ULONG
  curr_clk_spd :: ULONG
  curr_vltg :: ULONG
  data_width :: ULONG

record PhysDisk =
  pd_disk_num :: ULONG
  pd_device_id :: bstr
  unq_id_frmt :: "16 word"
  spindle_speed :: ULONG

record Disk =
  dk_unq_id :: bstr
  dk_disk_num :: ULONG
  dk_fname :: bstr
  dk_manufacturer :: bstr
  num_partitions :: ULONG
  dk_model :: bstr
  dk_sz :: ULONGLONG

record Partition =
  partition_id :: "ULONG \<times> ULONG"
  pt_drv_ltr :: "16 word"
  pt_sz :: ULONGLONG

record Volume =
  vo_drv_ltr :: "16 word"
  vo_sz :: ULONGLONG
  sz_rmng :: ULONGLONG
  hstatus :: "16 word"

text \<open>\<open>bstr_t(v.bstrVal)\<close> reads the union whatever its tag says; the processor's query looks at the tag first.\<close>

definition bstr_val :: "bstr_memory \<Rightarrow> VARIANT \<Rightarrow> bstr option" where
  "bstr_val mem v = (if raw v = 0 then Some None else map_option Some (mem (raw v)))"

definition guarded_bstr :: "bstr_memory \<Rightarrow> VARIANT \<Rightarrow> bstr option" where
  "guarded_bstr mem v = (if vt v = VT_BSTR \<and> raw v \<noteq> 0 then map_option Some (mem (raw v)) else Some (Some []))"

definition read_GPU :: "bstr_memory \<Rightarrow> wbem_object \<Rightarrow> GraphicsProcessor option" where
  "read_GPU mem obj = do {
     nm \<leftarrow> bstr_val mem (obj ''Name'');
     device_ID \<leftarrow> bstr_val mem (obj ''DeviceID'');
     status \<leftarrow> bstr_val mem (obj ''Status'');
     Some \<lparr>gp_name = nm, adapter_RAM = ulVal (obj ''AdapterRAM''), gp_device_id = device_ID,
           availability = uiVal (obj ''Availability''), curr_ref_rate = ulVal (obj ''CurrentRefreshRate''), gp_status = status\<rparr> }"

definition read_Motherboard :: "bstr_memory \<Rightarrow> wbem_object \<Rightarrow> Motherboard option" where
  "read_Motherboard mem obj = do {
     desc \<leftarrow> bstr_val mem (obj ''Description'');
     prod \<leftarrow> bstr_val mem (obj ''Product'');
     status \<leftarrow> bstr_val mem (obj ''Status'');
     Some \<lparr>description = desc, hosting_board = (uiVal (obj ''HostingBoard'') = VARIANT_TRUE),
           powered_on = (uiVal (obj ''PoweredOn'') = VARIANT_TRUE), product = prod, mb_status = status\<rparr> }"

definition read_Processor :: "bstr_memory \<Rightarrow> wbem_object \<Rightarrow> Processor option" where
  "read_Processor mem obj = do {
     unq_id \<leftarrow> guarded_bstr mem (obj ''UniqueId'');
     dev_id \<leftarrow> guarded_bstr mem (obj ''DeviceID'');
     pid \<leftarrow> guarded_bstr mem (obj ''ProcessorId'');
     ptype \<leftarrow> VTConvertNumeric mem (obj ''ProcessorType'');
     family \<leftarrow> VTConvertNumeric mem (obj ''Family'');
     arch \<leftarrow> VTConvertNumeric mem (obj ''Architecture'');
     manufacturer \<leftarrow> guarded_bstr mem (obj ''Manufacturer'');
     nm \<leftarrow> guarded_bstr mem (obj ''Name'');
     cores \<leftarrow> VTConvertNumeric mem (obj ''NumberOfCores'');
     logical \<leftarrow> VTConvertNumeric mem (obj ''NumberOfLogicalProcessors'');
     threads \<leftarrow> VTConvertNumeric mem (obj ''ThreadCount'');
     speed \<leftarrow> VTConvertNumeric mem (obj ''CurrentClockSpeed'');
     voltage \<leftarrow> VTConvertNumeric mem (obj ''CurrentVoltage'');
     width \<leftarrow> VTConvertNumeric mem (obj ''DataWidth'');
     Some \<lparr>pr_unq_id = unq_id, pr_dev_id = dev_id, proc_id = pid, proc_type = ucast ptype, pr_family = ucast family,
           architecture = ucast arch, pr_manufacturer = manufacturer, pr_name = nm, num_cores = ucast cores,
           num_log_proc = ucast logical, thread_cnt = ucast threads, curr_clk_spd = ucast speed, curr_vltg = ucast voltage,
           data_width = ucast width\<rparr> }"

text \<open>
  The number of a physical disk, from the last decimal digit of its identifier on: \<open>substr\<close> throws when
  there is none, and building the string from a null \<open>BSTR\<close> is a fault. What \<open>std::stoi\<close> gets starts with a digit, so
  it neither skips nor fails.
\<close>

definition find_last_digit :: "wide \<Rightarrow> nat option" where
  "find_last_digit w = find (\<lambda>i. wide_digit (w ! i)) (rev [0..<length w])"

definition extractIndex :: "bstr \<Rightarrow> ULONG option" where
  "extractIndex dev_id =
     (case dev_id of
        None \<Rightarrow> None
      | Some w \<Rightarrow> map_option (\<lambda>pos. word_of_nat (digits_value 0 (drop pos w))) (find_last_digit w))"

definition read_PhysDisk :: "bstr_memory \<Rightarrow> wbem_object \<Rightarrow> PhysDisk option" where
  "read_PhysDisk mem obj = do {
     device_id \<leftarrow> bstr_val mem (obj ''DeviceId'');
     n \<leftarrow> extractIndex device_id;
     Some \<lparr>pd_disk_num = n, pd_device_id = device_id, unq_id_frmt = uiVal (obj ''UniqueIdFormat''),
           spindle_speed = ucast (raw (obj ''SpindleSpeed''))\<rparr> }"

definition read_Disk :: "bstr_memory \<Rightarrow> wbem_object \<Rightarrow> Disk option" where
  "read_Disk mem obj = do {
     unq_id \<leftarrow> bstr_val mem (obj ''UniqueId'');
     manufacturer \<leftarrow> bstr_val mem (obj ''Manufacturer'');
     mdl \<leftarrow> bstr_val mem (obj ''Model'');
     fname \<leftarrow> bstr_val mem (obj ''FriendlyName'');
     sz \<leftarrow> VTConvertNumeric mem (obj ''Size'');
     Some \<lparr>dk_unq_id = unq_id, dk_disk_num = ulVal (obj ''Number''), dk_fname = fname, dk_manufacturer = manufacturer,
           num_partitions = ulVal (obj ''NumberOfPartitions''), dk_model = mdl, dk_sz = sz\<rparr> }"

definition read_Partition :: "bstr_memory \<Rightarrow> wbem_object \<Rightarrow> Partition option" where
  "read_Partition mem obj = do {
     sz \<leftarrow> VTConvertNumeric mem (obj ''Size'');
     Some \<lparr>partition_id = (ulVal (obj ''DiskNumber''), ulVal (obj ''PartitionNumber'')),
           pt_drv_ltr = uiVal (obj ''DriveLetter''), pt_sz = sz\<rparr> }"

definition read_Volume :: "bstr_memory \<Rightarrow> wbem_object \<Rightarrow> Volume option" where
  "read_Volume mem obj = do {
     sz \<leftarrow> VTConvertNumeric mem (obj ''Size'');
     rmng \<leftarrow> VTConvertNumeric mem (obj ''SizeRemaining'');
     Some \<lparr>vo_drv_ltr = uiVal (obj ''DriveLetter''), vo_sz = sz, sz_rmng = rmng, hstatus = uiVal (obj ''HealthStatus'')\<rparr> }"

section \<open>Where it is kept\<close>

text \<open>\<open>insert\<close> of an unordered map keeps what is there. The disks are keyed by the narrow form of their identifier.\<close>

definition map_insert :: "'k \<Rightarrow> 'v \<Rightarrow> ('k \<rightharpoonup> 'v) \<Rightarrow> 'k \<rightharpoonup> 'v" where
  "map_insert k v m = (if m k = None then m(k \<mapsto> v) else m)"

record wmi_store =
  q_gpus :: "GraphicsProcessor list"
  q_cpus :: "Processor list"
  q_boards :: "Motherboard list"
  q_disks :: "string \<rightharpoonup> Disk"
  q_parts :: "ULONG \<times> ULONG \<rightharpoonup> Partition"
  q_volumes :: "16 word \<rightharpoonup> Volume"
  q_phys :: "ULONG \<rightharpoonup> PhysDisk"

definition empty_store :: wmi_store where
  "empty_store = \<lparr>q_gpus = [], q_cpus = [], q_boards = [], q_disks = Map.empty, q_parts = Map.empty, q_volumes = Map.empty,
     q_phys = Map.empty\<rparr>"

text \<open>The memory of the strings, and the conversion of a wide string to the code page of the system.\<close>

record wmi_env =
  wm_bstr :: bstr_memory
  wm_narrow :: "wide \<Rightarrow> string"

text \<open>The hash of a null \<open>BSTR\<close> builds a string from a null pointer.\<close>

definition insert_disk :: "wmi_env \<Rightarrow> Disk \<Rightarrow> wmi_store \<Rightarrow> wmi_store option" where
  "insert_disk E d s =
     (case dk_unq_id d of
        None \<Rightarrow> None
      | Some w \<Rightarrow> Some (s\<lparr>q_disks := map_insert (wm_narrow E w) d (q_disks s)\<rparr>))"

text \<open>What the callback of each query does with one object.\<close>

datatype wmi_query = Query_GPU | Query_CPU | Query_Board | Query_Disk | Query_Partition | Query_Volume | Query_PhysDisk

fun process_object :: "wmi_env \<Rightarrow> wmi_query \<times> wbem_object \<Rightarrow> wmi_store \<Rightarrow> wmi_store option" where
  "process_object E (Query_GPU, obj) s = do { g \<leftarrow> read_GPU (wm_bstr E) obj; Some (s\<lparr>q_gpus := q_gpus s @ [g]\<rparr>) }"
| "process_object E (Query_CPU, obj) s = do { c \<leftarrow> read_Processor (wm_bstr E) obj; Some (s\<lparr>q_cpus := q_cpus s @ [c]\<rparr>) }"
| "process_object E (Query_Board, obj) s = do { b \<leftarrow> read_Motherboard (wm_bstr E) obj; Some (s\<lparr>q_boards := q_boards s @ [b]\<rparr>) }"
| "process_object E (Query_Disk, obj) s = do { d \<leftarrow> read_Disk (wm_bstr E) obj; insert_disk E d s }"
| "process_object E (Query_Partition, obj) s =
     do { p \<leftarrow> read_Partition (wm_bstr E) obj; Some (s\<lparr>q_parts := map_insert (partition_id p) p (q_parts s)\<rparr>) }"
| "process_object E (Query_Volume, obj) s =
     do { v \<leftarrow> read_Volume (wm_bstr E) obj; Some (s\<lparr>q_volumes := map_insert (vo_drv_ltr v) v (q_volumes s)\<rparr>) }"
| "process_object E (Query_PhysDisk, obj) s =
     do { p \<leftarrow> read_PhysDisk (wm_bstr E) obj; Some (s\<lparr>q_phys := map_insert (pd_disk_num p) p (q_phys s)\<rparr>) }"

text \<open>A loop over objects; \<open>ExecuteWmiQuery\<close> gets them one by one until the enumerator returns none.\<close>

fun run_steps :: "('x \<Rightarrow> 's \<Rightarrow> 's option) \<Rightarrow> 'x list \<Rightarrow> 's \<Rightarrow> 's option" where
  "run_steps f [] s = Some s"
| "run_steps f (x # xs) s = do { s \<leftarrow> f x s; run_steps f xs s }"

definition ExecuteWmiQuery :: "wmi_env \<Rightarrow> wmi_query \<Rightarrow> wbem_object list option \<Rightarrow> wmi_store \<Rightarrow> wmi_store option" where
  "ExecuteWmiQuery E q result s =
     (case result of None \<Rightarrow> Some s | Some objs \<Rightarrow> run_steps (process_object E) (map (Pair q) objs) s)"

section \<open>Six threads\<close>

text \<open>The steps of the threads of \<open>QueryWmiHardware\<close>; \<open>result\<close> is what WMI answers to each query.\<close>

definition hardware_queries :: "wmi_query list" where
  "hardware_queries = [Query_CPU, Query_Board, Query_Disk, Query_Partition, Query_Volume, Query_PhysDisk]"

definition thread_steps :: "(wmi_query \<Rightarrow> wbem_object list option) \<Rightarrow> wmi_query \<Rightarrow> (wmi_query \<times> wbem_object) list" where
  "thread_steps result q = (case result q of None \<Rightarrow> [] | Some objs \<Rightarrow> map (Pair q) objs)"

text \<open>A merge of the threads, which keeps the order inside each of them.\<close>

inductive merges :: "'x list list \<Rightarrow> 'x list \<Rightarrow> bool" where
  ended: "list_all (\<lambda>xs. xs = []) xss \<Longrightarrow> merges xss []"
| first: "i < length xss \<Longrightarrow> xss ! i = x # xs \<Longrightarrow> merges (xss[i := xs]) ys \<Longrightarrow> merges xss (x # ys)"

text \<open>The threads run in some merge, and all are joined: the store that is left, or \<open>None\<close> when one has ended the program.\<close>

definition QueryWmiHardware ::
  "wmi_env \<Rightarrow> (wmi_query \<Rightarrow> wbem_object list option) \<Rightarrow> wmi_store \<Rightarrow> wmi_store option \<Rightarrow> bool" where
  "QueryWmiHardware E result s r \<longleftrightarrow>
     (\<exists>schedule. merges (map (thread_steps result) hardware_queries) schedule \<and> run_steps (process_object E) schedule s = r)"

section \<open>The join\<close>

text \<open>\<open>sd_physical\<close> is \<open>None\<close> when no physical disk was found: its numbers are then not initialised.\<close>

record StorageDevice =
  sd_disk :: Disk
  sd_partitions :: "Partition list"
  sd_volumes :: "Volume list"
  sd_physical :: "PhysDisk option"

fun attach_partitions :: "wmi_store \<Rightarrow> ULONG \<Rightarrow> nat list \<Rightarrow> StorageDevice \<Rightarrow> StorageDevice" where
  "attach_partitions s dn [] d = d"
| "attach_partitions s dn (i # is) d =
     (case q_parts s (dn, word_of_nat i) of
        None \<Rightarrow> attach_partitions s dn is d
      | Some p \<Rightarrow>
          let d = d\<lparr>sd_partitions := sd_partitions d @ [p]\<rparr> in
          attach_partitions s dn is
            (if pt_drv_ltr p \<noteq> 0
             then (case q_volumes s (pt_drv_ltr p) of Some v \<Rightarrow> d\<lparr>sd_volumes := sd_volumes d @ [v]\<rparr> | None \<Rightarrow> d)
             else d))"

definition storage_of :: "wmi_store \<Rightarrow> Disk \<Rightarrow> StorageDevice" where
  "storage_of s disk =
     (let d = attach_partitions s (dk_disk_num disk) [0..<unat (num_partitions disk)]
                \<lparr>sd_disk = disk, sd_partitions = [], sd_volumes = [], sd_physical = None\<rparr>
      in d\<lparr>sd_physical := q_phys s (dk_disk_num disk)\<rparr>)"

text \<open>\<open>infoPhysicalDrive\<close>: \<open>order\<close> is the order in which the unordered map lists its keys.\<close>

definition infoPhysicalDrive :: "string list \<Rightarrow> wmi_store \<Rightarrow> StorageDevice list" where
  "infoPhysicalDrive order s = map (\<lambda>k. storage_of s (the (q_disks s k))) order"

section \<open>Steps that do not meet\<close>

lemma run_steps_append: "run_steps f (xs @ ys) s = Option.bind (run_steps f xs s) (run_steps f ys)"
proof (induction xs arbitrary: s)
  case (Cons x xs)
  then show ?case by (cases "f x s") simp_all
qed simp

text \<open>Threads whose steps commute, as each of them has its own part of the state. A step carries the tag of its thread.\<close>

locale independent_threads =
  fixes f :: "'x \<Rightarrow> 's \<Rightarrow> 's option"
    and tag :: "'x \<Rightarrow> 't"
  assumes commute: "tag x \<noteq> tag y \<Longrightarrow> Option.bind (f x s) (f y) = Option.bind (f y s) (f x)"
begin

lemma bring_forward:
  "\<forall>u \<in> set us. tag u \<noteq> tag x \<Longrightarrow> run_steps f (us @ x # vs) s = run_steps f (x # us @ vs) s"
proof (induction us arbitrary: s)
  case (Cons u us)
  have IH: "run_steps f (us @ x # vs) = run_steps f (x # us @ vs)"
    by (rule ext, rule Cons.IH) (use Cons.prems in simp)
  have "run_steps f ((u # us) @ x # vs) s = Option.bind (Option.bind (f u s) (f x)) (run_steps f (us @ vs))"
    unfolding append_Cons run_steps.simps IH by (cases "f u s") simp_all
  also have "Option.bind (f u s) (f x) = Option.bind (f x s) (f u)" using Cons.prems by (intro commute) simp
  finally show ?case by (cases "f x s") simp_all
qed simp

text \<open>Only the order inside each thread matters.\<close>

lemma same_threads:
  "(\<And>t. filter (\<lambda>x. tag x = t) xs = filter (\<lambda>x. tag x = t) ys) \<Longrightarrow> run_steps f xs s = run_steps f ys s"
proof (induction xs arbitrary: ys s)
  case Nil
  have "y \<notin> set ys" for y using Nil.prems[of "tag y", symmetric] by (auto simp: filter_empty_conv)
  then have "ys = []" by (cases ys) auto
  then show ?case by simp
next
  case (Cons x xs)
  have "filter (\<lambda>y. tag y = tag x) ys = x # filter (\<lambda>y. tag y = tag x) xs" using Cons.prems[of "tag x"] by simp
  then obtain us vs where ys: "ys = us @ x # vs" "\<forall>u \<in> set us. tag u \<noteq> tag x"
      "filter (\<lambda>y. tag y = tag x) xs = filter (\<lambda>y. tag y = tag x) vs"
    by (auto simp: filter_eq_Cons_iff)
  have "filter (\<lambda>y. tag y = t) xs = filter (\<lambda>y. tag y = t) (us @ vs)" for t
  proof (cases "t = tag x")
    case True
    with ys(2) have "filter (\<lambda>y. tag y = t) us = []" by (simp add: filter_empty_conv)
    with ys(3) True show ?thesis by simp
  next
    case False
    with Cons.prems[of t] show ?thesis by (simp add: ys(1))
  qed
  then have IH: "run_steps f xs = run_steps f (us @ vs)" by (intro ext Cons.IH)
  show ?case unfolding ys(1) bring_forward[OF ys(2)] by (simp add: IH)
qed

end

section \<open>Merges\<close>

lemma merges_Nil: "merges xss ys \<Longrightarrow> merges ([] # xss) ys"
proof (induction rule: merges.induct)
  case (first i xss x xs ys)
  then show ?case using merges.first[of "Suc i" "[] # xss" x xs ys] by simp
qed (simp add: merges.ended)

lemma merges_Cons: "merges xss ys \<Longrightarrow> merges (xs # xss) (xs @ ys)"
proof (induction xs)
  case (Cons x xs)
  then show ?case using merges.first[of 0 "(x # xs) # xss" x xs "xs @ ys"] by simp
qed (simp add: merges_Nil)

lemma merges_concat: "merges xss (concat xss)"
  by (induction xss) (simp_all add: merges.ended merges_Cons)

text \<open>A merge of threads with different tags holds the steps of each thread in their order.\<close>

lemma merges_filter:
  assumes "merges xss ys" and "length xss = length qs" and "distinct qs"
    and "\<forall>i < length xss. \<forall>x \<in> set (xss ! i). tag x = qs ! i"
  shows "(\<forall>i < length xss. filter (\<lambda>x. tag x = qs ! i) ys = xss ! i) \<and> (\<forall>y \<in> set ys. tag y \<in> set qs)"
  using assms
proof (induction rule: merges.induct)
  case (ended xss)
  then show ?case by (simp add: list_all_length)
next
  case (first i xss x xs ys)
  have x: "tag x = qs ! i" using first.prems(3) first.hyps(1,2) by (metis list.set_intros(1))
  have "\<forall>j < length (xss[i := xs]). \<forall>y \<in> set (xss[i := xs] ! j). tag y = qs ! j"
    using first.prems(3) first.hyps(1,2) by (metis length_list_update list.set_intros(2) nth_list_update)
  with first.IH first.prems(1,2) have IH: "\<And>j. j < length xss \<Longrightarrow> filter (\<lambda>x. tag x = qs ! j) ys = xss[i := xs] ! j"
      "\<forall>y \<in> set ys. tag y \<in> set qs" by simp_all
  have "filter (\<lambda>x. tag x = qs ! j) (x # ys) = xss ! j" if j: "j < length xss" for j
  proof (cases "j = i")
    case True
    with IH(1)[OF j] first.hyps(2) x j show ?thesis by simp
  next
    case False
    with first.prems(1,2) first.hyps(1) j x have "tag x \<noteq> qs ! j" by (simp add: nth_eq_iff_index_eq)
    with IH(1)[OF j] False show ?thesis by simp
  qed
  moreover have "tag x \<in> set qs" using x first.hyps(1) first.prems(1) by simp
  ultimately show ?case using IH(2) by simp
qed


section \<open>The threads do not race\<close>

text \<open>Each query has its own container, so the steps of different threads commute.\<close>

interpretation wmi: independent_threads "process_object E" fst for E
proof
  fix x y :: "wmi_query \<times> wbem_object" and s
  assume "fst x \<noteq> fst y"
  then show "Option.bind (process_object E x s) (process_object E y) = Option.bind (process_object E y s) (process_object E x)"
    by (cases "(E, x, s)" rule: process_object.cases; cases "(E, y, s)" rule: process_object.cases)
       (auto simp: insert_disk_def Option.bind_eq_None_conv split: bind_splits option.splits)
qed

text \<open>The queries one after the other.\<close>

fun query_in_turn ::
  "wmi_env \<Rightarrow> (wmi_query \<Rightarrow> wbem_object list option) \<Rightarrow> wmi_query list \<Rightarrow> wmi_store \<Rightarrow> wmi_store option" where
  "query_in_turn E result [] s = Some s"
| "query_in_turn E result (q # qs) s = do { s \<leftarrow> ExecuteWmiQuery E q (result q) s; query_in_turn E result qs s }"

lemma query_in_turn_steps:
  "query_in_turn E result qs s = run_steps (process_object E) (concat (map (thread_steps result) qs)) s"
proof (induction qs arbitrary: s)
  case (Cons q qs)
  have "ExecuteWmiQuery E q (result q) s = run_steps (process_object E) (thread_steps result q) s"
    by (simp add: ExecuteWmiQuery_def thread_steps_def split: option.split)
  moreover have "query_in_turn E result qs = run_steps (process_object E) (concat (map (thread_steps result) qs))"
    by (intro ext Cons.IH)
  ultimately show ?case by (simp add: run_steps_append)
qed simp

lemma merges_of_queries:
  assumes "merges (map (thread_steps result) qs) schedule" and "distinct qs"
  shows "filter (\<lambda>x. fst x = t) schedule = (if t \<in> set qs then thread_steps result t else [])"
proof -
  have "\<forall>i < length (map (thread_steps result) qs). \<forall>x \<in> set (map (thread_steps result) qs ! i). fst x = qs ! i"
    by (auto simp: thread_steps_def split: option.splits)
  from merges_filter[OF assms(1) _ assms(2) this] show ?thesis
    by (auto simp: in_set_conv_nth filter_empty_conv)
qed

text \<open>
  C36: The six queries may run at once: however the threads interleave, they leave the store that the queries leave one
  after the other, and they end the program exactly when one of those would.
\<close>

theorem queries_do_not_race:
  "QueryWmiHardware E result s r \<longleftrightarrow> r = query_in_turn E result hardware_queries s"
proof -
  let ?threads = "map (thread_steps result) hardware_queries"
  have d: "distinct hardware_queries" by (simp add: hardware_queries_def)
  have same: "run_steps (process_object E) schedule s = query_in_turn E result hardware_queries s"
    if "merges ?threads schedule" for schedule
    unfolding query_in_turn_steps
    by (rule wmi.same_threads) (simp only: merges_of_queries[OF that d] merges_of_queries[OF merges_concat d])
  have "merges ?threads (concat ?threads)" by (rule merges_concat)
  with same show ?thesis unfolding QueryWmiHardware_def by blast
qed

section \<open>What the join attaches\<close>

text \<open>Everything in the store is filed under its own key.\<close>

definition filed :: "wmi_store \<Rightarrow> bool" where
  "filed s \<longleftrightarrow> (\<forall>k p. q_parts s k = Some p \<longrightarrow> partition_id p = k) \<and>
     (\<forall>k v. q_volumes s k = Some v \<longrightarrow> vo_drv_ltr v = k) \<and> (\<forall>k p. q_phys s k = Some p \<longrightarrow> pd_disk_num p = k)"

lemma process_object_filed: "process_object E x s = Some s' \<Longrightarrow> filed s \<Longrightarrow> filed s'"
  by (cases "(E, x, s)" rule: process_object.cases)
     (auto simp: filed_def map_insert_def insert_disk_def split: bind_splits option.splits if_splits)

lemma run_steps_filed: "run_steps (process_object E) xs s = Some s' \<Longrightarrow> filed s \<Longrightarrow> filed s'"
  by (induction xs arbitrary: s) (auto split: bind_splits dest: process_object_filed)

lemma queried_filed: "QueryWmiHardware E result empty_store (Some s) \<Longrightarrow> filed s"
  unfolding QueryWmiHardware_def using run_steps_filed[of E _ empty_store s]
  by (auto simp: filed_def empty_store_def)

text \<open>The partitions below the number of a disk, in order, and the volumes of those that have a letter.\<close>

definition partitions_of :: "wmi_store \<Rightarrow> ULONG \<Rightarrow> nat list \<Rightarrow> Partition list" where
  "partitions_of s dn is = List.map_filter (\<lambda>i. q_parts s (dn, word_of_nat i)) is"

definition volume_of :: "wmi_store \<Rightarrow> Partition \<Rightarrow> Volume option" where
  "volume_of s p = (if pt_drv_ltr p \<noteq> 0 then q_volumes s (pt_drv_ltr p) else None)"

lemma attach_partitions_eq:
  "attach_partitions s dn is d = d\<lparr>sd_partitions := sd_partitions d @ partitions_of s dn is,
     sd_volumes := sd_volumes d @ List.map_filter (volume_of s) (partitions_of s dn is)\<rparr>"
proof (induction s dn "is" d rule: attach_partitions.induct)
  case (2 s dn i "is" d)
  then show ?case
    by (cases "q_parts s (dn, word_of_nat i)")
       (auto simp: partitions_of_def volume_of_def Let_def split: option.splits if_splits)
qed (simp add: partitions_of_def map_filter_simps)

lemma storage_of_eq:
  "storage_of s disk =
     \<lparr>sd_disk = disk, sd_partitions = partitions_of s (dk_disk_num disk) [0..<unat (num_partitions disk)],
      sd_volumes = List.map_filter (volume_of s) (partitions_of s (dk_disk_num disk) [0..<unat (num_partitions disk)]),
      sd_physical = q_phys s (dk_disk_num disk)\<rparr>"
  by (simp add: storage_of_def attach_partitions_eq Let_def)

lemma ULONG_index: "i < unat (n :: ULONG) \<Longrightarrow> unat (word_of_nat i :: ULONG) = i"
  using unsigned_less[where 'a = nat, of n] by (intro unat_word_of_nat_small) simp

lemma set_partitions_of:
  "filed s \<Longrightarrow> p \<in> set (partitions_of s dn [0..<unat n]) \<longleftrightarrow>
     q_parts s (partition_id p) = Some p \<and> fst (partition_id p) = dn \<and> snd (partition_id p) < n"
proof
  assume f: "filed s" and "p \<in> set (partitions_of s dn [0..<unat n])"
  then obtain i where i: "i < unat n" "q_parts s (dn, word_of_nat i) = Some p"
    by (auto simp: partitions_of_def map_filter_def)
  with f have "partition_id p = (dn, word_of_nat i)" by (simp add: filed_def)
  moreover have "unat (word_of_nat i :: ULONG) = i" by (rule ULONG_index[OF i(1)])
  then have "word_of_nat i < n" using i(1) by (simp add: word_less_nat_alt)
  ultimately show "q_parts s (partition_id p) = Some p \<and> fst (partition_id p) = dn \<and> snd (partition_id p) < n"
    using i(2) by simp
next
  assume "filed s" and p: "q_parts s (partition_id p) = Some p \<and> fst (partition_id p) = dn \<and> snd (partition_id p) < n"
  then have "q_parts s (dn, word_of_nat (unat (snd (partition_id p)))) = Some p" by (cases "partition_id p") simp
  moreover have "unat (snd (partition_id p)) < unat n" using p by (simp add: word_less_nat_alt)
  ultimately show "p \<in> set (partitions_of s dn [0..<unat n])"
    by (auto simp: partitions_of_def map_filter_def intro!: image_eqI[of _ _ "unat (snd (partition_id p))"])
qed

lemma distinct_partitions_of:
  fixes n :: ULONG
  assumes "filed s"
  shows "distinct (map partition_id (partitions_of s dn [0..<unat n]))"
proof -
  have ids: "map partition_id (partitions_of s dn is) = filter (\<lambda>k. q_parts s k \<noteq> None) (map (\<lambda>i. (dn, word_of_nat i)) is)" for "is"
    using assms by (induction "is") (auto simp: partitions_of_def filed_def split: option.split)
  have "inj_on (\<lambda>i. (dn, word_of_nat i :: ULONG)) (set [0..<unat n])"
  proof (rule inj_on_inverseI)
    fix i assume "i \<in> set [0..<unat n]"
    then show "unat (snd (dn, word_of_nat i :: ULONG)) = i" using ULONG_index[of i n] by simp
  qed
  then have "distinct (map (\<lambda>i. (dn, word_of_nat i :: ULONG)) [0..<unat n])" by (simp only: distinct_map distinct_upt simp_thms)
  then show ?thesis unfolding ids by (rule distinct_filter)
qed

text \<open>
  C35: The join makes one device for each disk, in the order of the map, with that disk and with the physical disk of its
  number, or with none when there is none. Each device gets, without doubles, exactly the partitions that were found on its
  own disk with a number below the number of partitions of the disk, and the volumes of those that have a
  letter; no partition goes to two devices. Partitions are numbered from 1, so the last one of every disk is left out.
\<close>

theorem storage_join:
  assumes "QueryWmiHardware E result empty_store (Some s)" and "distinct order" and "set order = dom (q_disks s)"
    and "inj_on (\<lambda>k. dk_disk_num (the (q_disks s k))) (dom (q_disks s))"
  shows "map (Some \<circ> sd_disk) (infoPhysicalDrive order s) = map (q_disks s) order \<and>
    list_all (\<lambda>sd. sd_physical sd = q_phys s (dk_disk_num (sd_disk sd)) \<and>
        (\<forall>pd. sd_physical sd = Some pd \<longrightarrow> pd_disk_num pd = dk_disk_num (sd_disk sd)) \<and>
        (\<forall>p. p \<in> set (sd_partitions sd) \<longleftrightarrow> q_parts s (partition_id p) = Some p \<and>
           fst (partition_id p) = dk_disk_num (sd_disk sd) \<and> snd (partition_id p) < num_partitions (sd_disk sd)) \<and>
        sd_volumes sd = List.map_filter (volume_of s) (sd_partitions sd)) (infoPhysicalDrive order s) \<and>
    distinct (map partition_id (concat (map sd_partitions (infoPhysicalDrive order s))))"
proof (intro conjI)
  have f: "filed s" using assms(1) by (rule queried_filed)
  let ?disk = "\<lambda>k. the (q_disks s k)"
  let ?ps = "\<lambda>k. partitions_of s (dk_disk_num (?disk k)) [0..<unat (num_partitions (?disk k))]"
  have ps: "map sd_partitions (infoPhysicalDrive order s) = map ?ps order"
    by (simp add: infoPhysicalDrive_def storage_of_eq comp_def)
  have "distinct (map partition_id (concat (map ?ps ks)))" if "distinct ks" "set ks \<subseteq> dom (q_disks s)" for ks
    using that
  proof (induction ks)
    case (Cons k ks)
    have "partition_id p \<noteq> partition_id q" if "p \<in> set (?ps k)" "k' \<in> set ks" "q \<in> set (?ps k')" for p q k'
    proof -
      have "k \<noteq> k'" "k \<in> dom (q_disks s)" "k' \<in> dom (q_disks s)" using Cons.prems that(2) by auto
      then have "dk_disk_num (?disk k) \<noteq> dk_disk_num (?disk k')" using assms(4) unfolding inj_on_def by blast
      with that(1,3) show ?thesis unfolding set_partitions_of[OF f] by metis
    qed
    then have "set (map partition_id (?ps k)) \<inter> set (map partition_id (concat (map ?ps ks))) = {}" by fastforce
    with Cons distinct_partitions_of[OF f] show ?case by (simp only: list.map concat.simps map_append distinct_append) simp
  qed simp
  with assms(2,3) show "distinct (map partition_id (concat (map sd_partitions (infoPhysicalDrive order s))))"
    by (simp add: ps)
  show "map (Some \<circ> sd_disk) (infoPhysicalDrive order s) = map (q_disks s) order"
    using assms(3) by (auto simp: infoPhysicalDrive_def storage_of_eq)
  show "list_all (\<lambda>sd. sd_physical sd = q_phys s (dk_disk_num (sd_disk sd)) \<and>
        (\<forall>pd. sd_physical sd = Some pd \<longrightarrow> pd_disk_num pd = dk_disk_num (sd_disk sd)) \<and>
        (\<forall>p. p \<in> set (sd_partitions sd) \<longleftrightarrow> q_parts s (partition_id p) = Some p \<and>
           fst (partition_id p) = dk_disk_num (sd_disk sd) \<and> snd (partition_id p) < num_partitions (sd_disk sd)) \<and>
        sd_volumes sd = List.map_filter (volume_of s) (sd_partitions sd)) (infoPhysicalDrive order s)"
    using f by (simp add: infoPhysicalDrive_def storage_of_eq list_all_iff set_partitions_of[OF f]) (simp add: filed_def)
qed

text \<open>
  One disk of two partitions, as WMI numbers them, of which the second has a letter: the device gets the first partition alone, and no volume.
\<close>

definition wmi_answers :: "wmi_query \<Rightarrow> wbem_object list option" where
  "wmi_answers q =
     (let obj = (\<lambda>xs name. case map_of xs name of Some (t, n) \<Rightarrow> \<lparr>vt = t, raw = n\<rparr> | None \<Rightarrow> \<lparr>vt = VT_EMPTY, raw = 0\<rparr>) in
      case q of
        Query_Disk \<Rightarrow> Some [obj [(''UniqueId'', VT_BSTR, 16), (''Number'', VT_UI4, 0), (''NumberOfPartitions'', VT_UI4, 2)]]
      | Query_Partition \<Rightarrow>
          Some [obj [(''DiskNumber'', VT_UI4, 0), (''PartitionNumber'', VT_UI4, 1), (''Size'', VT_UI8, 500)],
                obj [(''DiskNumber'', VT_UI4, 0), (''PartitionNumber'', VT_UI4, 2), (''DriveLetter'', VT_UI2, 67), (''Size'', VT_UI8, 900)]]
      | Query_Volume \<Rightarrow> Some [obj [(''DriveLetter'', VT_UI2, 67), (''Size'', VT_UI8, 900), (''SizeRemaining'', VT_UI8, 100)]]
      | _ \<Rightarrow> None)"

definition wmi_sample_env :: wmi_env where
  "wmi_sample_env = \<lparr>wm_bstr = [16 \<mapsto> widen ''d''], wm_narrow = (\<lambda>w. ''d'')\<rparr>"

definition wmi_sample_store :: wmi_store where
  "wmi_sample_store = the (query_in_turn wmi_sample_env wmi_answers hardware_queries empty_store)"

lemma wmi_sample_store_parts:
  "query_in_turn wmi_sample_env wmi_answers hardware_queries empty_store = Some wmi_sample_store"
  "q_disks wmi_sample_store = [''d'' \<mapsto> \<lparr>dk_unq_id = Some (widen ''d''), dk_disk_num = 0, dk_fname = None, dk_manufacturer = None,
     num_partitions = 2, dk_model = None, dk_sz = 0\<rparr>]"
  "map sd_partitions (infoPhysicalDrive [''d''] wmi_sample_store) = [[\<lparr>partition_id = (0, 1), pt_drv_ltr = 0, pt_sz = 500\<rparr>]]"
  by (simp_all add: wmi_sample_store_def hardware_queries_def wmi_answers_def wmi_sample_env_def empty_store_def ExecuteWmiQuery_def
      read_Disk_def read_Partition_def read_Volume_def bstr_val_def VTConvertNumeric_def ulVal_def uiVal_def insert_disk_def
      map_insert_def infoPhysicalDrive_def storage_of_def upt_rec Let_def)

lemma storage_join_witness:
  "map sd_partitions (infoPhysicalDrive [''d''] wmi_sample_store) = [[\<lparr>partition_id = (0, 1), pt_drv_ltr = 0, pt_sz = 500\<rparr>]] \<and>
   map (Some \<circ> sd_disk) (infoPhysicalDrive [''d''] wmi_sample_store) = [q_disks wmi_sample_store ''d''] \<and>
   list_all (\<lambda>sd. sd_volumes sd = List.map_filter (volume_of wmi_sample_store) (sd_partitions sd)) (infoPhysicalDrive [''d''] wmi_sample_store)"
proof -
  let ?threads = "map (thread_steps wmi_answers) hardware_queries"
  have "merges ?threads (concat ?threads)" by (rule merges_concat)
  then have "QueryWmiHardware wmi_sample_env wmi_answers empty_store (Some wmi_sample_store)"
    using wmi_sample_store_parts(1) by (auto simp: QueryWmiHardware_def query_in_turn_steps)
  from storage_join[OF this, of "[''d'']"] wmi_sample_store_parts(2,3) show ?thesis by (simp add: list_all_iff)
qed

lemma numeral_ends: "\<exists>pre. show_nat n = pre @ [digit_char (n mod 10)]"
  by (cases "n < 10") (simp_all add: show_nat_small show_nat_big)

text \<open>
  Of the identifier of a physical disk only the last digit counts, so of the disks whose numbers end in the same digit one is kept,
  and it is joined to the disk of that digit.
\<close>

theorem extractIndex_last_digit:
  "extractIndex (Some (widen (show_nat n))) = Some (word_of_nat (n mod 10))"
proof -
  obtain pre where pre: "show_nat n = pre @ [digit_char (n mod 10)]" using numeral_ends by blast
  have d: "n mod 10 < 10" by simp
  define w where "w = widen pre"
  have w: "widen (show_nat n) = w @ [word_of_nat (48 + n mod 10)]"
    by (simp only: pre widen_append widen_digit[OF d] w_def)
  have "rev [0..<length (widen (show_nat n))] = length w # rev [0..<length w]" by (simp add: w)
  then have "find_last_digit (widen (show_nat n)) = Some (length w)"
    unfolding find_last_digit_def using wide_digit_word(1)[OF d] by (simp add: w)
  moreover have "digits_value 0 (drop (length w) (widen (show_nat n))) = n mod 10"
    unfolding w using wide_digit_word[OF d] by simp
  ultimately show ?thesis by (simp add: extractIndex_def)
qed

end
