(* ===== verification/Com_Setup.thy ===== *)
theory Com_Setup
  imports Wmi_Storage
begin

text \<open>
  What the inventory over WMI needs before its queries: \<open>ComManager.cpp\<close>, which initialises COM and gives it back, and
  \<open>WbemManager.cpp\<close>, which connects to the two namespaces. What they print of failures is left out.
\<close>

section \<open>The calls\<close>

text \<open>
  \<open>co_init\<close>, \<open>co_security\<close> and \<open>co_create\<close> tell whether they succeed; \<open>co_connect\<close> is \<open>ConnectServer\<close>, with the services it
  leaves in its argument.
\<close>

record ('w, 's) com_env =
  co_init :: "'w \<Rightarrow> bool \<times> 'w"
  co_security :: "'w \<Rightarrow> bool \<times> 'w"
  co_uninit :: "'w \<Rightarrow> 'w"
  co_create :: "'w \<Rightarrow> bool \<times> 'w"
  co_connect :: "string \<Rightarrow> 'w \<Rightarrow> 's option \<times> 'w"
  co_blanket :: "'s \<Rightarrow> 'w \<Rightarrow> 'w"

section \<open>COM\<close>

record ComManager =
  initialized :: bool

text \<open>The constructor goes on after each failure, and counts itself as initialised in the end.\<close>

definition new_ComManager :: "('w, 's) com_env \<Rightarrow> 'w \<Rightarrow> ComManager \<times> 'w" where
  "new_ComManager E w =
     (case co_init E w of (_, w) \<Rightarrow>
      case co_security E w of (ok, w) \<Rightarrow>
        (\<lparr>initialized = True\<rparr>, if ok then w else co_uninit E w))"

definition destroy_ComManager :: "('w, 's) com_env \<Rightarrow> ComManager \<Rightarrow> 'w \<Rightarrow> 'w" where
  "destroy_ComManager E m w = (if initialized m then co_uninit E w else w)"

text \<open>
  COM counts: a successful \<open>CoInitializeEx\<close> of a thread must be balanced by one \<open>CoUninitialize\<close>.
\<close>

definition counts_com :: "('w, 's) com_env \<Rightarrow> ('w \<Rightarrow> int) \<Rightarrow> bool" where
  "counts_com E held \<longleftrightarrow>
     (\<forall>w. held (snd (co_init E w)) = held w + (if fst (co_init E w) then 1 else 0) \<and>
          held (snd (co_security E w)) = held w \<and> held (co_uninit E w) = held w - 1)"

text \<open>
  The manager gives back exactly what it has taken if and only if both of its calls succeed: otherwise \<open>CoUninitialize\<close> is called
  more often than COM was initialised.
\<close>

theorem com_balanced:
  assumes "counts_com E held" and "new_ComManager E w = (m, w')"
  shows "held (destroy_ComManager E m w') =
      held w + (if fst (co_init E w) then 1 else 0) - (if fst (co_security E (snd (co_init E w))) then 1 else 2) \<and>
    (held (destroy_ComManager E m w') = held w \<longleftrightarrow>
      fst (co_init E w) \<and> fst (co_security E (snd (co_init E w))))"
proof -
  obtain a w1 where i: "co_init E w = (a, w1)" by fastforce
  obtain b w2 where s: "co_security E w1 = (b, w2)" by fastforce
  have "held w1 = held w + (if a then 1 else 0)" "held w2 = held w1" "\<And>v. held (co_uninit E v) = held v - 1"
    using assms(1) i s unfolding counts_com_def by (metis fst_conv snd_conv)+
  then show ?thesis using assms(2) i s by (auto simp: new_ComManager_def destroy_ComManager_def)
qed

definition counting_com :: "bool \<Rightarrow> bool \<Rightarrow> (int, unit) com_env" where
  "counting_com a b = \<lparr>co_init = (\<lambda>n. (a, if a then n + 1 else n)), co_security = (\<lambda>n. (b, n)), co_uninit = (\<lambda>n. n - 1),
     co_create = (\<lambda>n. (True, n)), co_connect = (\<lambda>_ n. (Some (), n)), co_blanket = (\<lambda>_ n. n)\<rparr>"

lemma com_balanced_witness:
  "\<exists>m w'. new_ComManager (counting_com True False) 0 = (m, w') \<and> destroy_ComManager (counting_com True False) m w' = - 1"
proof -
  have "counts_com (counting_com True False) (\<lambda>n. n)" by (simp add: counts_com_def counting_com_def)
  moreover have "new_ComManager (counting_com True False) 0 = (\<lparr>initialized = True\<rparr>, 0)"
    by (simp add: new_ComManager_def counting_com_def)
  ultimately show ?thesis using com_balanced[of "counting_com True False" "\<lambda>n. n" 0] by (auto simp: counting_com_def)
qed

section \<open>WMI\<close>

record 's WbemManager =
  w32_svcs :: "'s option"
  msft_svcs :: "'s option"

definition setProxySecurity :: "('w, 's) com_env \<Rightarrow> 's option \<Rightarrow> 'w \<Rightarrow> 'w" where
  "setProxySecurity E services w = (case services of None \<Rightarrow> w | Some s \<Rightarrow> co_blanket E s w)"

text \<open>\<open>None\<close>: the locator is null, and \<open>ConnectServer\<close> is called through it.\<close>

definition wbem_connect :: "('w, 's) com_env \<Rightarrow> string \<Rightarrow> 'w \<Rightarrow> ('s option \<times> 'w) option" where
  "wbem_connect E ns w =
     (case co_create E w of (created, w) \<Rightarrow>
        if \<not> created then None
        else (case co_connect E ns w of (svcs, w) \<Rightarrow> Some (svcs, setProxySecurity E svcs w)))"

definition backslash :: char where "backslash = CHR 0x5C"

definition new_WbemManager :: "('w, 's) com_env \<Rightarrow> 'w \<Rightarrow> ('s WbemManager \<times> 'w) option" where
  "new_WbemManager E w = do {
     (w32, w) \<leftarrow> wbem_connect E (''ROOT'' @ [backslash] @ ''CIMV2'') w;
     (msft, w) \<leftarrow> wbem_connect E (''ROOT'' @ [backslash] @ ''Microsoft'' @ [backslash] @ ''Windows'' @ [backslash] @ ''Storage'') w;
     Some (\<lparr>w32_svcs = w32, msft_svcs = msft\<rparr>, w) }"

text \<open>The services each query asks; a query through services that are null is a fault.\<close>

definition services_for :: "'s WbemManager \<Rightarrow> wmi_query \<Rightarrow> 's option" where
  "services_for m q = (if q \<in> {Query_GPU, Query_CPU, Query_Board} then w32_svcs m else msft_svcs m)"

definition query_services ::
  "wmi_env \<Rightarrow> 's WbemManager \<Rightarrow> ('s \<Rightarrow> wmi_query \<Rightarrow> wbem_object list option) \<Rightarrow> wmi_query \<Rightarrow> wmi_store \<Rightarrow> wmi_store option" where
  "query_services W m answer q s =
     (case services_for m q of None \<Rightarrow> None | Some svcs \<Rightarrow> ExecuteWmiQuery W q (answer svcs q) s)"

text \<open>
  A manager exists only when both locators could be made, and the six queries survive only when both
  namespaces could be connected to: no failure that the code prints is dealt with.
\<close>

lemma new_WbemManager_created: "new_WbemManager E w = Some (m, w') \<Longrightarrow> fst (co_create E w)"
  by (auto simp: new_WbemManager_def wbem_connect_def split: prod.splits if_splits bind_splits)

fun queries_through ::
  "wmi_env \<Rightarrow> 's WbemManager \<Rightarrow> ('s \<Rightarrow> wmi_query \<Rightarrow> wbem_object list option) \<Rightarrow> wmi_query list \<Rightarrow> wmi_store \<Rightarrow> wmi_store option"
where
  "queries_through W m answer [] s = Some s"
| "queries_through W m answer (q # qs) s = do { s \<leftarrow> query_services W m answer q s; queries_through W m answer qs s }"

lemma queries_through_services:
  "queries_through W m answer qs s = Some s' \<Longrightarrow> q \<in> set qs \<Longrightarrow> services_for m q \<noteq> None"
  by (induction qs arbitrary: s) (auto simp: query_services_def split: bind_splits option.splits)

lemma queries_through_connected:
  "\<forall>q \<in> set qs. services_for m q = Some (svc q) \<Longrightarrow>
   queries_through W m answer qs s = query_in_turn W (\<lambda>q. answer (svc q) q) qs s"
proof (induction qs arbitrary: s)
  case (Cons q qs)
  have IH: "queries_through W m answer qs = query_in_turn W (\<lambda>q. answer (svc q) q) qs"
    by (intro ext Cons.IH) (use Cons.prems in simp)
  show ?case using Cons.prems by (simp add: query_services_def IH)
qed simp

theorem queries_need_services:
  "queries_through W m answer hardware_queries s = Some s' \<longleftrightarrow>
     (\<exists>a b. w32_svcs m = Some a \<and> msft_svcs m = Some b \<and>
       query_in_turn W (\<lambda>q. answer (if q \<in> {Query_GPU, Query_CPU, Query_Board} then a else b) q) hardware_queries s = Some s')"
  (is "?through = Some s' \<longleftrightarrow> ?connected")
proof
  assume t: "?through = Some s'"
  from queries_through_services[OF t, of Query_CPU] queries_through_services[OF t, of Query_Disk]
  obtain a b where ab: "w32_svcs m = Some a" "msft_svcs m = Some b"
    by (auto simp: hardware_queries_def services_for_def)
  with t queries_through_connected[of hardware_queries m "\<lambda>q. if q \<in> {Query_GPU, Query_CPU, Query_Board} then a else b" W answer s]
  show ?connected by (simp add: services_for_def)
next
  assume ?connected
  then obtain a b where ab: "w32_svcs m = Some a" "msft_svcs m = Some b"
    "query_in_turn W (\<lambda>q. answer (if q \<in> {Query_GPU, Query_CPU, Query_Board} then a else b) q) hardware_queries s = Some s'" by blast
  with queries_through_connected[of hardware_queries m "\<lambda>q. if q \<in> {Query_GPU, Query_CPU, Query_Board} then a else b" W answer s]
  show "?through = Some s'" by (simp add: services_for_def)
qed

end
