(* ===== verification/Server_Program.thy ===== *)
theory Server_Program
  imports Pki_Config
begin

text \<open>
  \<open>main\<close> of the server (\<open>OPC_UA/main.cpp\<close>): the constructor, the handlers of the two signals, and the thread that
  runs the server until it is stopped. A signal may come between any two steps.
\<close>

section \<open>The process\<close>

datatype sig = SIGINT | SIGTERM

datatype main_point = Constructing | Installing_Int | Installing_Term | Starting_Thread | Joining | Main_Done | Died
datatype thread_point = Not_Started | At_Start | Before_Run | In_Run | Run_Ended

record server_process =
  main_at :: main_point
  thread_at :: thread_point
  handled :: "sig set"
  g_running :: bool
  g_serverPtr :: bool
  stop_requested :: bool

text \<open>
  What \<open>main.cpp\<close> takes from its platform: \<open>stop_remembered\<close> is whether a \<open>stop\<close> of the stack that comes before \<open>run\<close> has an
  effect on it, and \<open>handler_reset\<close> whether a signal gets its default handler back when it is delivered, as in
  the C library of Windows.
\<close>

record server_platform =
  stop_remembered :: bool
  handler_reset :: bool

definition initial_process :: server_process where
  "initial_process = \<lparr>main_at = Constructing, thread_at = Not_Started, handled = {}, g_running = True, g_serverPtr = False,
     stop_requested = False\<rparr>"

definition stop_server :: "server_platform \<Rightarrow> server_process \<Rightarrow> server_process" where
  "stop_server P p = (if thread_at p = In_Run \<or> stop_remembered P then p\<lparr>stop_requested := True\<rparr> else p)"

definition handleSignal :: "server_platform \<Rightarrow> server_process \<Rightarrow> server_process" where
  "handleSignal P p =
     (let p = p\<lparr>g_running := False\<rparr> in if g_serverPtr p then stop_server P p else p)"

text \<open>\<open>None\<close>: the step is not possible now. An exception of the constructor ends the process, as \<open>main\<close> has no \<open>try\<close>.\<close>

fun main_step :: "'a constructed \<Rightarrow> server_process \<Rightarrow> server_process option" where
  "main_step C p =
     (case main_at p of
        Constructing \<Rightarrow> Some (p\<lparr>main_at := (case C of Constructed _ \<Rightarrow> Installing_Int | _ \<Rightarrow> Died)\<rparr>)
      | Installing_Int \<Rightarrow> Some (p\<lparr>handled := insert SIGINT (handled p), main_at := Installing_Term\<rparr>)
      | Installing_Term \<Rightarrow> Some (p\<lparr>handled := insert SIGTERM (handled p), main_at := Starting_Thread\<rparr>)
      | Starting_Thread \<Rightarrow> Some (p\<lparr>thread_at := At_Start, main_at := Joining\<rparr>)
      | Joining \<Rightarrow> if thread_at p = Run_Ended then Some (p\<lparr>main_at := Main_Done\<rparr>) else None
      | Main_Done \<Rightarrow> None
      | Died \<Rightarrow> None)"

text \<open>\<open>runServer\<close>; whatever \<open>run\<close> throws is caught, so that \<open>throws\<close> only ends it.\<close>

fun runServer :: "bool \<Rightarrow> server_process \<Rightarrow> server_process option" where
  "runServer throws p =
     (case thread_at p of
        At_Start \<Rightarrow> if throws then None else Some (p\<lparr>g_serverPtr := True, thread_at := Before_Run\<rparr>)
      | Before_Run \<Rightarrow> if throws then None else Some (p\<lparr>thread_at := In_Run\<rparr>)
      | In_Run \<Rightarrow> if throws \<or> stop_requested p then Some (p\<lparr>thread_at := Run_Ended\<rparr>) else None
      | _ \<Rightarrow> None)"

definition deliver_signal :: "server_platform \<Rightarrow> sig \<Rightarrow> server_process \<Rightarrow> server_process" where
  "deliver_signal P g p =
     (if g \<in> handled p
      then handleSignal P (if handler_reset P then p\<lparr>handled := handled p - {g}\<rparr> else p)
      else p\<lparr>main_at := Died\<rparr>)"

datatype server_event = Main_Step | Thread_Step | Run_Throws | Signal sig

fun server_step :: "server_platform \<Rightarrow> 'a constructed \<Rightarrow> server_event \<Rightarrow> server_process \<Rightarrow> server_process option" where
  "server_step P C ev p =
     (if main_at p \<in> {Main_Done, Died} then None
      else (case ev of
              Main_Step \<Rightarrow> main_step C p
            | Thread_Step \<Rightarrow> runServer False p
            | Run_Throws \<Rightarrow> runServer True p
            | Signal g \<Rightarrow> Some (deliver_signal P g p)))"

fun server_steps :: "server_platform \<Rightarrow> 'a constructed \<Rightarrow> server_event list \<Rightarrow> server_process \<Rightarrow> server_process option" where
  "server_steps P C [] p = Some p"
| "server_steps P C (ev # evs) p = do { p \<leftarrow> server_step P C ev p; server_steps P C evs p }"

section \<open>When it ends\<close>

text \<open>The point of the thread, and what each point has done.\<close>

definition process_inv :: "server_process \<Rightarrow> bool" where
  "process_inv p \<longleftrightarrow> (g_serverPtr p \<longleftrightarrow> thread_at p \<notin> {Not_Started, At_Start}) \<and>
     (main_at p = Main_Done \<longrightarrow> thread_at p = Run_Ended) \<and>
     (main_at p \<in> {Constructing, Installing_Int, Installing_Term, Starting_Thread} \<longrightarrow> thread_at p = Not_Started)"

lemmas server_step_defs = deliver_signal_def handleSignal_def stop_server_def Let_def

lemma process_inv_initial: "process_inv initial_process"
  by (simp add: process_inv_def initial_process_def)

lemma process_inv_step: "process_inv p \<Longrightarrow> server_step P C ev p = Some p' \<Longrightarrow> process_inv p'"
  by (cases ev; cases "main_at p"; cases "thread_at p")
     (auto simp: process_inv_def server_step_defs split: if_splits constructed.splits)

lemma process_inv_steps: "process_inv p \<Longrightarrow> server_steps P C evs p = Some p' \<Longrightarrow> process_inv p'"
  by (induction evs arbitrary: p) (auto split: bind_splits dest: process_inv_step)

text \<open>An event that makes \<open>run\<close> end: an exception of it, or a signal with a handler that finds the server.\<close>

definition stops :: "server_platform \<Rightarrow> server_event \<Rightarrow> server_process \<Rightarrow> bool" where
  "stops P ev p \<longleftrightarrow>
     (case ev of Run_Throws \<Rightarrow> True
      | Signal g \<Rightarrow> g \<in> handled p \<and> (thread_at p = In_Run \<or> stop_remembered P \<and> g_serverPtr p) | _ \<Rightarrow> False)"

definition stopping :: "server_process \<Rightarrow> bool" where
  "stopping p \<longleftrightarrow> stop_requested p \<or> thread_at p = Run_Ended"

lemma stopping_step:
  "process_inv p \<Longrightarrow> server_step P C ev p = Some p' \<Longrightarrow> stopping p' \<Longrightarrow> \<not> stopping p \<Longrightarrow> stops P ev p"
  by (cases ev; cases "main_at p"; cases "thread_at p")
     (auto simp: process_inv_def stopping_def stops_def server_step_defs split: if_splits constructed.splits)

text \<open>Whatever holds behind a run and did not hold before it was brought about by one of the events.\<close>

lemma event_cause:
  assumes "\<And>ev p p'. process_inv p \<Longrightarrow> server_step P C ev p = Some p' \<Longrightarrow> Q p' \<Longrightarrow> \<not> Q p \<Longrightarrow> S ev p"
  shows "server_steps P C evs p = Some p' \<Longrightarrow> process_inv p \<Longrightarrow> Q p' \<Longrightarrow> \<not> Q p \<Longrightarrow>
    \<exists>pre ev post q. evs = pre @ ev # post \<and> server_steps P C pre p = Some q \<and> S ev q"
proof (induction evs arbitrary: p)
  case (Cons ev evs)
  from Cons.prems(1) obtain q where q: "server_step P C ev p = Some q" "server_steps P C evs q = Some p'"
    by (auto split: bind_splits)
  show ?case
  proof (cases "Q q")
    case True
    with assms[OF Cons.prems(2) q(1)] Cons.prems(4) show ?thesis
      by (intro exI[of _ "[]"] exI[of _ ev] exI[of _ evs] exI[of _ p]) simp
  next
    case False
    from Cons.IH[OF q(2) process_inv_step[OF Cons.prems(2) q(1)] Cons.prems(3) False] obtain pre e post r where
      "evs = pre @ e # post" "server_steps P C pre q = Some r" "S e r" by blast
    then show ?thesis using q(1) by (intro exI[of _ "ev # pre"] exI[of _ e] exI[of _ post] exI[of _ r]) simp
  qed
qed simp

text \<open>The process dies of an exception of the constructor, or of a signal without a handler.\<close>

definition kills :: "'a constructed \<Rightarrow> server_event \<Rightarrow> server_process \<Rightarrow> bool" where
  "kills C ev p \<longleftrightarrow>
     (case ev of Main_Step \<Rightarrow> main_at p = Constructing \<and> (\<forall>c. C \<noteq> Constructed c) | Signal g \<Rightarrow> g \<notin> handled p | _ \<Rightarrow> False)"

lemma dying_step: "server_step P C ev p = Some p' \<Longrightarrow> main_at p' = Died \<Longrightarrow> main_at p \<noteq> Died \<Longrightarrow> kills C ev p"
  by (cases ev; cases "main_at p"; cases "thread_at p")
     (auto simp: kills_def server_step_defs split: if_splits constructed.splits)

lemma stopping_cause:
  "server_steps P C evs p = Some p' \<Longrightarrow> process_inv p \<Longrightarrow> stopping p' \<Longrightarrow> \<not> stopping p \<Longrightarrow>
   \<exists>pre ev post q. evs = pre @ ev # post \<and> server_steps P C pre p = Some q \<and> stops P ev q"
  by (rule event_cause[where Q = stopping and S = "stops P"], rule stopping_step)

lemma dying_cause:
  "server_steps P C evs p = Some p' \<Longrightarrow> process_inv p \<Longrightarrow> main_at p' = Died \<Longrightarrow> main_at p \<noteq> Died \<Longrightarrow>
   \<exists>pre ev post q. evs = pre @ ev # post \<and> server_steps P C pre p = Some q \<and> kills C ev q"
  by (rule event_cause[where Q = "\<lambda>p. main_at p = Died" and S = "kills C"], rule dying_step)

text \<open>A handled signal that finds the server stops it, and the thread and \<open>main\<close> go on to their ends.\<close>

lemma signal_ends:
  assumes "process_inv p" and "main_at p = Joining" and "g \<in> handled p"
    and "thread_at p = In_Run \<or> stop_remembered P \<and> g_serverPtr p"
  shows "\<exists>evs p'. set evs \<subseteq> {Thread_Step, Main_Step} \<and> server_steps P C (Signal g # evs) p = Some p' \<and> main_at p' = Main_Done"
proof -
  have ptr: "g_serverPtr p" using assms(1,4) by (auto simp: process_inv_def)
  with assms(1) consider "thread_at p = Before_Run" | "thread_at p = In_Run" | "thread_at p = Run_Ended"
    by (cases "thread_at p") (auto simp: process_inv_def)
  then show ?thesis
  proof cases
    case 1
    with assms ptr show ?thesis by (intro exI[of _ "[Thread_Step, Thread_Step, Main_Step]"]) (simp add: server_step_defs)
  next
    case 2
    with assms ptr show ?thesis by (intro exI[of _ "[Thread_Step, Main_Step]"]) (simp add: server_step_defs)
  next
    case 3
    with assms ptr show ?thesis by (intro exI[of _ "[Main_Step]"]) (simp add: server_step_defs)
  qed
qed

text \<open>
  C34: The server's \<open>main\<close> returns only when \<open>run\<close> has thrown or a handled signal has found the server; and it does return
  then: an exception of \<open>run\<close> is caught by the thread and leads to the end of \<open>main\<close>, and so does such a signal, with no
  more than steps of the two threads. The process dies only of an exception of the constructor or of a signal that has
  no handler, never of an exception of \<open>run\<close>. The flag \<open>g_running\<close> has no say in this: a signal that comes before the thread has
  published the server, or before \<open>run\<close> when the stack forgets a \<open>stop\<close> that comes too early, is lost.
\<close>

theorem server_ends:
  assumes "server_steps P C evs initial_process = Some p"
  shows "(main_at p = Main_Done \<longrightarrow>
      (\<exists>pre ev post q. evs = pre @ ev # post \<and> server_steps P C pre initial_process = Some q \<and>
         (ev = Run_Throws \<or> (\<exists>g. ev = Signal g \<and> g \<in> handled q \<and> (thread_at q = In_Run \<or> stop_remembered P \<and> g_serverPtr q))))) \<and>
    (main_at p = Joining \<and> thread_at p = In_Run \<longrightarrow>
      (\<exists>p'. server_steps P C [Run_Throws, Main_Step] p = Some p' \<and> main_at p' = Main_Done)) \<and>
    (main_at p = Joining \<and> g \<in> handled p \<and> (thread_at p = In_Run \<or> stop_remembered P \<and> g_serverPtr p) \<longrightarrow>
      (\<exists>evs' p'. set evs' \<subseteq> {Thread_Step, Main_Step} \<and> server_steps P C (Signal g # evs') p = Some p' \<and> main_at p' = Main_Done)) \<and>
    (main_at p = Died \<longrightarrow>
      (\<exists>pre ev post q. evs = pre @ ev # post \<and> server_steps P C pre initial_process = Some q \<and>
         (ev = Main_Step \<and> main_at q = Constructing \<and> (\<forall>c. C \<noteq> Constructed c) \<or> (\<exists>g. ev = Signal g \<and> g \<notin> handled q))))"
proof (intro conjI impI)
  have inv: "process_inv p" by (rule process_inv_steps[OF process_inv_initial assms])
  assume "main_at p = Main_Done"
  with inv have "stopping p" by (simp add: process_inv_def stopping_def)
  moreover have "\<not> stopping initial_process" by (simp add: stopping_def initial_process_def)
  ultimately obtain pre ev post q where
    "evs = pre @ ev # post" "server_steps P C pre initial_process = Some q" "stops P ev q"
    using stopping_cause[OF assms process_inv_initial] by blast
  then show "\<exists>pre ev post q. evs = pre @ ev # post \<and> server_steps P C pre initial_process = Some q \<and>
      (ev = Run_Throws \<or> (\<exists>g. ev = Signal g \<and> g \<in> handled q \<and> (thread_at q = In_Run \<or> stop_remembered P \<and> g_serverPtr q)))"
    by (intro exI[of _ pre] exI[of _ ev] exI[of _ post] exI[of _ q]) (auto simp: stops_def split: server_event.splits)
next
  assume "main_at p = Joining \<and> thread_at p = In_Run"
  then show "\<exists>p'. server_steps P C [Run_Throws, Main_Step] p = Some p' \<and> main_at p' = Main_Done" by simp
next
  assume p: "main_at p = Joining \<and> g \<in> handled p \<and> (thread_at p = In_Run \<or> stop_remembered P \<and> g_serverPtr p)"
  then show "\<exists>evs' p'. set evs' \<subseteq> {Thread_Step, Main_Step} \<and> server_steps P C (Signal g # evs') p = Some p' \<and> main_at p' = Main_Done"
    using signal_ends[OF process_inv_steps[OF process_inv_initial assms]] by blast
next
  assume "main_at p = Died"
  moreover have "main_at initial_process \<noteq> Died" by (simp add: initial_process_def)
  ultimately obtain pre ev post q where "evs = pre @ ev # post" "server_steps P C pre initial_process = Some q" "kills C ev q"
    using dying_cause[OF assms process_inv_initial] by blast
  then show "\<exists>pre ev post q. evs = pre @ ev # post \<and> server_steps P C pre initial_process = Some q \<and>
      (ev = Main_Step \<and> main_at q = Constructing \<and> (\<forall>c. C \<noteq> Constructed c) \<or> (\<exists>g. ev = Signal g \<and> g \<notin> handled q))"
    by (intro exI[of _ pre] exI[of _ ev] exI[of _ post] exI[of _ q]) (auto simp: kills_def split: server_event.splits)
qed

text \<open>From the same state an interrupt and an exception of \<open>run\<close> both end \<open>main\<close>.\<close>

lemma server_ends_witness:
  "\<exists>q p p'. server_steps \<lparr>stop_remembered = False, handler_reset = True\<rparr> (Constructed ())
      [Main_Step, Main_Step, Main_Step, Main_Step, Thread_Step, Thread_Step] initial_process = Some q \<and>
    server_steps \<lparr>stop_remembered = False, handler_reset = True\<rparr> (Constructed ()) [Run_Throws, Main_Step] q = Some p \<and>
    main_at p = Main_Done \<and>
    (\<exists>evs'. server_steps \<lparr>stop_remembered = False, handler_reset = True\<rparr> (Constructed ()) (Signal SIGINT # evs') q = Some p') \<and>
    main_at p' = Main_Done"
proof -
  let ?P = "\<lparr>stop_remembered = False, handler_reset = True\<rparr>" and ?C = "Constructed ()"
  let ?evs = "[Main_Step, Main_Step, Main_Step, Main_Step, Thread_Step, Thread_Step]"
  obtain q where q: "server_steps ?P ?C ?evs initial_process = Some q" "main_at q = Joining" "thread_at q = In_Run"
      "SIGINT \<in> handled q"
    by (simp add: initial_process_def)
  from server_ends[OF q(1), of SIGINT] q(2-4) have
    "\<exists>p. server_steps ?P ?C [Run_Throws, Main_Step] q = Some p \<and> main_at p = Main_Done"
    "\<exists>evs' p'. server_steps ?P ?C (Signal SIGINT # evs') q = Some p' \<and> main_at p' = Main_Done" by blast+
  with q(1) show ?thesis by blast
qed

text \<open>The lost signal: whatever follows but another signal or an exception, \<open>main\<close> does not return.\<close>

lemma early_signal_lost:
  "server_steps \<lparr>stop_remembered = False, handler_reset = r\<rparr> (Constructed c)
      [Main_Step, Main_Step, Main_Step, Main_Step, Signal SIGTERM, Thread_Step, Thread_Step] initial_process =
     Some \<lparr>main_at = Joining, thread_at = In_Run, handled = (if r then {SIGINT} else {SIGINT, SIGTERM}), g_running = False,
       g_serverPtr = True, stop_requested = False\<rparr>"
  by (auto simp: initial_process_def server_step_defs)

end
