(* ===== verification/Gpu_Screen.thy ===== *)
theory Gpu_Screen
  imports Pipeline_Workers Control_Center_Properties
begin

text \<open>
  From the graphics cards to the screen: one round of the graphics worker, the snapshots it queues, the values that the
  client writes for them, and the row that the control centre shows in the end.
\<close>

section \<open>A list of updates\<close>

text \<open>What the stack promises about the values of one send: they arrive in order, each with the records it was written with.\<close>

definition delivers_values ::
  "codec \<Rightarrow> codec \<Rightarrow> (memory \<Rightarrow> ext_object list list \<Rightarrow> memory \<times> variant list) \<Rightarrow> bool" where
  "delivers_values cd cd' net \<longleftrightarrow>
     (\<forall>mem arrs dss. list_all2 (\<lambda>arr ds. variant_carries cd mem (ExtArray arr) ds) arrs dss \<longrightarrow>
        (case net mem arrs of (mem', vs) \<Rightarrow> list_all2 (variant_carries cd' mem') vs dss))"

text \<open>The updates of devices that share one key of the grid: the row of the last one stays.\<close>

lemma deliver_same_key:
  assumes "list_all2 (\<lambda>nm c. cache nm = Some c \<and> (client_folder_name c, dd_hardware_type (cache_info c)) = k) nms cs"
    and "list_all2 (\<lambda>v snap. variant_carries cd mem v (map dto_of (ts_sensors snap))) vs snaps"
    and "length nms = length vs" and "vs \<noteq> []"
  shows "\<exists>g'. deliver cd mem cache (zip nms vs) g = Some g' \<and>
    grid_lookup g' = (grid_lookup g)(k \<mapsto> shown_row (last cs) (last snaps))"
  using assms
proof (induction nms arbitrary: cs vs snaps g)
  case (Cons nm nms)
  from Cons.prems(1) obtain c cs' where cs: "cs = c # cs'" "cache nm = Some c"
      "(client_folder_name c, dd_hardware_type (cache_info c)) = k"
      "list_all2 (\<lambda>nm c. cache nm = Some c \<and> (client_folder_name c, dd_hardware_type (cache_info c)) = k) nms cs'"
    by (auto simp: list_all2_Cons1)
  from Cons.prems(2,4) obtain v vs' snap snaps' where vs: "vs = v # vs'" "snaps = snap # snaps'"
      "variant_carries cd mem v (map dto_of (ts_sensors snap))"
      "list_all2 (\<lambda>v snap. variant_carries cd mem v (map dto_of (ts_sensors snap))) vs' snaps'"
    by (cases vs) (auto simp: list_all2_Cons1)
  define g1 where "g1 = grid_update (client_folder_name c) (dd_hardware_type (cache_info c)) (shown_row c snap) g"
  have l1: "grid_lookup g1 = (grid_lookup g)(k \<mapsto> shown_row c snap)" by (simp add: g1_def grid_lookup_update cs(3))
  have step: "deliver cd mem cache (zip (nm # nms) vs) g = deliver cd mem cache (zip nms vs') g1"
    unfolding vs(1) zip_Cons_Cons g1_def by (rule deliver_step[where cache = cache, OF cs(2) vs(3)])
  show ?case
  proof (cases "vs' = []")
    case True
    with Cons.prems(3) vs(1,4) cs(4) have "nms = []" "cs' = []" "snaps' = []" by simp_all
    with step l1 True show ?thesis by (simp add: cs(1) vs(2) fun_upd_def)
  next
    case False
    with Cons.prems(3) vs(1,4) cs(4) have len: "length nms = length vs'" "cs' \<noteq> []" "snaps' \<noteq> []" by auto
    from Cons.IH[OF cs(4) vs(4) len(1) False, of g1] obtain g' where
      g': "deliver cd mem cache (zip nms vs') g1 = Some g'" "grid_lookup g' = (grid_lookup g1)(k \<mapsto> shown_row (last cs') (last snaps'))"
      by blast
    have "grid_lookup g' = (grid_lookup g)(k \<mapsto> shown_row (last cs) (last snaps))"
      using g'(2) len(2,3) unfolding l1 by (simp only: cs(1) vs(2) last_ConsR fun_upd_upd not_False_eq_True)
    with trans[OF step g'(1)] show ?thesis by blast
  qed
qed simp

section \<open>One round\<close>

text \<open>
  C3: The whole path of the graphics cards: a round of their worker that ends queues one snapshot of every card, sending
  writes them all in order to the nodes of their cards, and when the values arrive, the row of the last card is what
  the control centre shows under the client and the type GPU, as all cards share that key; the other rows stay.
\<close>

theorem gpu_to_screen:
  assumes "gpu_execute R 0 ds empty_queue = Some (ds', q)" and "ds \<noteq> []"
    and ua: "obliging U" "generous cd" "fresh_memory cd" "client_folder s = Some folder" "info_client.world s = (w, [])"
      "finite (dom (heap s))" "delivers_values cd cd' net"
    and screen: "length nms = length ds"
      "list_all2 (\<lambda>nm c. cache nm = Some c \<and> (client_folder_name c, dd_hardware_type (cache_info c)) = (client, ''GPU'')) nms cs"
  shows "\<exists>s' stores mem g'.
    queue q = map (snapshot \<circ> device_of) ds' \<and> length ds' = length ds \<and>
    sendTelemetryPayload (recording U) cd q s = (Sent True, empty_queue, s') \<and>
    buildTelemetryPayload cd (queue q) (heap s) = Some (stores, mem) \<and>
    snd (info_client.world s') = all_writes (device_nodes s') (zip (queue q) stores) \<and>
    deliver cd' (fst (net mem (map (the \<circ> store_sensors) stores))) cache
      (zip nms (snd (net mem (map (the \<circ> store_sensors) stores)))) g = Some g' \<and>
    grid_lookup g' = (grid_lookup g)((client, ''GPU'') \<mapsto>
      row_header (cache_info (last cs)) # map shown_field (ts_sensors (snapshot (device_of (last ds')))))"
proof -
  from gpu_round[OF assms(1)] have len: "length ds' = length ds"
    and q: "q = \<lparr>queue = map (snapshot \<circ> device_of) ds', shutting_down = False\<rparr>"
    by (auto simp: empty_queue_def dest: list_all2_lengthD)
  with assms(2) have ne: "queue q \<noteq> []" "ds' \<noteq> []" by auto
  obtain s' w2 stores mem where sent: "sendTelemetryPayload (recording U) cd q s = (Sent True, q\<lparr>queue := []\<rparr>, s')"
      "info_client.world s' = (w2, [] @ all_writes (device_nodes s') (zip (queue q) stores))"
      "buildTelemetryPayload cd (queue q) (heap s) = Some (stores, mem)"
      "list_all2 (stores_snapshot cd mem) (queue q) stores"
    using sent_all[OF ua(1-5) ne(1) ua(6)] by blast
  let ?arrs = "map (the \<circ> store_sensors) stores"
  have "list_all2 (\<lambda>arr ds. variant_carries cd mem (ExtArray arr) ds) ?arrs (map (\<lambda>snap. map dto_of (ts_sensors snap)) (queue q))"
    using sent(4) by (auto simp: stores_snapshot_def list_all2_conv_all_nth)
  with ua(7) obtain mem' vs where net: "net mem ?arrs = (mem', vs)"
      "list_all2 (variant_carries cd' mem') vs (map (\<lambda>snap. map dto_of (ts_sensors snap)) (queue q))"
    unfolding delivers_values_def by (metis (no_types, lifting) case_prodD surj_pair)
  then have vs: "list_all2 (\<lambda>v snap. variant_carries cd' mem' v (map dto_of (ts_sensors snap))) vs (queue q)"
    by (simp add: list_all2_map2)
  then have "length vs = length (queue q)" by (rule list_all2_lengthD)
  with screen(1) len ne q have l: "length nms = length vs" "vs \<noteq> []" by auto
  from deliver_same_key[OF screen(2) vs l, of g] obtain g' where
    g': "deliver cd' mem' cache (zip nms vs) g = Some g'"
      "grid_lookup g' = (grid_lookup g)((client, ''GPU'') \<mapsto> shown_row (last cs) (last (queue q)))" by blast
  have "last (queue q) = snapshot (device_of (last ds'))" using ne(2) by (simp add: q last_map)
  with g' net(1) sent len show ?thesis
    by (intro exI[of _ s'] exI[of _ stores] exI[of _ mem] exI[of _ g']) (simp add: q shown_row_def empty_queue_def)
qed

text \<open>Two cards of one machine: one row.\<close>

definition gpu_cache :: "string \<rightharpoonup> DeviceCache" where
  "gpu_cache = (\<lambda>nm. Some \<lparr>client_folder_name = ''pc'',
     cache_info = \<lparr>dd_name = nm, dd_vendor = ''AMD'', dd_hardware_type = ''GPU''\<rparr>\<rparr>)"

lemma gpu_to_screen_witness:
  "\<exists>ds' q s' g' row. gpu_execute quiet 0 two_cards empty_queue = Some (ds', q) \<and> length (queue q) = 2 \<and>
     sendTelemetryPayload (recording plain_env) heap_codec q (sample_client ((), [])) = (Sent True, empty_queue, s') \<and>
     grid_lookup g' = (grid_lookup new_DisplayGrid)((''pc'', ''GPU'') \<mapsto> (''RX (GPU)'', []) # row)"
proof -
  let ?c = "sample_client ((), [])" and ?net = "\<lambda>mem arrs. (mem, map ExtArray arrs)"
  let ?cs = "map (the \<circ> gpu_cache) [''GTX'', ''RX'']"
  obtain ds' q where r: "gpu_execute quiet 0 two_cards empty_queue = Some (ds', q)" "length (queue q) = 2"
    using two_cards_round by blast
  have u: "two_cards \<noteq> []" "obliging plain_env" "generous heap_codec" "fresh_memory heap_codec"
    "client_folder ?c = Some (string_node_id 1 ''pc'')" "info_client.world ?c = ((), [])" "finite (dom (heap ?c))"
    "delivers_values heap_codec heap_codec ?net" "length [''GTX'', ''RX''] = length two_cards"
    "list_all2 (\<lambda>nm c. gpu_cache nm = Some c \<and> (client_folder_name c, dd_hardware_type (cache_info c)) = (''pc'', ''GPU''))
      [''GTX'', ''RX''] ?cs"
    by (simp_all add: two_cards_def obliging_def plain_env_def heap_codec_generous heap_codec_fresh sample_client_def
        delivers_values_def list_all2_map1 gpu_cache_def)
  from gpu_to_screen[where cache = gpu_cache, OF r(1) u, of new_DisplayGrid] obtain s' g' where
    "sendTelemetryPayload (recording plain_env) heap_codec q ?c = (Sent True, empty_queue, s')"
    "grid_lookup g' = (grid_lookup new_DisplayGrid)((''pc'', ''GPU'') \<mapsto>
       row_header (cache_info (last ?cs)) # map shown_field (ts_sensors (snapshot (device_of (last ds')))))"
    by (elim exE conjE) (rule that)
  with r show ?thesis by (auto simp: gpu_cache_def row_header_def)
qed

end
