(* ===== verification/Legacy_Client.thy ===== *)
theory Legacy_Client
  imports Pki_Config Telemetry_Client
begin

text \<open>
  The older client that \<open>OPC_UA/client.cpp\<close> still holds, written before the configuration moved into
  \<open>CustomClient\<close>. It finds the project from the working directory, frees less when it ends, and walks the
  stores of a payload by index. It is modelled from its own source and compared with its successors.
\<close>

section \<open>Configuration\<close>

text \<open>\<open>throw\<close> and its way through a function.\<close>

definition or_throw :: "read_error + 'a \<Rightarrow> ('a \<Rightarrow> read_error + 'b) \<Rightarrow> read_error + 'b" where
  "or_throw m f = (case m of Inl e \<Rightarrow> Inl e | Inr x \<Rightarrow> f x)"

definition legacy_readBytesFromFile :: "disk \<Rightarrow> path \<Rightarrow> read_error + string" where
  "legacy_readBytesFromFile D p =
     or_throw (if file_opens (file_at D p) then Inr (tellg (file_at D p)) else Inl Not_Opened) (\<lambda>size.
     or_throw (if size \<le> 0 then Inl Empty_Or_Unreadable else Inr ()) (\<lambda>_.
     or_throw (if alloc_buffer D size then Inr () else Inl Bad_Status) (\<lambda>_.
     case content (file_at D p) of Some b \<Rightarrow> Inr b | None \<Rightarrow> Inl Read_Failed)))"

text \<open>\<open>try { storage.push_back(...) } catch (const std::runtime_error&) { ... }\<close>\<close>

definition legacy_push_back :: "disk \<Rightarrow> string list \<Rightarrow> read_error + string \<Rightarrow> read_error + string list" where
  "legacy_push_back D storage r =
     (case r of Inr b \<Rightarrow> Inr (storage @ [b]) | Inl e \<Rightarrow> if caught D e then Inr storage else Inl e)"

definition parent_path :: "path \<Rightarrow> path" where
  "parent_path p = butlast p"

definition legacy_getClientConfigAttributes :: "disk \<Rightarrow> path \<Rightarrow> string \<Rightarrow> read_error + ClientConfigAttributes" where
  "legacy_getClientConfigAttributes D current_path nm =
     (let pki_root = parent_path (parent_path current_path) @ [''pki''];
          ca_dir = pki_root @ [''ca'']; devices_dir = pki_root @ [''devices''] in
      or_throw (legacy_readBytesFromFile D (devices_dir @ [nm, nm @ ''.crt''])) (\<lambda>crt.
      or_throw (legacy_readBytesFromFile D (devices_dir @ [nm, nm @ ''.key''])) (\<lambda>key.
      or_throw (legacy_push_back D [] (legacy_readBytesFromFile D (devices_dir @ [''server'', ''server'' @ ''.crt'']))) (\<lambda>trusted.
      or_throw (legacy_push_back D [] (legacy_readBytesFromFile D (ca_dir @ [''ca.crt'']))) (\<lambda>issuers.
      Inr \<lparr>certificate = \<lparr>block_of = Certificate_Block, bytes_of = crt\<rparr>,
           private_key = \<lparr>block_of = Key_Block, bytes_of = key\<rparr>,
           trust_list = map (\<lambda>i. \<lparr>block_of = Trust_Block i, bytes_of = trusted ! i\<rparr>) [0..<length trusted],
           issuer_list = map (\<lambda>i. \<lparr>block_of = Issuer_Block i, bytes_of = issuers ! i\<rparr>) [0..<length issuers]\<rparr>)))))"

definition legacy_addSecurityPolicyBasic256Sha256 ::
  "stack \<Rightarrow> security_policy list \<Rightarrow> string \<Rightarrow> string \<Rightarrow> bool \<times> security_policy list" where
  "legacy_addSecurityPolicyBasic256Sha256 S policies crt key =
     (if grow_policies S \<and> first_policy S
      then (True, policies @ [\<lparr>sp_uri = SECURITY_POLICY_URI, sp_certificate = crt, sp_key = key\<rparr>])
      else (False, policies))"

definition legacy_ApplicationDescription :: "string \<Rightarrow> application" where
  "legacy_ApplicationDescription nm =
     \<lparr>app_name = nm, app_uri = ''urn:myorg:telemetry:'' @ nm, app_type = Application_Client\<rparr>"

text \<open>\<open>throwIfBad\<close> and the other statements that leave the constructor.\<close>

definition or_leave :: "bool \<Rightarrow> 'a constructed \<Rightarrow> 'a constructed" where
  "or_leave ok rest = (if ok then rest else Threw_Exception)"

definition legacy_SystemInfoClient :: "disk \<Rightarrow> stack \<Rightarrow> path \<Rightarrow> string \<Rightarrow> client constructed" where
  "legacy_SystemInfoClient D S current_path nm =
     (case legacy_getClientConfigAttributes D current_path nm of
        Inl _ \<Rightarrow> Threw_Exception
      | Inr attrs \<Rightarrow>
          or_leave (trustlist_ok S)
          (case legacy_addSecurityPolicyBasic256Sha256 S [] (bytes_of (certificate attrs)) (bytes_of (private_key attrs)) of
             (ok, policies) \<Rightarrow>
          or_leave ok
          (or_leave (auth_policy S)
          (case SERVER_IP S of
             None \<Rightarrow> Threw_Exception
           | Some ip \<Rightarrow>
               if trust_list attrs = [] then Undefined
               else or_leave (token_array S)
                 (Constructed
                   \<lparr>cfg_attrs = attrs,
                    config = \<lparr>cc_trusted = map bytes_of (trust_list attrs), cc_issuers = map bytes_of (issuer_list attrs),
                      cc_securityPolicies = policies,
                      cc_userTokenPolicy = \<lparr>tp_policyId = X509_TOKEN_POLICY_ID, tp_tokenType = Certificate_Token,
                        tp_securityPolicyUri = SECURITY_POLICY_URI\<rparr>,
                      cc_userIdentityToken = bytes_of (certificate attrs),
                      cc_authSecurityPolicy = \<lparr>sp_uri = SECURITY_POLICY_URI,
                        sp_certificate = bytes_of (certificate attrs), sp_key = bytes_of (private_key attrs)\<rparr>,
                      cc_securityPolicyUri = SECURITY_POLICY_URI,
                      cc_endpoint = \<lparr>ep_url = ''opc.tcp://'' @ ip @ '':4840'', ep_securityPolicyUri = SECURITY_POLICY_URI,
                        ep_serverCertificate = trust_list attrs ! 0, ep_transportProfileUri = TRANSPORT_PROFILE_URI,
                        ep_securityMode = Mode_SignAndEncrypt,
                        ep_userIdentityTokens = [\<lparr>tp_policyId = X509_TOKEN_POLICY_ID, tp_tokenType = Certificate_Token,
                          tp_securityPolicyUri = SECURITY_POLICY_URI\<rparr>]\<rparr>,
                      cc_description = legacy_ApplicationDescription nm\<rparr>\<rparr>)))))"

text \<open>The destructor frees the two arrays, but not what their elements point to.\<close>

definition legacy_destroy :: "(client_config \<Rightarrow> block list) \<Rightarrow> client \<Rightarrow> block list" where
  "legacy_destroy stack_clears c = stack_clears (config c)"

section \<open>Telemetry\<close>

fun legacy_payload ::
  "codec \<Rightarrow> TelemetrySnapshot list \<Rightarrow> TelemetryStore list \<Rightarrow> memory \<Rightarrow> (TelemetryStore list \<times> memory) option" where
  "legacy_payload cd [] stores mem = Some (stores, mem)"
| "legacy_payload cd (snap # drained) stores mem = do {
     (st, mem) \<leftarrow> buildTelemetryStore cd snap mem;
     legacy_payload cd drained (stores @ [st]) mem
   }"

definition legacy_addNodes :: "'w ua_env \<Rightarrow> (node_id \<Rightarrow> ('w, unit) ua) \<Rightarrow> ('w info_client, unit) ua" where
  "legacy_addNodes E read_browse_name s =
     ua_bind (on_world (ua_bind (browseChild E ObjectsFolder kTelemetryNamespaceIndex kTelemetryClientsFolderName) (\<lambda>clients_folder.
                        ua_bind (read_browse_name clients_folder) (\<lambda>_.
                        ensureClientFolder E clients_folder (client_name s) kTelemetryNamespaceIndex))))
       (\<lambda>n s. (Some (), s\<lparr>client_folder := Some n\<rparr>)) s"

text \<open>\<open>for (size_t i = 0; i < drained.size(); ++i)\<close>\<close>

function legacy_send_from ::
  "'w ua_env \<Rightarrow> node_id \<Rightarrow> TelemetrySnapshot list \<Rightarrow> TelemetryStore list \<Rightarrow> nat \<Rightarrow> ('w info_client, unit) ua" where
  "legacy_send_from E folder drained stores i s =
     (if i < length drained
      then ua_bind (nodes_for E folder (ts_name (drained ! i))) (\<lambda>ids.
           ua_bind (on_world (writeSnapshot E ids (stores ! i))) (\<lambda>_.
           legacy_send_from E folder drained stores (Suc i))) s
      else (Some (), s))"
  by pat_completeness auto

termination
  by (relation "measure (\<lambda>(E, folder, drained, stores, i, s). length drained - i)") auto

declare legacy_send_from.simps [simp del]

definition legacy_sendTelemetryPayload ::
  "'w ua_env \<Rightarrow> codec \<Rightarrow> TelemetrySnapshot client_queue \<Rightarrow> 'w info_client \<Rightarrow>
   send_result \<times> TelemetrySnapshot client_queue \<times> 'w info_client" where
  "legacy_sendTelemetryPayload E cd q s =
     (case client_folder s of
        None \<Rightarrow> (Sent False, q, s)
      | Some folder \<Rightarrow>
          (case drain_section q of
             None \<Rightarrow> (Waits, q, s)
           | Some (drained, q) \<Rightarrow>
               if drained = [] then (Sent True, q, s)
               else (case legacy_payload cd drained [] (heap s) of
                  None \<Rightarrow> (NullWrite, q, s)
                | Some (stores, mem) \<Rightarrow>
                    (case legacy_send_from E folder drained stores 0 (s\<lparr>heap := mem\<rparr>) of
                       (None, s) \<Rightarrow> (Threw, q, s)
                     | (Some _, s) \<Rightarrow>
                         (Sent True, q, s\<lparr>heap := fold (\<lambda>st mem. snd (freeTelemetryStore st mem)) stores (heap s)\<rparr>)))))"

section \<open>Comparison\<close>

lemma legacy_read: "legacy_readBytesFromFile D p = readBytesFromFile D p"
  by (simp add: legacy_readBytesFromFile_def readBytesFromFile_def or_throw_def Let_def)

lemma legacy_push: "legacy_push_back D [] (readBytesFromFile D p) = read_or_skip D p"
  by (simp add: legacy_push_back_def read_or_skip_def split: sum.split)

lemma own_blocks_nth: "own_blocks f bs = map (\<lambda>i. \<lparr>block_of = f i, bytes_of = bs ! i\<rparr>) [0..<length bs]"
  by (rule nth_equalityI) (simp_all add: own_blocks_def nth_enumerate_eq)

lemma legacy_attributes:
  "legacy_getClientConfigAttributes D current_path nm = getClientConfigAttributes D (parent_path (parent_path current_path)) nm"
  by (simp add: legacy_getClientConfigAttributes_def getClientConfigAttributes_def legacy_read legacy_push
      own_blocks_nth device_file_def or_throw_def Let_def split: sum.split)

lemma legacy_constructor:
  "legacy_SystemInfoClient D S current_path nm = CustomClient D S (parent_path (parent_path current_path)) nm"
proof (cases "getClientConfigAttributes D (parent_path (parent_path current_path)) nm")
  case (Inr attrs)
  then show ?thesis
    by (cases "trust_list attrs")
       (auto simp: legacy_SystemInfoClient_def CustomClient_def legacy_attributes or_leave_def
         legacy_addSecurityPolicyBasic256Sha256_def addSecurityPolicyBasic256Sha256_def basic256_def
         legacy_ApplicationDescription_def configureApplicationDescription_def x509_policy_def client_endpoint_def
         endpoint_url_def Let_def split: option.split)
qed (simp add: legacy_SystemInfoClient_def CustomClient_def legacy_attributes)

lemma legacy_payload_eq:
  "legacy_payload cd drained acc mem =
     (case buildTelemetryPayload cd drained mem of None \<Rightarrow> None | Some (sts, mem) \<Rightarrow> Some (acc @ sts, mem))"
  by (induction drained arbitrary: acc mem) (auto split: option.splits bind_splits)

lemma legacy_send_from_eq:
  "length stores = length drained \<Longrightarrow>
   legacy_send_from E folder drained stores i s = send_all E folder (drop i (zip drained stores)) s"
proof (induction E folder drained stores i s rule: legacy_send_from.induct)
  case (1 E folder drained stores i s)
  show ?case
  proof (cases "i < length drained")
    case True
    with 1(2) have "drop i (zip drained stores) = (drained ! i, stores ! i) # drop (Suc i) (zip drained stores)"
      by (simp add: Cons_nth_drop_Suc[symmetric])
    with True 1 show ?thesis
      by (subst legacy_send_from.simps) (auto simp: ua_bind_def split: prod.split option.split)
  next
    case False
    with 1(2) show ?thesis by (subst legacy_send_from.simps) simp
  qed
qed

lemma free_all_fold: "fold (\<lambda>st mem. snd (freeTelemetryStore st mem)) stores mem = free_all stores mem"
  by (induction stores arbitrary: mem) simp_all

lemma legacy_send: "legacy_sendTelemetryPayload E cd q s = sendTelemetryPayload E cd q s"
  by (simp add: legacy_sendTelemetryPayload_def sendTelemetryPayload_def legacy_payload_eq legacy_send_from_eq
      payload_length free_all_fold split: option.split prod.split)

lemma legacy_nodes: "legacy_addNodes E rbn s = addNodes E rbn s"
  by (auto simp: legacy_addNodes_def addNodes_def ua_bind_def on_world_def split: prod.splits option.splits)

text \<open>
  The client of \<open>OPC_UA/client.cpp\<close> is the one that replaced it, with the project two directories above
  the working directory: both constructors succeed, throw and fail alike with the same configuration, and
  adding the nodes and sending the telemetry are the same operations.
\<close>

theorem legacy_client_agrees:
  "legacy_SystemInfoClient D S current_path nm = CustomClient D S (parent_path (parent_path current_path)) nm \<and>
   legacy_addNodes E rbn s = addNodes E rbn s \<and> legacy_sendTelemetryPayload E cd q s = sendTelemetryPayload E cd q s"
  by (simp add: legacy_constructor legacy_nodes legacy_send)

end
