(* ===== verification/Config_Dump.thy ===== *)
theory Config_Dump
  imports Loggers Legacy_Client
begin

text \<open>
  What the constructors of both clients and of the server print or log of their configuration: the dump functions of
  \<open>CustomClient.cpp\<close>, \<open>client.cpp\<close> and \<open>server.cpp\<close>. Among what is dumped is the private key. How an address is
  printed is an argument; \<open>isprint\<close> is that of the C locale.
\<close>

section \<open>Byte strings\<close>

text \<open>A \<open>UA_ByteString\<close>: the length, and what the pointer leads to, unless it is null.\<close>

record byte_string =
  bs_length :: nat
  bs_data :: "string option"
  bs_address :: string

definition isprint :: "char \<Rightarrow> bool" where
  "isprint c \<longleftrightarrow> 32 \<le> (of_char c :: nat) \<and> (of_char c :: nat) \<le> 126"

definition hex_digit :: "nat \<Rightarrow> char" where
  "hex_digit n = (if n < 10 then digit_char n else char_of (87 + n))"

text \<open>\<open>std::hex\<close> of a byte, without leading zeros.\<close>

definition show_hex_byte :: "nat \<Rightarrow> string" where
  "show_hex_byte n = (if n < 16 then [hex_digit n] else [hex_digit (n div 16), hex_digit (n mod 16)])"

definition preview_byte :: "char \<Rightarrow> string" where
  "preview_byte c = (if isprint c then [c] else [CHR 0x5C, CHR ''x''] @ show_hex_byte (of_char c))"

definition preview_limit :: nat where "preview_limit = 40"

text \<open>\<open>None\<close>: the preview reads behind the block.\<close>

definition dumpByteString :: "string \<Rightarrow> byte_string \<Rightarrow> string option" where
  "dumpByteString label bs =
     (let start = ''  '' @ label @ '': length='' @ show_nat (bs_length bs) @ '' data='' @ bs_address bs in
      case bs_data bs of
        None \<Rightarrow> Some (start @ [line_end])
      | Some bytes \<Rightarrow>
          if bs_length bs = 0 then Some (start @ [line_end])
          else
            (let preview_len = min (bs_length bs) preview_limit in
             if length bytes < preview_len then None
             else Some (start @ '' preview=['' @ concat (map preview_byte (take preview_len bytes)) @
                        (if bs_length bs > preview_len then ''...'' else []) @ '']'' @ [line_end])))"

text \<open>The entries of a list, each with its index.\<close>

fun dump_list :: "string \<Rightarrow> nat \<Rightarrow> byte_string list \<Rightarrow> string option" where
  "dump_list nm i [] = Some []"
| "dump_list nm i (b # bs) = do {
     t \<leftarrow> dumpByteString (nm @ ''['' @ show_nat i @ '']'') b;
     ts \<leftarrow> dump_list nm (Suc i) bs;
     Some (t @ ts) }"

definition list_line :: "string \<Rightarrow> nat \<Rightarrow> string \<Rightarrow> string" where
  "list_line nm n address = ''  '' @ nm @ ''_size='' @ show_nat n @ '' '' @ nm @ ''_ptr='' @ address @ [line_end]"

section \<open>The attributes of a client\<close>

text \<open>
  The attributes as the constructor has read them: every block holds its bytes. \<open>addr\<close> prints the address of
  a block, \<open>list_addr\<close> is that of the array.
\<close>

definition byte_string_of :: "(block \<Rightarrow> string) \<Rightarrow> ua_bytes \<Rightarrow> byte_string" where
  "byte_string_of addr b = \<lparr>bs_length = length (bytes_of b), bs_data = Some (bytes_of b), bs_address = addr (block_of b)\<rparr>"

definition dumpConfigAttrs :: "(block \<Rightarrow> string) \<Rightarrow> string \<Rightarrow> ClientConfigAttributes \<Rightarrow> string option" where
  "dumpConfigAttrs addr list_addr attrs = do {
     crt \<leftarrow> dumpByteString ''certificate'' (byte_string_of addr (certificate attrs));
     key \<leftarrow> dumpByteString ''private_key'' (byte_string_of addr (private_key attrs));
     trusted \<leftarrow> dump_list ''trust_list'' 0 (map (byte_string_of addr) (trust_list attrs));
     Some (''=== ClientConfigAttributes dump ==='' @ [line_end] @ crt @ key @
           list_line ''trust_list'' (length (trust_list attrs)) list_addr @ trusted) }"

text \<open>\<open>CustomClient\<close> writes it as one message of its logger, if it has one; the older client prints it.\<close>

definition log_ConfigAttrs ::
  "(LogLevel \<Rightarrow> int) \<Rightarrow> civil_time \<times> nat \<Rightarrow> (block \<Rightarrow> string) \<Rightarrow> string \<Rightarrow> ClientConfigAttributes \<Rightarrow>
     FileLogger option \<Rightarrow> FileLogger option option" where
  "log_ConfigAttrs code now addr list_addr attrs logger =
     (case logger of
        None \<Rightarrow> Some None
      | Some f \<Rightarrow> map_option (\<lambda>t. Some (file_write_info code now t f)) (dumpConfigAttrs addr list_addr attrs))"

definition legacy_dumpConfigAttrs :: "(block \<Rightarrow> string) \<Rightarrow> string \<Rightarrow> ClientConfigAttributes \<Rightarrow> string \<Rightarrow> string option" where
  "legacy_dumpConfigAttrs addr list_addr attrs out = map_option ((@) out) (dumpConfigAttrs addr list_addr attrs)"

section \<open>The attributes of the server\<close>

text \<open>
  The dump comes before \<open>revocation_list\<close> and its size are set, so what it prints of them, \<open>rev_size\<close> and \<open>rev_addr\<close>, is
  not determined by the program.
\<close>

record server_addresses =
  at_certificate :: string
  at_private_key :: string
  at_trust_list :: string
  at_trusted :: "nat \<Rightarrow> string"
  at_issuer_list :: string
  at_issuer :: "nat \<Rightarrow> string"

definition whole :: "string \<Rightarrow> string \<Rightarrow> byte_string" where
  "whole address b = \<lparr>bs_length = length b, bs_data = Some b, bs_address = address\<rparr>"

definition server_dumpConfigAttrs ::
  "server_addresses \<Rightarrow> nat \<Rightarrow> string \<Rightarrow> ServerConfigAttributes \<Rightarrow> string option" where
  "server_dumpConfigAttrs A rev_size rev_addr attrs = do {
     crt \<leftarrow> dumpByteString ''certificate'' (whole (at_certificate A) (srv_certificate attrs));
     key \<leftarrow> dumpByteString ''private_key'' (whole (at_private_key A) (srv_private_key attrs));
     trusted \<leftarrow> dump_list ''trust_list'' 0 (map (\<lambda>(i, b). whole (at_trusted A i) b) (enumerate 0 (srv_trust_list attrs)));
     issuers \<leftarrow> dump_list ''issuer_list'' 0 (map (\<lambda>(i, b). whole (at_issuer A i) b) (enumerate 0 (srv_issuer_list attrs)));
     Some (''=== ServerConfigAttributes dump ==='' @ [line_end] @ crt @ key @
           list_line ''trust_list'' (length (srv_trust_list attrs)) (at_trust_list A) @ trusted @
           list_line ''issuer_list'' (length (srv_issuer_list attrs)) (at_issuer_list A) @ issuers @
           list_line ''revocation_list'' rev_size rev_addr @ ''=== end dump ==='' @ [line_end]) }"

section \<open>The configuration of the stack\<close>

text \<open>\<open>printString\<close> and \<open>printByteString\<close>; the latter prints two hexadecimal digits for each byte.\<close>

definition printString :: "string option \<Rightarrow> string" where
  "printString s = (case s of None \<Rightarrow> ''<empty>'' | Some t \<Rightarrow> if t = [] then ''<empty>'' else t)"

definition two_hex_digits :: "char \<Rightarrow> string" where
  "two_hex_digits c = pad_left 2 (CHR ''0'') (show_hex_byte (of_char c))"

definition printByteString :: "string option \<Rightarrow> string" where
  "printByteString bs =
     (case bs of None \<Rightarrow> ''<empty>'' | Some t \<Rightarrow> if t = [] then ''<empty>'' else concat (map two_hex_digits t))"

text \<open>What \<open>dumpClient\<close> reads of a \<open>UA_ClientConfig\<close>.\<close>

record config_view =
  cv_timeout :: nat
  cv_secureChannelLifeTime :: nat
  cv_requestedSessionTimeout :: nat
  cv_connectivityCheckInterval :: nat
  cv_securityMode :: nat
  cv_securityPolicyUri :: "string option"
  cv_localCertificates :: "byte_string list"
  cv_eventLoop :: string
  cv_logging :: string

fun dump_certificates :: "byte_string list \<Rightarrow> string option" where
  "dump_certificates [] = Some []"
| "dump_certificates (b # bs) = do {
     t \<leftarrow> dumpByteString ''certificate'' b;
     ts \<leftarrow> dump_certificates bs;
     Some (t @ ts) }"

definition text_line :: "string \<Rightarrow> string" where
  "text_line t = t @ [line_end]"

text \<open>The client, and its configuration, are pointers that are tested.\<close>

definition dumpClient :: "config_view option option \<Rightarrow> string option" where
  "dumpClient client =
     (case client of
        None \<Rightarrow> Some (text_line ''Client is null'')
      | Some None \<Rightarrow> Some (text_line ''Config is null'')
      | Some (Some cfg) \<Rightarrow> do {
          certificates \<leftarrow> dump_certificates (cv_localCertificates cfg);
          let bar = text_line ''============================='';
          Some (bar @ text_line ''UA_ClientConfig'' @ bar @
            text_line (''Timeout: '' @ show_nat (cv_timeout cfg) @ '' ms'') @
            text_line (''SecureChannel lifetime: '' @ show_nat (cv_secureChannelLifeTime cfg)) @
            text_line (''Requested Session Timeout: '' @ show_nat (cv_requestedSessionTimeout cfg)) @
            text_line (''Connectivity Check Interval: '' @ show_nat (cv_connectivityCheckInterval cfg)) @
            [line_end] @ text_line ''=== Security ==='' @
            text_line (''Security Mode: '' @ show_nat (cv_securityMode cfg)) @
            text_line (''Security Policy URI: '' @ printString (cv_securityPolicyUri cfg)) @
            certificates @
            [line_end] @ text_line ''=== Event Loop ==='' @ text_line (''EventLoop: '' @ cv_eventLoop cfg) @
            [line_end] @ text_line ''=== Logging ==='' @ text_line (''Logger: '' @ cv_logging cfg) @ bar) })"

definition log_Client ::
  "(LogLevel \<Rightarrow> int) \<Rightarrow> civil_time \<times> nat \<Rightarrow> config_view option option \<Rightarrow> FileLogger option \<Rightarrow> FileLogger option option" where
  "log_Client code now client logger =
     (case logger of
        None \<Rightarrow> Some None
      | Some f \<Rightarrow> map_option (\<lambda>t. Some (file_write_info code now t f)) (dumpClient client))"

text \<open>The copies in \<open>client.cpp\<close> and \<open>server.cpp\<close>, which write to the standard output.\<close>

abbreviation legacy_dumpByteString :: "string \<Rightarrow> byte_string \<Rightarrow> string option" where
  "legacy_dumpByteString \<equiv> dumpByteString"

abbreviation server_dumpByteString :: "string \<Rightarrow> byte_string \<Rightarrow> string option" where
  "server_dumpByteString \<equiv> dumpByteString"

abbreviation legacy_printByteString :: "string option \<Rightarrow> string" where
  "legacy_printByteString \<equiv> printByteString"

abbreviation legacy_printString :: "string option \<Rightarrow> string" where
  "legacy_printString \<equiv> printString"

abbreviation legacy_dumpClient :: "config_view option option \<Rightarrow> string option" where
  "legacy_dumpClient \<equiv> dumpClient"

section \<open>Lines of printable characters\<close>

text \<open>A text of printable characters in \<open>n\<close> lines, each of which is ended.\<close>

definition printable_lines :: "nat \<Rightarrow> string \<Rightarrow> bool" where
  "printable_lines n t \<longleftrightarrow> list_all (\<lambda>c. isprint c \<or> c = line_end) t \<and> length (filter (\<lambda>c. c = line_end) t) = n"

lemma line_end_not_printed: "\<not> isprint line_end"
  by (simp add: isprint_def line_end_def)

lemma printable_lines_append: "printable_lines m s \<Longrightarrow> printable_lines n t \<Longrightarrow> printable_lines (m + n) (s @ t)"
  by (simp add: printable_lines_def)

lemma printable_line: "list_all isprint t \<Longrightarrow> printable_lines 1 (t @ [line_end])"
  using line_end_not_printed by (auto simp: printable_lines_def list_all_iff filter_empty_conv)

lemma hex_digit_printable: "n < 16 \<Longrightarrow> isprint (hex_digit n)"
  by (auto simp: isprint_def hex_digit_def digit_char_def)

lemma digit_printable: "n < 10 \<Longrightarrow> isprint (digit_char n)"
  using hex_digit_printable[of n] by (simp add: hex_digit_def)

lemma show_nat_printable: "list_all isprint (show_nat n)"
proof (induction n rule: show_nat.induct)
  case (1 n)
  then show ?case by (cases "n < 10") (auto simp: show_nat_small show_nat_big digit_printable)
qed

lemma preview_byte_printable: "list_all isprint (preview_byte c)"
proof -
  have "(of_char c :: nat) div 16 < 16" using nat_of_char_less_256[of c] by (simp only: less_mult_imp_div_less)
  then show ?thesis
    by (simp add: preview_byte_def show_hex_byte_def hex_digit_printable) (simp add: isprint_def)
qed

lemma preview_printable: "list_all isprint (concat (map preview_byte bs))"
  by (induction bs) (simp_all add: preview_byte_printable)

section \<open>What a dump shows\<close>

lemma dumpByteString_line:
  assumes "list_all isprint label" and "list_all isprint (bs_address b)" and "bs_data b = Some bytes" and "bs_length b \<le> length bytes"
  shows "\<exists>t. dumpByteString label b = Some (t @ [line_end]) \<and> list_all isprint t"
proof -
  have p: "list_all isprint ''  ''" "list_all isprint '': length=''" "list_all isprint '' data=''" "list_all isprint '' preview=[''"
      "list_all isprint ''...''" "list_all isprint '']''"
    by (simp_all add: isprint_def)
  show ?thesis
    using assms(3,4) p assms(1,2) by (auto simp: dumpByteString_def Let_def show_nat_printable preview_printable)
qed

lemma dump_list_lines:
  assumes "list_all isprint nm" and "\<forall>b \<in> set bs. list_all isprint (bs_address b) \<and> bs_data b \<noteq> None \<and> bs_length b \<le> length (the (bs_data b))"
  shows "\<exists>t. dump_list nm i bs = Some t \<and> printable_lines (length bs) t"
  using assms(2)
proof (induction bs arbitrary: i)
  case Nil
  then show ?case by (simp add: printable_lines_def)
next
  case (Cons b bs)
  have "list_all isprint (nm @ ''['' @ show_nat i @ '']'')"
    using assms(1) by (simp add: show_nat_printable) (simp add: isprint_def)
  moreover have b: "list_all isprint (bs_address b)" "bs_data b = Some (the (bs_data b))" "bs_length b \<le> length (the (bs_data b))"
    using Cons.prems by auto
  ultimately obtain t where "dumpByteString (nm @ ''['' @ show_nat i @ '']'') b = Some (t @ [line_end])" "list_all isprint t"
    using dumpByteString_line by blast
  moreover obtain ts where "dump_list nm (Suc i) bs = Some ts" "printable_lines (length bs) ts"
    using Cons.IH[of "Suc i"] Cons.prems by auto
  ultimately show ?case using printable_lines_append[OF printable_line, of t "length bs" ts] by simp
qed

lemma list_line_line:
  "list_all isprint nm \<Longrightarrow> list_all isprint address \<Longrightarrow> printable_lines 1 (list_line nm n address)"
proof -
  have "list_all isprint ''  ''" "list_all isprint ''_size=''" "list_all isprint '' ''" "list_all isprint ''_ptr=''"
    by (simp_all add: isprint_def)
  moreover assume "list_all isprint nm" "list_all isprint address"
  ultimately have "list_all isprint (''  '' @ nm @ ''_size='' @ show_nat n @ '' '' @ nm @ ''_ptr='' @ address)"
    by (simp only: list_all_append show_nat_printable simp_thms)
  from printable_line[OF this] show ?thesis by (simp add: list_line_def)
qed

text \<open>Only the length, the address and the first bytes count.\<close>

lemma dumpByteString_prefix:
  assumes "length k' = length k" and "take preview_limit k' = take preview_limit k"
  shows "dumpByteString label \<lparr>bs_length = length k', bs_data = Some k', bs_address = a\<rparr> =
    dumpByteString label \<lparr>bs_length = length k, bs_data = Some k, bs_address = a\<rparr>"
proof -
  have "take (min (length k) preview_limit) k' = take (min (length k) preview_limit) k"
    using assms by (metis min.cobounded2 min.commute take_take)
  then show ?thesis using assms(1) by (simp add: dumpByteString_def Let_def)
qed

lemma dumpConfigAttrs_lines:
  assumes "\<forall>b. list_all isprint (addr b)" and "list_all isprint list_addr"
  shows "\<exists>t. dumpConfigAttrs addr list_addr attrs = Some t \<and> printable_lines (4 + length (trust_list attrs)) t"
proof -
  let ?bs = "byte_string_of addr"
  have p: "list_all isprint ''certificate''" "list_all isprint ''private_key''" "list_all isprint ''trust_list''"
      "list_all isprint ''=== ClientConfigAttributes dump ===''" by (simp_all add: isprint_def)
  have bs: "list_all isprint (bs_address (?bs b))" "bs_data (?bs b) = Some (bytes_of b)" "bs_length (?bs b) \<le> length (bytes_of b)" for b
    using assms(1) by (simp_all add: byte_string_of_def)
  obtain crt where crt: "dumpByteString ''certificate'' (?bs (certificate attrs)) = Some (crt @ [line_end])" "list_all isprint crt"
    using dumpByteString_line[OF p(1) bs] by blast
  obtain key where key: "dumpByteString ''private_key'' (?bs (private_key attrs)) = Some (key @ [line_end])" "list_all isprint key"
    using dumpByteString_line[OF p(2) bs] by blast
  have "\<forall>b \<in> set (map ?bs (trust_list attrs)). list_all isprint (bs_address b) \<and> bs_data b \<noteq> None \<and> bs_length b \<le> length (the (bs_data b))"
    using bs by (auto simp: byte_string_of_def)
  from dump_list_lines[OF p(3) this, of 0] obtain ts where
    ts: "dump_list ''trust_list'' 0 (map ?bs (trust_list attrs)) = Some ts" "printable_lines (length (trust_list attrs)) ts" by auto
  have "printable_lines (1 + (1 + (1 + (1 + length (trust_list attrs)))))
      ((''=== ClientConfigAttributes dump ==='' @ [line_end]) @ (crt @ [line_end]) @ (key @ [line_end]) @
       list_line ''trust_list'' (length (trust_list attrs)) list_addr @ ts)"
    by (intro printable_lines_append printable_line p(4) crt(2) key(2) list_line_line p(3) assms(2) ts(2))
  moreover have "1 + (1 + (1 + (1 + length (trust_list attrs)))) = 4 + length (trust_list attrs)" by simp
  ultimately have "printable_lines (4 + length (trust_list attrs))
      ((''=== ClientConfigAttributes dump ==='' @ [line_end]) @ (crt @ [line_end]) @ (key @ [line_end]) @
       list_line ''trust_list'' (length (trust_list attrs)) list_addr @ ts)" by (simp only:)
  moreover have "dumpConfigAttrs addr list_addr attrs = Some ((''=== ClientConfigAttributes dump ==='' @ [line_end]) @
      (crt @ [line_end]) @ (key @ [line_end]) @ list_line ''trust_list'' (length (trust_list attrs)) list_addr @ ts)"
    by (simp add: dumpConfigAttrs_def crt(1) key(1) ts(1))
  ultimately show ?thesis by blast
qed

text \<open>
  C37: The dump of a client's configuration, which is logged with the private key in it: whatever the files hold, it
  is one line for the heading, the certificate, the key, the list and each trusted certificate, all of
  printable characters, so that no file can forge a line of the log; and of the key it depends on nothing
  but the length and the first 40 bytes.
\<close>

theorem dump_confined:
  assumes "\<forall>b. list_all isprint (addr b)" and "list_all isprint list_addr"
    and "length key = length (bytes_of (private_key attrs))"
    and "take preview_limit key = take preview_limit (bytes_of (private_key attrs))"
  shows "(\<exists>t. dumpConfigAttrs addr list_addr attrs = Some t \<and> printable_lines (4 + length (trust_list attrs)) t \<and>
      log_ConfigAttrs code now addr list_addr attrs (Some f) = Some (Some (file_write_info code now t f))) \<and>
    log_ConfigAttrs code now addr list_addr (attrs\<lparr>private_key := (private_key attrs)\<lparr>bytes_of := key\<rparr>\<rparr>) logger =
      log_ConfigAttrs code now addr list_addr attrs logger"
proof
  obtain t where "dumpConfigAttrs addr list_addr attrs = Some t" "printable_lines (4 + length (trust_list attrs)) t"
    using dumpConfigAttrs_lines[OF assms(1,2)] by blast
  then show "\<exists>t. dumpConfigAttrs addr list_addr attrs = Some t \<and>
      printable_lines (4 + length (trust_list attrs)) t \<and>
      log_ConfigAttrs code now addr list_addr attrs (Some f) = Some (Some (file_write_info code now t f))"
    by (auto simp: log_ConfigAttrs_def)
  have "dumpConfigAttrs addr list_addr (attrs\<lparr>private_key := (private_key attrs)\<lparr>bytes_of := key\<rparr>\<rparr>) =
      dumpConfigAttrs addr list_addr attrs"
    unfolding dumpConfigAttrs_def byte_string_of_def by (simp add: dumpByteString_prefix[OF assms(3,4)])
  then show "log_ConfigAttrs code now addr list_addr (attrs\<lparr>private_key := (private_key attrs)\<lparr>bytes_of := key\<rparr>\<rparr>) logger =
      log_ConfigAttrs code now addr list_addr attrs logger"
    by (cases logger) (simp_all add: log_ConfigAttrs_def)
qed

text \<open>Two keys of 48 bytes that differ in the last one: the log is the same.\<close>

definition dumped_attrs :: "string \<Rightarrow> ClientConfigAttributes" where
  "dumped_attrs key = \<lparr>certificate = \<lparr>block_of = Certificate_Block, bytes_of = [CHR 0x30, CHR 0x0A]\<rparr>,
     private_key = \<lparr>block_of = Key_Block, bytes_of = key\<rparr>, trust_list = [], issuer_list = []\<rparr>"

lemma dump_confined_witness:
  "dumpConfigAttrs (\<lambda>_. ''0x1'') ''0x2'' (dumped_attrs (replicate 47 (CHR ''k'') @ ''a'')) \<noteq> None \<and>
   (\<forall>code now logger. log_ConfigAttrs code now (\<lambda>_. ''0x1'') ''0x2'' (dumped_attrs (replicate 47 (CHR ''k'') @ ''b'')) logger =
     log_ConfigAttrs code now (\<lambda>_. ''0x1'') ''0x2'' (dumped_attrs (replicate 47 (CHR ''k'') @ ''a'')) logger)"
proof -
  let ?a = "dumped_attrs (replicate 47 (CHR ''k'') @ ''a'')" and ?key = "replicate 47 (CHR ''k'') @ ''b''"
  have h: "\<forall>b :: block. list_all isprint ''0x1''" "list_all isprint ''0x2''"
    "length ?key = length (bytes_of (private_key ?a))"
    "take preview_limit ?key = take preview_limit (bytes_of (private_key ?a))"
    by (simp_all add: isprint_def dumped_attrs_def preview_limit_def)
  have "?a\<lparr>private_key := (private_key ?a)\<lparr>bytes_of := ?key\<rparr>\<rparr> = dumped_attrs ?key" by (simp add: dumped_attrs_def)
  with dump_confined[where addr = "\<lambda>_. ''0x1''", OF h] show ?thesis by (metis option.distinct(1))
qed

text \<open>What the log does show of the key: where its first bytes are printable, they stand there as they are.\<close>

lemma dump_shows_key:
  assumes "length k \<ge> preview_limit" and "list_all isprint (take preview_limit k)"
  shows "\<exists>pre post. dumpByteString label \<lparr>bs_length = length k, bs_data = Some k, bs_address = a\<rparr> = Some (pre @ take preview_limit k @ post)"
proof -
  have "concat (map preview_byte bs) = bs" if "list_all isprint bs" for bs
    using that by (induction bs) (simp_all add: preview_byte_def)
  moreover have "min (length k) preview_limit = preview_limit" "length k \<noteq> 0" using assms(1) by (auto simp: preview_limit_def)
  ultimately have "dumpByteString label \<lparr>bs_length = length k, bs_data = Some k, bs_address = a\<rparr> =
      Some ((''  '' @ label @ '': length='' @ show_nat (length k) @ '' data='' @ a @ '' preview=['') @ take preview_limit k @
        ((if length k > preview_limit then ''...'' else []) @ '']'' @ [line_end]))"
    using assms by (simp add: dumpByteString_def Let_def)
  then show ?thesis by blast
qed

end
