(* ===== verification/Console_Output.thy ===== *)
theory Console_Output
  imports Wmi_Storage
begin

text \<open>
  The inventory on the console: \<open>OutputHandler.cpp\<close> with the printing functions of \<open>motherboard.cpp\<close>,
  \<open>GraphicsProcessor.cpp\<close>, \<open>processor.cpp\<close> and \<open>storagedevice.cpp\<close>. What \<open>std::wcout\<close> makes of a \<open>bstr_t\<close>, which converts to
  four pointer types, is the parameter \<open>ws\<close>. \<open>None\<close> is a read of a variable without a value, or of a name without its end.
\<close>

section \<open>The parts of a machine\<close>

definition endl :: wide where "endl = [10]"

definition wline :: "string \<Rightarrow> wide \<Rightarrow> wide" where
  "wline label text = widen label @ text @ endl"

definition wide_nat :: "'a::len word \<Rightarrow> wide" where
  "wide_nat n = widen (show_nat (unat n))"

text \<open>The first flag of the board is tested, and the second printed.\<close>

definition outputMotherboardInfo :: "(bstr \<Rightarrow> wide) \<Rightarrow> Motherboard \<Rightarrow> wide" where
  "outputMotherboardInfo ws b =
     (if description b \<noteq> None then wline ''Description: '' (ws (description b)) else []) @
     (if hosting_board b then wline ''HostingBoard: '' (widen (if \<not> powered_on b then ''False'' else ''True'')) else []) @
     (if powered_on b then wline ''PoweredOn: '' (widen (if \<not> powered_on b then ''False'' else ''True'')) else []) @
     (if product b \<noteq> None then wline ''Product: '' (ws (product b)) else []) @
     (if mb_status b \<noteq> None then wline ''Status: '' (ws (mb_status b)) else [])"

definition outputGPUInfo :: "(bstr \<Rightarrow> wide) \<Rightarrow> GraphicsProcessor \<Rightarrow> wide" where
  "outputGPUInfo ws g =
     wline ''Name: '' (ws (gp_name g)) @
     wline ''Total Adapter RAM: '' (ws (Some (widen (simplifyBytesAsString (ucast (adapter_RAM g)))))) @
     wline ''Device ID: '' (ws (gp_device_id g)) @
     wline ''Availability: '' (ws (Some (widen (explainAvailability (availability g))))) @
     wline ''Current Refresh Rate: '' (wide_nat (curr_ref_rate g)) @
     wline ''Status: '' (ws (gp_status g)) @ endl"

definition outProcInfo :: "(bstr \<Rightarrow> wide) \<Rightarrow> Processor \<Rightarrow> wide" where
  "outProcInfo ws p =
     wline ''Processor Info:'' [] @
     wline ''  Unique ID: '' (ws (pr_unq_id p)) @
     wline ''  Device ID: '' (ws (pr_dev_id p)) @
     wline ''  Processor ID: '' (ws (proc_id p)) @
     wline ''  Processor Type: '' (wide_nat (proc_type p)) @
     wline ''  Family: '' (wide_nat (pr_family p)) @
     wline ''  Architecture: '' (wide_nat (architecture p)) @
     wline ''  Manufacturer: '' (ws (pr_manufacturer p)) @
     wline ''  Name: '' (ws (pr_name p)) @
     wline ''  Number of Cores: '' (wide_nat (num_cores p)) @
     wline ''  Number of Logical Processors: '' (wide_nat (num_log_proc p)) @
     wline ''  Thread Count: '' (wide_nat (thread_cnt p)) @
     wline ''  Current Clock Speed: '' (wide_nat (curr_clk_spd p) @ widen '' MHz'') @
     wline ''  Current Voltage: '' (wide_nat (curr_vltg p) @ widen '' V'') @
     wline ''  Data Width: '' (wide_nat (data_width p) @ widen '' bits'') @ endl"

section \<open>Disks\<close>

text \<open>Here the code casts the string itself, and the stream stops at its first NUL.\<close>

definition text_or_empty :: "bstr \<Rightarrow> wide" where
  "text_or_empty b =
     (case b of None \<Rightarrow> widen ''<empty>'' | Some w \<Rightarrow> if w = [] then widen ''<empty>'' else takeWhile (\<lambda>u. u \<noteq> 0) w)"

definition wide_size :: "(bstr \<Rightarrow> wide) \<Rightarrow> ULONGLONG \<Rightarrow> wide" where
  "wide_size ws n = ws (Some (widen (simplifyBytesAsString n)))"

definition drive_letter :: "16 word \<Rightarrow> wide" where
  "drive_letter l = [if l \<noteq> 0 then l else 60] @ widen '':''"

text \<open>\<open>MAXULONG32\<close> stands for a speed that is not known.\<close>

definition spindle_text :: "ULONG \<Rightarrow> wide" where
  "spindle_text ss =
     (if 0 < ss \<and> ss < 0xFFFFFFFF then widen ''HDD, Spindle Speed: '' @ wide_nat ss @ widen '' RPM'' @ endl @ endl
      else if ss = 0xFFFFFFFF then widen ''HDD, Spindle Speed: Unknown'' @ endl @ endl
      else widen ''SSD Drive'' @ endl @ endl)"

definition partition_text :: "(bstr \<Rightarrow> wide) \<Rightarrow> Partition \<Rightarrow> wide" where
  "partition_text ws p =
     wline ([CHR 0x09] @ ''Partition '') (wide_nat (snd (partition_id p)) @ widen '' on Disk '' @ wide_nat (fst (partition_id p))) @
     wline ([CHR 0x09] @ ''Drive Letter: '') (drive_letter (pt_drv_ltr p)) @
     wline ([CHR 0x09] @ ''Size: '') (wide_size ws (pt_sz p)) @ endl"

definition used_space :: "Volume \<Rightarrow> ULONGLONG" where
  "used_space v = vo_sz v - sz_rmng v"

definition volume_text :: "(bstr \<Rightarrow> wide) \<Rightarrow> Volume \<Rightarrow> wide" where
  "volume_text ws v =
     wline ([CHR 0x09, CHR 0x09] @ ''Drive Letter: '') (drive_letter (vo_drv_ltr v)) @
     wline ([CHR 0x09, CHR 0x09] @ ''Size: '') (wide_size ws (vo_sz v)) @
     wline ([CHR 0x09, CHR 0x09] @ ''Used Space: '') (wide_size ws (used_space v)) @ endl @
     wline ([CHR 0x09, CHR 0x09] @ ''Remaining Space: '') (wide_size ws (sz_rmng v)) @ endl"

definition outSDInfo :: "(bstr \<Rightarrow> wide) \<Rightarrow> StorageDevice \<Rightarrow> wide option" where
  "outSDInfo ws d = do {
     physical \<leftarrow> sd_physical d;
     Some (wline ''--- Disk Info ---'' [] @
       wline ''Disk Number: '' (wide_nat (dk_disk_num (sd_disk d))) @
       wline ''Friendly Name: '' (text_or_empty (dk_fname (sd_disk d))) @
       wline ''Manufacturer: '' (text_or_empty (dk_manufacturer (sd_disk d))) @
       wline ''Model: '' (text_or_empty (dk_model (sd_disk d))) @
       wline ''Size: '' (wide_size ws (dk_sz (sd_disk d)) @ widen '' '') @
       spindle_text (spindle_speed physical) @
       wline ([CHR 0x09] @ ''--- Partitions ---'') [] @
       (if sd_partitions d = [] then wline ([CHR 0x09] @ ''No partitions found.'') []
        else concat (map (partition_text ws) (sd_partitions d))) @
       wline ([CHR 0x09, CHR 0x09] @ ''--- Volumes ---'') [] @
       (if sd_volumes d = [] then wline ([CHR 0x09, CHR 0x09] @ ''No volumes found.'') []
        else concat (map (volume_text ws) (sd_volumes d)))) }"

section \<open>The whole inventory\<close>

text \<open>The headings and the driver's metrics go to the narrow stream, everything else to the wide one.\<close>

datatype console_item = Cout string | Wcout wide

definition OUTPUT_HEADER :: "string \<Rightarrow> console_item list" where
  "OUTPUT_HEADER header_msg =
     [Cout (replicate 62 (CHR ''-'') @ [CHR 0x0A]), Cout (''     ** '' @ header_msg @ ''** '' @ [CHR 0x0A, CHR 0x0A])]"

record Hardware_List_Container =
  gpus :: "GraphicsProcessor list"
  cpus :: "Processor list"
  motherboards :: "Motherboard list"
  storage_dvcs :: "StorageDevice list"

fun print_storage :: "(bstr \<Rightarrow> wide) \<Rightarrow> StorageDevice list \<Rightarrow> console_item list option" where
  "print_storage ws [] = Some []"
| "print_storage ws (d # ds) = do { t \<leftarrow> outSDInfo ws d; ts \<leftarrow> print_storage ws ds; Some (Wcout t # ts) }"

definition OutputHandler_output ::
  "(bstr \<Rightarrow> wide) \<Rightarrow> Hardware_List_Container \<Rightarrow> driver_client \<Rightarrow> console_item list option" where
  "OutputHandler_output ws hw_data dc = do {
     metrics \<leftarrow> printDriverOutput dc;
     disks \<leftarrow> print_storage ws (storage_dvcs hw_data);
     Some (OUTPUT_HEADER ''Motherboard'' @ map (\<lambda>b. Wcout (outputMotherboardInfo ws b)) (motherboards hw_data) @ [Wcout endl] @
       OUTPUT_HEADER ''GPU'' @ map (\<lambda>g. Wcout (outputGPUInfo ws g)) (gpus hw_data) @ [Wcout endl] @
       OUTPUT_HEADER ''Processors'' @ map (\<lambda>p. Wcout (outProcInfo ws p)) (cpus hw_data) @ [Wcout endl] @
       OUTPUT_HEADER ''Active CPU Hardware Details'' @ [Cout metrics, Wcout endl] @
       OUTPUT_HEADER ''Storage Devices'' @ disks @ [Wcout endl]) }"

definition OutputHandler_outputNoDriver :: "(bstr \<Rightarrow> wide) \<Rightarrow> Hardware_List_Container \<Rightarrow> console_item list option" where
  "OutputHandler_outputNoDriver ws hw_data = do {
     disks \<leftarrow> print_storage ws (storage_dvcs hw_data);
     Some (OUTPUT_HEADER ''Motherboard'' @ map (\<lambda>b. Wcout (outputMotherboardInfo ws b)) (motherboards hw_data) @ [Wcout endl] @
       OUTPUT_HEADER ''GPU'' @ map (\<lambda>g. Wcout (outputGPUInfo ws g)) (gpus hw_data) @ [Wcout endl] @
       OUTPUT_HEADER ''Active GPU Hardware Details'' @ [Wcout endl] @
       OUTPUT_HEADER ''Processors'' @ map (\<lambda>p. Wcout (outProcInfo ws p)) (cpus hw_data) @ [Wcout endl] @
       OUTPUT_HEADER ''Storage Devices'' @ disks @ [Wcout endl]) }"

section \<open>What is printed\<close>

lemma print_storage_total: "print_storage ws ds \<noteq> None \<longleftrightarrow> list_all (\<lambda>d. sd_physical d \<noteq> None) ds"
  by (induction ds) (auto simp: outSDInfo_def split: bind_splits)

lemma physical_of_join [simp]: "sd_physical (storage_of s disk) = q_phys s (dk_disk_num disk)"
  by (simp add: storage_of_def Let_def)

text \<open>After the join, the inventory is printed exactly when every disk has been found among the physical disks.\<close>

lemma inventory_printed:
  assumes "storage_dvcs hw_data = infoPhysicalDrive order s"
  shows "OutputHandler_outputNoDriver ws hw_data \<noteq> None \<longleftrightarrow>
    (\<forall>k \<in> set order. q_phys s (dk_disk_num (the (q_disks s k))) \<noteq> None)"
proof -
  have "OutputHandler_outputNoDriver ws hw_data \<noteq> None \<longleftrightarrow> print_storage ws (infoPhysicalDrive order s) \<noteq> None"
    by (simp add: OutputHandler_outputNoDriver_def assms split: bind_splits)
  also have "\<dots> \<longleftrightarrow> (\<forall>k \<in> set order. q_phys s (dk_disk_num (the (q_disks s k))) \<noteq> None)"
    by (simp only: print_storage_total) (simp add: infoPhysicalDrive_def list_all_iff)
  finally show ?thesis .
qed

text \<open>With the driver's metrics the same holds, as long as the client has read the driver.\<close>

lemma inventory_printed_with_driver:
  assumes "map tag_of (ret_data dc) = amd_entries n"
  shows "OutputHandler_output ws hw_data dc \<noteq> None \<longleftrightarrow> list_all (\<lambda>d. sd_physical d \<noteq> None) (storage_dvcs hw_data)"
proof -
  from printDriverOutput_amd[OF assms] obtain t where "printDriverOutput dc = Some t" by blast
  then show ?thesis unfolding OutputHandler_output_def print_storage_total[symmetric, of _ ws]
    by (simp split: bind_splits)
qed

text \<open>The line of the hosting board says whether the board is powered on: for a hosting board without power it is false.\<close>

lemma hosting_board_misprinted:
  "outputMotherboardInfo ws \<lparr>description = None, hosting_board = True, powered_on = False, product = None, mb_status = None\<rparr> =
     widen ''HostingBoard: False'' @ endl"
  by (simp add: outputMotherboardInfo_def wline_def widen_def)

text \<open>The three kinds of drive are told apart, and a known speed is legible.\<close>

lemma widen_inject: "widen s = widen t \<Longrightarrow> s = t"
proof (induction s arbitrary: t)
  case (Cons c s)
  then obtain d t' where t: "t = d # t'" by (cases t) (auto simp: widen_def)
  have "(word_of_nat (of_char c) :: 16 word) = word_of_nat (of_char d)" using Cons.prems by (simp add: t widen_def)
  then have "unat (word_of_nat (of_char c) :: 16 word) = unat (word_of_nat (of_char d) :: 16 word)" by simp
  moreover have "(of_char c :: nat) < 2 ^ 16" "(of_char d :: nat) < 2 ^ 16"
    by (rule less_le_trans[OF nat_of_char_less_256], simp)+
  ultimately have "(of_char c :: nat) = of_char d" by (simp add: unat_of_nat take_bit_nat_eq_self)
  then show ?case using Cons by (simp add: t widen_def)
qed (simp add: widen_def)

lemma wide_nat_inject: "wide_nat m = wide_nat n \<Longrightarrow> m = n"
  unfolding wide_nat_def by (drule widen_inject, drule show_nat_inject) (simp add: word_unat_eq_iff)

lemma wide_nat_start: "\<exists>c cs. c < 58 \<and> wide_nat n = c # cs"
proof -
  have "\<exists>d ds. d < 10 \<and> show_nat k = digit_char d # ds" for k
  proof (induction k rule: less_induct)
    case (less k)
    show ?case
    proof (cases "k < 10")
      case False
      with less[of "k div 10"] show ?thesis by (auto simp: show_nat_big[of k])
    qed (auto simp: show_nat_small)
  qed
  from this[of "unat n"] show ?thesis
    by (auto simp: wide_nat_def widen_def digit_char_def take_bit_nat_eq_self word_less_nat_alt unat_word_ariths unat_of_nat)
qed

lemma spindle_text_inject: "spindle_text m = spindle_text n \<longleftrightarrow> m = n"
proof
  have top: "k = 0xFFFFFFFF" if "0xFFFFFFFF \<le> k" for k :: ULONG
    using that unsigned_less[of k, where 'a = nat] by (simp add: word_le_nat_alt word_unat_eq_iff)
  assume eq: "spindle_text m = spindle_text n"
  from wide_nat_start[of m] wide_nat_start[of n] have first: "\<And>cs. wide_nat m \<noteq> 85 # cs" "\<And>cs. wide_nat n \<noteq> 85 # cs" by auto
  show "m = n"
  proof (cases "0 < m \<and> m < 0xFFFFFFFF")
    case True
    with eq first(1) have "0 < n \<and> n < 0xFFFFFFFF \<and> wide_nat m = wide_nat n"
      by (auto simp: spindle_text_def widen_def Cons_eq_append_conv append_eq_Cons_conv split: if_splits)
    then show ?thesis by (blast intro: wide_nat_inject)
  next
    case False
    with eq first(2) show ?thesis
      by (auto simp: spindle_text_def widen_def not_less word_gt_0 Cons_eq_append_conv append_eq_Cons_conv
          dest: top split: if_splits)
  qed
qed simp

text \<open>The used space is right unless more is reported to remain than there is: then it is shown as almost \<open>2^64\<close> bytes.\<close>

lemma used_space_exact: "sz_rmng v \<le> vo_sz v \<Longrightarrow> unat (used_space v) = unat (vo_sz v) - unat (sz_rmng v)"
  by (simp add: used_space_def unat_sub)

lemma used_space_wraps:
  "simplifyBytesAsString (used_space \<lparr>vo_drv_ltr = 67, vo_sz = 0, sz_rmng = 1, hstatus = 0\<rparr>) = ''16.00 EB''"
proof -
  have "used_space \<lparr>vo_drv_ltr = 67, vo_sz = 0, sz_rmng = 1, hstatus = 0\<rparr> = 0xFFFFFFFFFFFFFFFF" by (simp add: used_space_def)
  moreover have "\<lfloor>18446744073709551615 / 2048 :: rat\<rfloor> = 9007199254740991" by (simp add: floor_eq_iff)
  then have "double_of_nat 0xFFFFFFFFFFFFFFFF = 2 ^ 64"
    by (simp add: double_of_nat_def bit_length.simps round_half_even_def Let_def)
  moreover have "divide_down (2 ^ 64) 0 = (16, 6)" by (simp add: divide_down.simps BINARY_UNIT_MULTIPLIER_def)
  moreover have "show_fixed 2 16 = ''16.00''"
    by (simp add: show_fixed_def round_half_even_def show_nat.simps digit_char_def pad_left_def) code_simp
  ultimately show ?thesis by (simp add: simplifyBytesAsString_def byte_units_def)
qed

end
