(* ===== verification/Spec2Isabelle.thy ===== *)
theory Spec2Isabelle
  imports Cpu_Pipeline Client_Admission Control_Program System_Program Com_Setup Server_Program Gpu_Screen Config_Dump Console_Output
begin

text \<open>
  A verification development for the hardware monitor.

  \<^bold>\<open>The program.\<close> On every monitored Windows machine a kernel driver reads the processor's registers
  (\<open>drivers/windows/CPU\<close>, one driver for AMD and one for Intel), a program in user space reads the driver and the
  graphics cards (\<open>System_Info\<close>) and sends what it read to an OPC UA server (\<open>OPC_UA\<close>); a control
  centre (\<open>control_center\<close>) subscribes to the values on the server and shows them in a terminal. A reading goes
  through these parts in this order, and so do the theories:

  \<^item> \<open>Prelude\<close>: machine types, bit fields, C division, decimal numerals, C strings. \<open>Float32\<close>: C++'s
    \<open>float\<close> as rationals with rounding to 24 bits.
  \<^item> \<open>Cpu_Shared\<close> (\<open>kernel_common/cpu_shared_info.h\<close>), \<open>Kernel_Env\<close> (what the drivers call), \<open>Metric_Buffer\<close>,
    \<open>Ioctl_Handler\<close>, \<open>Driver_Lifecycle\<close>: what the two drivers share. \<open>Amd_Driver\<close>, \<open>Amd_Properties\<close>
    (\<open>amd_cpudriver.c\<close>) and \<open>Intel_Driver\<close>, \<open>Intel_Properties\<close> (\<open>intel_cpudriver.c\<close>): the drivers. The
    locales of \<open>Metric_Buffer\<close> and \<open>Ioctl_Handler\<close> are the contract between handler and metrics; both
    drivers interpret them.
  \<^item> \<open>Driver_Client\<close> (\<open>driver_client/DriverClient.cpp\<close>): the loop that grows its buffer until an answer fits. The
    locale \<open>telemetry_handler\<close> is what it needs of a driver, and is interpreted on both; \<open>sensed_driver\<close> extends it by
    the names of the metrics, and carries the path to the screen for both drivers at once.
  \<^item> \<open>Sensors\<close>, \<open>Cpu_Pipeline\<close> (\<open>HardwareDevice.cpp\<close>, \<open>CPULiveMetrics.cpp\<close>): the sensor store of a device,
    and the metrics of a reading as sensors.
  \<^item> \<open>Gpu_Amd\<close>, \<open>Amd_Interop\<close>, \<open>Gpu_Nvidia\<close>, \<open>Gpu_Pools\<close> (\<open>hardware/GPU\<close>): the graphics cards, their
    libraries, and how cards are found.
  \<^item> \<open>Telemetry_Queue\<close> (\<open>ClientQueue.cpp\<close>), \<open>Pipeline_Workers\<close> (\<open>pipeline_workers\<close>, \<open>HardwareManager.cpp\<close>): the
    threads that poll, and the queue they share with the sender.
  \<^item> \<open>Sensor_Dto\<close>, \<open>Telemetry_Client\<close>, \<open>Telemetry_Properties\<close> (\<open>utils.cpp\<close>, \<open>SystemInfoClient.cpp\<close>): the record
    a sensor has on the wire, and the client that writes it. \<open>Legacy_Client\<close> (\<open>client.cpp\<close>): the client before it.
  \<^item> \<open>Opcua_Layout\<close>, \<open>Access_Control\<close>, \<open>Access_Properties\<close> (\<open>shared_opc_ua_layout.h\<close>, \<open>AccessControlCustom.cpp\<close>):
    who may do what on the server. \<open>Client_Admission\<close>: the client's calls, with all the decisions the stack asks for them, are admitted. \<open>Pki_Config\<close>
    (\<open>CustomClient.cpp\<close>, \<open>server.cpp\<close>): both ends configured from the files under \<open>pki\<close>. \<open>Server_Program\<close> (\<open>OPC_UA/main.cpp\<close>): the
    server's \<open>main\<close>, its thread and its signals.
  \<^item> \<open>Control_Center\<close>, \<open>Control_Center_Properties\<close>, \<open>Display_Grid\<close>, \<open>Control_Program\<close> (\<open>control_center\<close>):
    discovery, subscriptions, rows, the display, and \<open>main\<close> with its loop.
  \<^item> \<open>Loggers\<close> (\<open>FileLogger.cpp\<close>, \<open>opcua_logging.cpp\<close>, \<open>PerformanceLogger.h\<close>) and
    \<open>System_Program\<close> (\<open>System_Info.cpp\<close>): \<open>main\<close> with its three threads. Between two steps of a send (taking the queue,
    building the stores, finding nodes, each write) the workers may push; \<open>sends_alone\<close> ties these steps to
    the function \<open>sendTelemetryPayload\<close> of \<open>Telemetry_Client\<close>.
  \<^item> \<open>Wmi_Values\<close>, \<open>Wmi_Storage\<close> (\<open>wmi/projutils.cpp\<close>, \<open>HardwareQueries.h\<close>, \<open>HardwareManager.cpp\<close>): the deprecated
    inventory over WMI, its six threads, and the join of disks, partitions and volumes. \<open>Com_Setup\<close>
    (\<open>wmi/ComManager.cpp\<close>, \<open>wmi/WbemManager.cpp\<close>): the connection it needs, set up and given back. \<open>Console_Output\<close>
    (\<open>OutputHandler.cpp\<close>, \<open>wmi/storagedevice.cpp\<close> and its like): the inventory printed.
  \<^item> \<open>Config_Dump\<close> (\<open>CustomClient.cpp\<close>, \<open>client.cpp\<close>, \<open>server.cpp\<close>): what the clients and the server write of
    their configuration into the log.
  \<^item> this theory and \<open>Gpu_Screen\<close>: the path of a value from the processor, and from a graphics card, to the screen.

  \<^bold>\<open>How the code is modelled.\<close> A struct or class is a \<open>record\<close> with the names of its fields, an enumeration a
  \<open>datatype\<close>, an integer a word of its width, so that every wrap-around of the sources is one here. State is passed
  explicitly. A fault (null pointer, access outside an array, division by zero) and an exception are
  different values of a result type. What the sources call and do not contain (processor, kernel, WDF,
  \<open>CreateFile\<close>, NVAPI, ADL, ADLX, DXGI, open62541, files, clocks, the memory allocator) is an argument, mostly a
  record of functions over an arbitrary state; what a theorem needs of it is a named predicate
  (\<open>cooperative\<close>, \<open>transports\<close>, \<open>allocates\<close>, \<open>obliging\<close>, \<open>generous\<close>, \<open>fresh_memory\<close>, \<open>clocked\<close>, \<open>reliable\<close>,
  \<open>standard_types\<close>, \<open>watched\<close>), and each has an instance. Threads are step relations over the critical sections.

  \<^bold>\<open>What is proved.\<close> For each driver: no request, whatever its length, leads outside the buffer, the mutex and the
  affinity are given back, an answer holds every metric once, and the values are the formulas of
  the registers, wrap-around included. For the client of the driver: it reads all metrics of either
  driver in exactly two requests and stores the driver's second answer, or does not end when the device vanishes between its two calls. For the queue: order, no lost
  wake-up, shutdown; and over all interleavings with the sender, what was pushed is what was written, what the sender has in
  its hands and what is queued. A worker keeps its interval and never makes up for a late poll. For the wire: the records decode to the sensors. For the server: whoever gets access has
  presented an enrolled certificate, and a device changes only what is its own. For the control centre:
  exactly one subscription for each known device, a drawing when it is due, aligned frames, the last row shown, and
  the console given back only when it ends with 0. For the inventory: its six threads do not
  race, what the join attaches, and exactly when COM is left as it was found. For the logs: a dump
  of the configuration shows no more of the private key than its first 40 bytes. For the server's \<open>main\<close>: an
  exception of \<open>run\<close>, or a signal that finds the server, makes it end, and nothing else does. And over all parts: \<open>client_and_server_meet\<close>, \<open>telemetry_client_admitted\<close>, \<open>amd_to_screen\<close>,
  \<open>intel_to_screen\<close>, \<open>gpu_to_screen\<close>.

  \<^bold>\<open>Bounds and fuel.\<close> \<open>normalize\<close> in \<open>Float32\<close> has \<open>normalize_steps\<close> = 149 steps, one for each exponent from
  the largest significand to the smallest float; \<open>normalize_range\<close> shows that they are enough from
  \<open>2^-100\<close> to \<open>2^100\<close>, and the values that are sensors lie inside. Theorems
  about the names of metrics need at most 10000 processors, as \<open>BuildCoreName\<close> has room for four digits and more
  would be cut. The loops that may not end (\<open>driver_loop\<close>, \<open>worker_loop\<close>) are partial functions, and
  theorems say when they return.

  \<^bold>\<open>Not modelled.\<close> \<open>outputMetrics\<close>, which prints the sensors; the test client of \<open>OPC_UA/main.cpp\<close>,
  which nothing calls; the two driver callbacks with empty bodies; infinities and NaN of \<open>float\<close>; failure of \<open>new\<close> inside the standard library's containers;
  the Python and PowerShell scripts, which are not part of the C and C++ program.
\<close>

section \<open>From the processor to the screen\<close>

text \<open>
  What the stack promises about a value: whoever receives it reads the records that were written, in the
  encoding it has arrived in. \<open>net\<close> is the memory and the variant of the receiver.
\<close>

definition delivers_value ::
  "codec \<Rightarrow> codec \<Rightarrow> (memory \<Rightarrow> ext_object list \<Rightarrow> memory \<times> variant) \<Rightarrow> bool" where
  "delivers_value cd cd' net \<longleftrightarrow>
     (\<forall>mem arr ds. variant_carries cd mem (ExtArray arr) ds \<longrightarrow>
        (case net mem arr of (mem', v) \<Rightarrow> variant_carries cd' mem' v ds))"

lemma length_snapshot: "length (ts_sensors (snapshot d)) = length (sensor_keys d)"
  by (simp add: snapshot_def sensor_keys_def)

context sensed_driver begin

text \<open>One round of the worker on a serving driver queues one snapshot, with a sensor for every metric.\<close>

lemma worker_round:
  assumes "R (worker_world st)" "transports E H" "allocates E" and "h_device_valid (worker_driver st)"
    and live: "cpu_device st = Some live" "sensor_keys live = [] \<or> sensor_keys live = keys"
    and q: "worker_queue st = empty_queue"
  shows "\<exists>ds w' st'. runDriver E (worker_driver st) (worker_world st) =
      Some (Returned ds, (worker_driver st)\<lparr>ret_data := ds\<rparr>, w') \<and>
    cpu_execute E st = Some (Returned st') \<and>
    worker_queue st' = \<lparr>queue = [snapshot (fetchMetrics ds live)], shutting_down = False\<rparr> \<and>
    map tag_of ds = tags \<and> hd_name (fetchMetrics ds live) = hd_name live \<and> sensor_keys (fetchMetrics ds live) = keys"
proof -
  from client_reads[OF assms(1-4)] obtain ds w' where
    r: "runDriver E (worker_driver st) (worker_world st) = Some (Returned ds, (worker_driver st)\<lparr>ret_data := ds\<rparr>, w')"
    and t: "map tag_of ds = tags" by blast
  from r t live(1) q reading_keys[OF assms(1) t live(2)] show ?thesis
    by (auto simp: cpu_execute_def fetch_cpu_def push_section_def empty_queue_def fetch_identity)
qed

text \<open>And from the queue to the screen.\<close>

lemma to_screen:
  assumes cpu: "R (worker_world st)" "transports E H" "allocates E" "h_device_valid (worker_driver st)"
      "cpu_device st = Some live" "sensor_keys live = [] \<or> sensor_keys live = keys" "worker_queue st = empty_queue"
    and ua: "obliging U" "generous cd" "fresh_memory cd" "client_folder s = Some folder" "info_client.world s = (w, [])"
      "finite (dom (heap s))" "delivers_value cd cd' net"
    and screen: "cache nm = Some c"
  shows "\<exists>ds w' st' s' store arr mem ids g'.
    runDriver E (worker_driver st) (worker_world st) = Some (Returned ds, (worker_driver st)\<lparr>ret_data := ds\<rparr>, w') \<and>
    map tag_of ds = tags \<and> sensor_keys (fetchMetrics ds live) = keys \<and>
    cpu_execute E st = Some (Returned st') \<and> queue (worker_queue st') = [snapshot (fetchMetrics ds live)] \<and>
    sendTelemetryPayload (recording U) cd (worker_queue st') s = (Sent True, empty_queue, s') \<and>
    buildTelemetryPayload cd [snapshot (fetchMetrics ds live)] (heap s) = Some ([store], mem) \<and> store_sensors store = Some arr \<and>
    device_nodes s' (hd_name live) = Some ids \<and>
    last (snd (info_client.world s')) = (id_sensors ids, SensorsValue (Some arr) (length arr)) \<and>
    deliver cd' (fst (net mem arr)) cache [(nm, snd (net mem arr))] g = Some g' \<and>
    grid_lookup g' (client_folder_name c, dd_hardware_type (cache_info c)) =
      Some (row_header (cache_info c) # map shown_field (ts_sensors (snapshot (fetchMetrics ds live))))"
proof -
  from worker_round[OF cpu] obtain ds w' st' where
    r: "runDriver E (worker_driver st) (worker_world st) = Some (Returned ds, (worker_driver st)\<lparr>ret_data := ds\<rparr>, w')"
    and ex: "cpu_execute E st = Some (Returned st')"
    and q': "worker_queue st' = \<lparr>queue = [snapshot (fetchMetrics ds live)], shutting_down = False\<rparr>" (is "_ = ?q")
    and t: "map tag_of ds = tags" and name: "hd_name (fetchMetrics ds live) = hd_name live"
    and ks: "sensor_keys (fetchMetrics ds live) = keys" by blast
  let ?snap = "snapshot (fetchMetrics ds live)"
  have q: "queue ?q \<noteq> []" by simp
  obtain s' w2 stores mem where sent: "sendTelemetryPayload (recording U) cd ?q s = (Sent True, ?q\<lparr>queue := []\<rparr>, s')"
      "info_client.world s' = (w2, [] @ all_writes (device_nodes s') (zip (queue ?q) stores))"
      "buildTelemetryPayload cd (queue ?q) (heap s) = Some (stores, mem)"
      "list_all2 (stores_snapshot cd mem) (queue ?q) stores" "ts_name ` set (queue ?q) \<subseteq> dom (device_nodes s')"
    using sent_all[OF ua(1-5) q ua(6)] by blast
  from sent(4) obtain store arr where store: "stores = [store]" "store_sensors store = Some arr"
      "dev_sensors_size store = length arr" "variant_carries cd mem (ExtArray arr) (map dto_of (ts_sensors ?snap))"
    unfolding stores_snapshot_def by (auto simp: list_all2_Cons1)
  from sent(5) name obtain ids where ids: "device_nodes s' (hd_name live) = Some ids" by (auto simp: snapshot_def)
  have last: "last (snd (info_client.world s')) = (id_sensors ids, SensorsValue (Some arr) (length arr))"
    using sent(2) by (simp add: store all_writes_def name ids writes_def snapshot_def)
  have "variant_carries cd' (fst (net mem arr)) (snd (net mem arr)) (map dto_of (ts_sensors ?snap))"
    using ua(7) store(4) unfolding delivers_value_def by (metis (mono_tags, lifting) case_prod_beta)
  from deliver_snapshot[where cache = cache, OF screen this, of g] obtain g' where
    shown: "deliver cd' (fst (net mem arr)) cache [(nm, snd (net mem arr))] g = Some g'"
      "grid_lookup g' (client_folder_name c, dd_hardware_type (cache_info c)) =
        Some (row_header (cache_info c) # map shown_field (ts_sensors ?snap))"
    by auto
  show ?thesis
    by (rule exI[of _ ds], rule exI[of _ w'], rule exI[of _ st'], rule exI[of _ s'], rule exI[of _ store],
        rule exI[of _ arr], rule exI[of _ mem], rule exI[of _ ids], rule exI[of _ g'])
       (use r t ks ex q' sent(1,3) store(1,2) ids last shown in \<open>simp add: empty_queue_def\<close>)
qed

end

text \<open>
  C1: The whole path on an AMD processor: one round of the worker reads the driver and queues one snapshot, with
  clock, load and power of every core and the four package sensors in order, and the values of the driver;
  sending it writes these sensors to the node of the device; and when the value arrives, the screen of the
  control centre shows exactly them.
\<close>

theorem amd_to_screen:
  assumes cpu: "amd_serving K n (worker_world st)" "transports E (amd_EvtIoDeviceControl K)" "allocates E"
      "h_device_valid (worker_driver st)" "unat n \<le> 10000" "cpu_device st = Some live"
      "sensor_keys live = [] \<or> sensor_keys live = amd_sensor_keys (unat n)" "worker_queue st = empty_queue"
    and ua: "obliging U" "generous cd" "fresh_memory cd" "client_folder s = Some folder" "info_client.world s = (w, [])"
      "finite (dom (heap s))" "delivers_value cd cd' net"
    and screen: "cache nm = Some c"
  shows "\<exists>ds w' st' s' store arr mem ids g'.
    runDriver E (worker_driver st) (worker_world st) = Some (Returned ds, (worker_driver st)\<lparr>ret_data := ds\<rparr>, w') \<and>
    map tag_of ds = amd_entries n \<and> sensor_keys (fetchMetrics ds live) = amd_sensor_keys (unat n) \<and>
    cpu_execute E st = Some (Returned st') \<and> queue (worker_queue st') = [snapshot (fetchMetrics ds live)] \<and>
    sendTelemetryPayload (recording U) cd (worker_queue st') s = (Sent True, empty_queue, s') \<and>
    buildTelemetryPayload cd [snapshot (fetchMetrics ds live)] (heap s) = Some ([store], mem) \<and> store_sensors store = Some arr \<and>
    device_nodes s' (hd_name live) = Some ids \<and>
    last (snd (info_client.world s')) = (id_sensors ids, SensorsValue (Some arr) (length arr)) \<and>
    deliver cd' (fst (net mem arr)) cache [(nm, snd (net mem arr))] g = Some g' \<and>
    grid_lookup g' (client_folder_name c, dd_hardware_type (cache_info c)) =
      Some (row_header (cache_info c) # map shown_field (ts_sensors (snapshot (fetchMetrics ds live))))"
  using amd_sensors.to_screen[where cache = cache, OF conjI[OF cpu(1,5)] cpu(2-4,6-8) ua screen] .

definition sample_cpu_worker :: "CPU_VENDOR \<Rightarrow> 'w \<Rightarrow> 'w cpu_worker" where
  "sample_cpu_worker v w = \<lparr>worker_driver = open_client v, cpu_device = Some new_CPULiveMetrics,
     worker_queue = empty_queue, worker_world = w\<rparr>"

lemma amd_to_screen_witness:
  "\<exists>s st' s' row g'. cpu_execute (sample_env (amd_EvtIoDeviceControl (sample_kernel amd_leaf0 2))) (sample_cpu_worker CPU_VENDOR_AMD s) =
      Some (Returned st') \<and>
    sendTelemetryPayload (recording plain_env) heap_codec (worker_queue st') (sample_client ((), [])) = (Sent True, empty_queue, s') \<and>
    grid_lookup g' (''pc'', ''CPU'') = Some row \<and> length row = 11"
proof -
  from amd_sample_running obtain s where "amd_running (sample_kernel amd_leaf0 2) s" by blast
  then have serving: "amd_serving (sample_kernel amd_leaf0 2) 2 (worker_world (sample_cpu_worker CPU_VENDOR_AMD s))"
    by (simp add: amd_serving_def sample_cooperative sample_cpu_worker_def)
  have keys: "length (amd_sensor_keys 2) = 10" using length_amd_sensor_keys[of 2] by simp
  let ?net = "\<lambda>mem arr. (mem, ExtArray arr)"
  let ?st = "sample_cpu_worker CPU_VENDOR_AMD s" and ?c = "sample_client ((), [])"
  have w: "h_device_valid (worker_driver ?st)" "unat (2 :: ULONG) \<le> 10000" "cpu_device ?st = Some new_CPULiveMetrics"
    "sensor_keys new_CPULiveMetrics = [] \<or> sensor_keys new_CPULiveMetrics = amd_sensor_keys (unat (2 :: ULONG))"
    "worker_queue ?st = empty_queue"
    by (simp_all add: sample_cpu_worker_def open_client_def sensor_keys_def new_CPULiveMetrics_def)
  have u: "obliging plain_env" "generous heap_codec" "fresh_memory heap_codec"
    "client_folder ?c = Some (string_node_id 1 ''pc'')" "info_client.world ?c = ((), [])" "finite (dom (heap ?c))"
    "delivers_value heap_codec heap_codec ?net"
    by (simp_all add: obliging_def plain_env_def heap_codec_generous heap_codec_fresh sample_client_def delivers_value_def)
  obtain d where d: "pc_cache ''ns=1;s=pc.CPU'' = Some d" "client_folder_name d = ''pc''"
      "dd_hardware_type (cache_info d) = ''CPU''" by (simp add: pc_cache_def)
  obtain ds st' s' g' where
      "sensor_keys (fetchMetrics ds new_CPULiveMetrics) = amd_sensor_keys (unat (2 :: ULONG))"
      "cpu_execute (sample_env (amd_EvtIoDeviceControl (sample_kernel amd_leaf0 2))) ?st = Some (Returned st')"
      "sendTelemetryPayload (recording plain_env) heap_codec (worker_queue st') ?c = (Sent True, empty_queue, s')"
      "grid_lookup g' (''pc'', ''CPU'') =
        Some (row_header (cache_info d) # map shown_field (ts_sensors (snapshot (fetchMetrics ds new_CPULiveMetrics))))"
    using amd_to_screen[where cache = pc_cache, OF serving sample_env_transports sample_env_allocates w u d(1),
        of new_DisplayGrid]
    unfolding d(2,3) by (elim exE conjE) (rule that)
  moreover from this(1) keys have "length (row_header (cache_info d) #
      map shown_field (ts_sensors (snapshot (fetchMetrics ds new_CPULiveMetrics)))) = 11" by (simp add: length_snapshot)
  ultimately show ?thesis by blast
qed

text \<open>
  C2: The same path on an Intel processor: the snapshot, and in the end the screen, has temperature, voltage, clock and load of
  every core, and of the package sensors those the processor has, in order.
\<close>

theorem intel_to_screen:
  assumes cpu: "intel_serving K th ra n (worker_world st)" "transports E (intel_EvtIoDeviceControl K)" "allocates E"
      "h_device_valid (worker_driver st)" "unat n \<le> 10000" "cpu_device st = Some live"
      "sensor_keys live = [] \<or> sensor_keys live = intel_sensor_keys th ra (unat n)" "worker_queue st = empty_queue"
    and ua: "obliging U" "generous cd" "fresh_memory cd" "client_folder s = Some folder" "info_client.world s = (w, [])"
      "finite (dom (heap s))" "delivers_value cd cd' net"
    and screen: "cache nm = Some c"
  shows "\<exists>ds w' st' s' store arr mem ids g'.
    runDriver E (worker_driver st) (worker_world st) = Some (Returned ds, (worker_driver st)\<lparr>ret_data := ds\<rparr>, w') \<and>
    map tag_of ds = intel_entries th ra n \<and> sensor_keys (fetchMetrics ds live) = intel_sensor_keys th ra (unat n) \<and>
    cpu_execute E st = Some (Returned st') \<and> queue (worker_queue st') = [snapshot (fetchMetrics ds live)] \<and>
    sendTelemetryPayload (recording U) cd (worker_queue st') s = (Sent True, empty_queue, s') \<and>
    buildTelemetryPayload cd [snapshot (fetchMetrics ds live)] (heap s) = Some ([store], mem) \<and> store_sensors store = Some arr \<and>
    device_nodes s' (hd_name live) = Some ids \<and>
    last (snd (info_client.world s')) = (id_sensors ids, SensorsValue (Some arr) (length arr)) \<and>
    deliver cd' (fst (net mem arr)) cache [(nm, snd (net mem arr))] g = Some g' \<and>
    grid_lookup g' (client_folder_name c, dd_hardware_type (cache_info c)) =
      Some (row_header (cache_info c) # map shown_field (ts_sensors (snapshot (fetchMetrics ds live))))"
  using intel_sensors.to_screen[where cache = cache, OF conjI[OF cpu(1,5)] cpu(2-4,6-8) ua screen] .

lemma intel_to_screen_witness:
  "\<exists>s st' s' row g'. cpu_execute (sample_env (intel_EvtIoDeviceControl (sample_kernel intel_leaf0 2))) (sample_cpu_worker CPU_VENDOR_INTEL s) =
      Some (Returned st') \<and>
    sendTelemetryPayload (recording plain_env) heap_codec (worker_queue st') (sample_client ((), [])) = (Sent True, empty_queue, s') \<and>
    grid_lookup g' (''pc'', ''CPU'') = Some row \<and> length row \<ge> 9"
proof -
  from intel_sample_running obtain th ra s where "intel_running (sample_kernel intel_leaf0 2) th ra s" by blast
  then have serving: "intel_serving (sample_kernel intel_leaf0 2) th ra 2 (worker_world (sample_cpu_worker CPU_VENDOR_INTEL s))"
    by (simp add: intel_serving_def sample_cooperative sample_cpu_worker_def)
  have keys: "length (intel_sensor_keys th ra 2) \<ge> 8" using length_intel_sensor_keys[of th ra 2] by simp
  let ?net = "\<lambda>mem arr. (mem, ExtArray arr)"
  let ?st = "sample_cpu_worker CPU_VENDOR_INTEL s" and ?c = "sample_client ((), [])"
  have w: "h_device_valid (worker_driver ?st)" "unat (2 :: ULONG) \<le> 10000" "cpu_device ?st = Some new_CPULiveMetrics"
    "sensor_keys new_CPULiveMetrics = [] \<or> sensor_keys new_CPULiveMetrics = intel_sensor_keys th ra (unat (2 :: ULONG))"
    "worker_queue ?st = empty_queue"
    by (simp_all add: sample_cpu_worker_def open_client_def sensor_keys_def new_CPULiveMetrics_def)
  have u: "obliging plain_env" "generous heap_codec" "fresh_memory heap_codec"
    "client_folder ?c = Some (string_node_id 1 ''pc'')" "info_client.world ?c = ((), [])" "finite (dom (heap ?c))"
    "delivers_value heap_codec heap_codec ?net"
    by (simp_all add: obliging_def plain_env_def heap_codec_generous heap_codec_fresh sample_client_def delivers_value_def)
  obtain d where d: "pc_cache ''ns=1;s=pc.CPU'' = Some d" "client_folder_name d = ''pc''"
      "dd_hardware_type (cache_info d) = ''CPU''" by (simp add: pc_cache_def)
  obtain ds st' s' g' where
      "sensor_keys (fetchMetrics ds new_CPULiveMetrics) = intel_sensor_keys th ra (unat (2 :: ULONG))"
      "cpu_execute (sample_env (intel_EvtIoDeviceControl (sample_kernel intel_leaf0 2))) ?st = Some (Returned st')"
      "sendTelemetryPayload (recording plain_env) heap_codec (worker_queue st') ?c = (Sent True, empty_queue, s')"
      "grid_lookup g' (''pc'', ''CPU'') =
        Some (row_header (cache_info d) # map shown_field (ts_sensors (snapshot (fetchMetrics ds new_CPULiveMetrics))))"
    using intel_to_screen[where cache = pc_cache, OF serving sample_env_transports sample_env_allocates w u d(1),
        of new_DisplayGrid]
    unfolding d(2,3) by (elim exE conjE) (rule that)
  moreover from this(1) keys have "length (row_header (cache_info d) #
      map shown_field (ts_sensors (snapshot (fetchMetrics ds new_CPULiveMetrics)))) \<ge> 9" by (simp add: length_snapshot)
  ultimately show ?thesis by blast
qed

end
